theory Spec2Isabelle
  imports Main "HOL-Library.Word"
begin

unbundle bit_operations_syntax

section \<open>Shared types (assembler.h)\<close>

text \<open>
  The label kinds and linkages are the character macros \<^verbatim>\<open>DATA\<close>, \<^verbatim>\<open>INS\<close>,
  \<^verbatim>\<open>UNKNOWN_LABEL_TYPE\<close> and \<^verbatim>\<open>EXTERNAL\<close>, \<^verbatim>\<open>ENTRY\<close>, \<^verbatim>\<open>REGULAR\<close> of
  \<^verbatim>\<open>assembler.h\<close>. The fields \<^verbatim>\<open>l_address\<close> and \<^verbatim>\<open>ic_index\<close> are
  \<^verbatim>\<open>unsigned char\<close> in the source, hence 8-bit words here. C \<^verbatim>\<open>int\<close> values are
  modelled as \<^typ>\<open>int\<close>: the counters stay below 157 and the encoded words below
  \<open>2 ^ 15\<close>, far from any overflow. \<^verbatim>\<open>malloc\<close> and \<^verbatim>\<open>realloc\<close> are taken to
  succeed.
\<close>

datatype kind = DATA | INS | UNKNOWN_LABEL_TYPE

datatype linkage = EXTERNAL | ENTRY | REGULAR

record Label =
  l_name :: string
  l_address :: "8 word"
  l_data_or_ins :: kind
  l_ent_or_ext :: linkage

record Pending =
  label_p_name :: string
  ic_index :: "8 word"
  line_number_use :: int

definition FATAL_ERROR :: int where
  "FATAL_ERROR = - 4"

definition ERROR_OCCURRED :: int where
  "ERROR_OCCURRED = - 3"

section \<open>Second pass (second_pass_utils.c, second_pass.c)\<close>

subsection \<open>Output files\<close>

text \<open>
  The three output files \<^verbatim>\<open><base>.ob\<close>, \<^verbatim>\<open><base>.ent\<close>, \<^verbatim>\<open><base>.ext\<close> are three
  slots of the record below (\<^verbatim>\<open>build_path\<close> gives three different paths for every
  basename shorter than 508 bytes). A slot holds the lines written so far, or
  \<open>None\<close> when the file does not exist. The handles are the \<^verbatim>\<open>FILE *\<close> variables of
  \<^verbatim>\<open>second_pass\<close>: \<open>False\<close> is \<^verbatim>\<open>NULL\<close> or closed. The field \<open>io\<close> lists the outcomes
  of the coming \<^verbatim>\<open>fopen\<close> and \<^verbatim>\<open>fprintf\<close> calls, in call order; once it is
  exhausted every call succeeds. \<^verbatim>\<open>remove\<close> and \<^verbatim>\<open>fclose\<close> are taken to succeed.
\<close>

record outputs =
  ob_disk :: "string list option"
  ent_disk :: "string list option"
  ext_disk :: "string list option"
  ob :: bool
  ent :: bool
  ext :: bool
  io :: "bool list"
  stderr2 :: "string list"

definition io_call :: "outputs \<Rightarrow> bool \<times> outputs" where
  "io_call fs = (case io fs of [] \<Rightarrow> (True, fs) | b # bs \<Rightarrow> (b, fs\<lparr>io := bs\<rparr>))"

definition append_line :: "string \<Rightarrow> string list option \<Rightarrow> string list option" where
  "append_line l d = map_option (\<lambda>ls. ls @ [l]) d"

definition ORG_ADDRESS :: int where
  "ORG_ADDRESS = 100"

definition QUAD_DIGITS :: string where
  "QUAD_DIGITS = ''abcd''"

definition open_outputs :: "outputs \<Rightarrow> int \<times> outputs" where
  "open_outputs fs0 =
     (let fs = fs0\<lparr>ent := False, ext := False\<rparr>;
          (ok, fs1) = io_call fs
      in if \<not> ok then (1, fs1\<lparr>ob := False\<rparr>)
         else (0, fs1\<lparr>ob := True, ob_disk := Some []\<rparr>))"

definition close_outputs :: "outputs \<Rightarrow> outputs" where
  "close_outputs fs = fs\<lparr>ob := False, ent := False, ext := False\<rparr>"

definition remove_outputs :: "outputs \<Rightarrow> outputs" where
  "remove_outputs fs = fs\<lparr>ob_disk := None, ent_disk := None, ext_disk := None\<rparr>"

fun base4_digits :: "nat \<Rightarrow> int \<Rightarrow> string" where
  "base4_digits 0 v = []"
| "base4_digits (Suc n) v = base4_digits n (v div 4) @ [QUAD_DIGITS ! nat (v mod 4)]"

definition to_base4_word :: "int \<Rightarrow> string" where
  "to_base4_word v = base4_digits 5 (v AND 1023)"

definition to_base4_addr :: "int \<Rightarrow> string" where
  "to_base4_addr v = base4_digits 4 (if v < 0 then 0 else v)"

definition write_word_to_ob :: "outputs \<Rightarrow> int \<Rightarrow> int \<Rightarrow> outputs" where
  "write_word_to_ob fs abs_address word10bits =
     (let (ok, fs1) = io_call fs
      in if ok
         then fs1\<lparr>ob_disk := append_line
                (to_base4_addr abs_address @ [CHR 0x09] @ to_base4_word word10bits @ [CHR 0x0A])
                (ob_disk fs1)\<rparr>
         else fs1)"

definition write_entry :: "outputs \<Rightarrow> string \<Rightarrow> int \<Rightarrow> int \<times> outputs" where
  "write_entry fs lab abs_address =
     (let (opened, fs1) =
            (if \<not> ent fs
             then (let (ok, fs') = io_call fs
                   in if ok then (True, fs'\<lparr>ent := True, ent_disk := Some []\<rparr>) else (False, fs'))
             else (True, fs))
      in if \<not> opened then (1, fs1)
         else (let (ok, fs2) = io_call fs1
               in if \<not> ok then (1, fs2)
                  else (0, fs2\<lparr>ent_disk := append_line
                         (lab @ '' '' @ to_base4_addr abs_address @ [CHR 0x0A]) (ent_disk fs2)\<rparr>)))"

definition write_external :: "outputs \<Rightarrow> string \<Rightarrow> int \<Rightarrow> int \<times> outputs" where
  "write_external fs lab abs_use_address =
     (let (opened, fs1) =
            (if \<not> ext fs
             then (let (ok, fs') = io_call fs
                   in if ok then (True, fs'\<lparr>ext := True, ext_disk := Some []\<rparr>) else (False, fs'))
             else (True, fs))
      in if \<not> opened then (1, fs1)
         else (let (ok, fs2) = io_call fs1
               in if \<not> ok then (1, fs2)
                  else (0, fs2\<lparr>ext_disk := append_line
                         (lab @ '' '' @ to_base4_addr abs_use_address @ [CHR 0x0A]) (ext_disk fs2)\<rparr>)))"

definition find_label :: "Label list \<Rightarrow> string \<Rightarrow> Label option" where
  "find_label labels name = find (\<lambda>l. l_name l = name) labels"

subsection \<open>Patching one operand word\<close>

text \<open>
  \<^verbatim>\<open>ins_set\<close> is \<^verbatim>\<open>NULL\<close> exactly when no instruction word was emitted, that is
  when the list is empty. The read and the write at \<^verbatim>\<open>ic_index\<close> are inside the
  array for every pending reference that Pass 1 creates; the theorems below state
  that as a hypothesis where they need it.
\<close>

definition ADDR_VALUE_MASK :: int where
  "ADDR_VALUE_MASK = 255"

definition ARE_MASK :: int where
  "ARE_MASK = 3"

definition patch_word_with_label ::
  "int list \<Rightarrow> 8 word \<Rightarrow> Label \<Rightarrow> int \<Rightarrow> outputs \<Rightarrow> bool \<Rightarrow> int \<times> int list \<times> outputs \<times> bool" where
  "patch_word_with_label ins_set ic_idx lab ic_final fs p_error =
     (if ins_set = [] then (0, ins_set, fs, p_error)
      else
        (let abs_val =
               (if l_ent_or_ext lab = EXTERNAL then 0
                else if l_data_or_ins lab = DATA then ORG_ADDRESS + ic_final + uint (l_address lab)
                else ORG_ADDRESS + uint (l_address lab));
             p_error1 =
               (if l_ent_or_ext lab \<noteq> EXTERNAL \<and> abs_val > ADDR_VALUE_MASK then True else p_error);
             word = (ins_set ! unat ic_idx) AND NOT (push_bit 2 ADDR_VALUE_MASK OR ARE_MASK)
         in if l_ent_or_ext lab = EXTERNAL
            then (case write_external fs (l_name lab) (ORG_ADDRESS + uint ic_idx) of
                    (rc, fs1) \<Rightarrow>
                      if rc \<noteq> 0 then (1, ins_set, fs1, p_error1)
                      else (0, ins_set[unat ic_idx := word OR 1], fs1, p_error1))
            else (0, ins_set[unat ic_idx := (word OR push_bit 2 (abs_val AND ADDR_VALUE_MASK)) OR 2],
                  fs, p_error1)))"

subsection \<open>The loops of second_pass\<close>

fun resolve_pending ::
  "Pending list \<Rightarrow> Label list \<Rightarrow> int \<Rightarrow> int list \<Rightarrow> outputs \<Rightarrow> bool \<Rightarrow> int \<times> int list \<times> outputs \<times> bool" where
  "resolve_pending [] label_set ic_final ins_set fs had_error = (0, ins_set, fs, had_error)"
| "resolve_pending (pen # pens) label_set ic_final ins_set fs had_error =
     (case find_label label_set (label_p_name pen) of
        None \<Rightarrow>
          resolve_pending pens label_set ic_final ins_set
            (fs\<lparr>stderr2 := stderr2 fs @ [''Error: undefined label '' @ label_p_name pen]\<rparr>) True
      | Some lab \<Rightarrow>
          (case patch_word_with_label ins_set (ic_index pen) lab ic_final fs had_error of
             (rc, ins_set1, fs1, had_error1) \<Rightarrow>
               if rc \<noteq> 0 then (rc, ins_set1, fs1, had_error1)
               else resolve_pending pens label_set ic_final ins_set1 fs1 had_error1))"

definition emit_words :: "outputs \<Rightarrow> int \<Rightarrow> int \<Rightarrow> int list \<Rightarrow> outputs" where
  "emit_words fs first_address n words =
     foldl (\<lambda>f i. write_word_to_ob f (first_address + int i) (words ! i)) fs [0 ..< nat n]"

fun flush_all_entries :: "outputs \<Rightarrow> Label list \<Rightarrow> int \<Rightarrow> bool \<Rightarrow> outputs \<times> bool" where
  "flush_all_entries fs [] ic_final p_error = (fs, p_error)"
| "flush_all_entries fs (l # ls) ic_final p_error =
     (if l_ent_or_ext l = ENTRY
      then (let abs_addr =
                  (if l_data_or_ins l = DATA then ORG_ADDRESS + ic_final + uint (l_address l)
                   else ORG_ADDRESS + uint (l_address l))
            in case write_entry fs (l_name l) abs_addr of
                 (rc, fs1) \<Rightarrow> flush_all_entries fs1 ls ic_final (if rc \<noteq> 0 then True else p_error))
      else flush_all_entries fs ls ic_final p_error)"

subsection \<open>second_pass\<close>

text \<open>
  The result is the return code, the value left in \<^verbatim>\<open>*p_error\<close>, the patched
  instruction image and the files; its last component is the final value of the
  local variable \<^verbatim>\<open>had_error\<close>, kept so that theorems can speak about the
  non-fatal errors of this pass.
\<close>

definition second_pass ::
  "int list \<Rightarrow> int \<Rightarrow> int list \<Rightarrow> int \<Rightarrow> Label list \<Rightarrow> Pending list \<Rightarrow> int \<Rightarrow> outputs
     \<Rightarrow> int \<times> int \<times> int list \<times> outputs \<times> bool" where
  "second_pass ins_set ic_final dataset dc_final label_set pending_refs p_error fs0 =
     (let had_first_pass_error = (p_error \<noteq> 0) in
      case open_outputs fs0 of
        (rc0, fs1) \<Rightarrow>
          if rc0 \<noteq> 0 then (FATAL_ERROR, p_error, ins_set, remove_outputs fs1, False)
          else
            (case io_call fs1 of
               (ok, fs2) \<Rightarrow>
                 if \<not> ok
                 then (FATAL_ERROR, p_error, ins_set, remove_outputs (close_outputs fs2), False)
                 else
                   (let fs3 = fs2\<lparr>ob_disk := append_line
                                ('' '' @ to_base4_addr ic_final @ '' '' @ to_base4_addr dc_final
                                   @ [CHR 0x0A]) (ob_disk fs2)\<rparr>
                    in case resolve_pending pending_refs label_set ic_final ins_set fs3 False of
                         (rc, ins_set1, fs4, had_error) \<Rightarrow>
                           if rc \<noteq> 0
                           then (FATAL_ERROR, p_error, ins_set1,
                                 remove_outputs (close_outputs fs4), had_error)
                           else
                             (let fs5 = emit_words fs4 ORG_ADDRESS ic_final ins_set1;
                                  fs6 = emit_words fs5 (ORG_ADDRESS + ic_final) dc_final dataset
                              in case flush_all_entries fs6 label_set ic_final had_error of
                                   (fs7, had_error2) \<Rightarrow>
                                     if had_error2 \<or> had_first_pass_error
                                     then (0, 1, ins_set1,
                                           remove_outputs (close_outputs fs7), had_error2)
                                     else (0, p_error, ins_set1, close_outputs fs7, had_error2)))))"

section \<open>Entry emission\<close>

definition entry_line :: "int \<Rightarrow> Label \<Rightarrow> string" where
  "entry_line ic_final l =
     l_name l @ '' '' @
     to_base4_addr (if l_data_or_ins l = DATA then ORG_ADDRESS + ic_final + uint (l_address l)
                    else ORG_ADDRESS + uint (l_address l)) @ [CHR 0x0A]"

definition io_succeeds :: "outputs \<Rightarrow> bool" where
  "io_succeeds fs = list_all (\<lambda>b. b) (io fs)"

section \<open>External references\<close>

definition is_external_ref :: "Label list \<Rightarrow> Pending \<Rightarrow> bool" where
  "is_external_ref labels p =
     (case find_label labels (label_p_name p) of None \<Rightarrow> False
      | Some lab \<Rightarrow> l_ent_or_ext lab = EXTERNAL)"

definition external_line :: "Pending \<Rightarrow> string" where
  "external_line p =
     label_p_name p @ '' '' @ to_base4_addr (ORG_ADDRESS + uint (ic_index p)) @ [CHR 0x0A]"

definition no_files :: outputs where
  "no_files = \<lparr>ob_disk = None, ent_disk = None, ext_disk = None,
                ob = False, ent = False, ext = False, io = [], stderr2 = []\<rparr>"

subsection \<open>Calls that succeed\<close>

lemma list_all_tl: "list_all P xs \<Longrightarrow> list_all P (tl xs)"
  by (cases xs) simp_all

lemma io_call_ok: "io_succeeds fs \<Longrightarrow> io_call fs = (True, fs\<lparr>io := tl (io fs)\<rparr>)"
  by (cases "io fs") (auto simp: io_call_def io_succeeds_def)

lemma io_succeeds_upd [simp]:
  "io_succeeds (fs\<lparr>ent := a\<rparr>) = io_succeeds fs"
  "io_succeeds (fs\<lparr>ext := a\<rparr>) = io_succeeds fs"
  "io_succeeds (fs\<lparr>ob := a\<rparr>) = io_succeeds fs"
  "io_succeeds (fs\<lparr>ent_disk := d\<rparr>) = io_succeeds fs"
  "io_succeeds (fs\<lparr>ext_disk := d\<rparr>) = io_succeeds fs"
  "io_succeeds (fs\<lparr>ob_disk := d\<rparr>) = io_succeeds fs"
  "io_succeeds (fs\<lparr>stderr2 := s\<rparr>) = io_succeeds fs"
  "io_succeeds (fs\<lparr>io := bs\<rparr>) = list_all (\<lambda>b. b) bs"
  by (simp_all add: io_succeeds_def)

lemma io_succeeds_tl [simp]: "io_succeeds fs \<Longrightarrow> list_all (\<lambda>b. b) (tl (io fs))"
  by (simp add: io_succeeds_def list_all_tl)

lemma foldl_append_line:
  "foldl (\<lambda>d s. append_line s d) (Some xs) ys = Some (xs @ ys)"
  by (induction ys arbitrary: xs) (simp_all add: append_line_def)

lemma write_entry_ok:
  assumes "io_succeeds fs"
  shows "\<exists>fs'. write_entry fs n a = (0, fs') \<and> io_succeeds fs' \<and> ent fs'
           \<and> ent_disk fs' = append_line (n @ '' '' @ to_base4_addr a @ [CHR 0x0A])
                               (if ent fs then ent_disk fs else Some [])
           \<and> ext fs' = ext fs \<and> ext_disk fs' = ext_disk fs
           \<and> ob fs' = ob fs \<and> ob_disk fs' = ob_disk fs"
  using assms by (simp add: write_entry_def io_call_ok Let_def list_all_tl)

lemma flush_all_entries_gen:
  assumes "io_succeeds fs"
  shows "\<exists>fs'. flush_all_entries fs labels ic_final e = (fs', e) \<and> io_succeeds fs'
           \<and> ent fs' = (ent fs \<or> filter (\<lambda>l. l_ent_or_ext l = ENTRY) labels \<noteq> [])
           \<and> ent_disk fs' =
               (if filter (\<lambda>l. l_ent_or_ext l = ENTRY) labels = [] then ent_disk fs
                else foldl (\<lambda>d s. append_line s d) (if ent fs then ent_disk fs else Some [])
                       (map (entry_line ic_final) (filter (\<lambda>l. l_ent_or_ext l = ENTRY) labels)))"
  using assms
proof (induction labels arbitrary: fs)
  case Nil
  then show ?case by simp
next
  case (Cons l ls)
  show ?case
  proof (cases "l_ent_or_ext l = ENTRY")
    case False
    from Cons.IH [OF Cons.prems] False show ?thesis by auto
  next
    case True
    let ?a = "if l_data_or_ins l = DATA then ORG_ADDRESS + ic_final + uint (l_address l)
              else ORG_ADDRESS + uint (l_address l)"
    from write_entry_ok [OF Cons.prems, of "l_name l" ?a]
    obtain fs1 where w: "write_entry fs (l_name l) ?a = (0, fs1)" "io_succeeds fs1" "ent fs1"
      "ent_disk fs1 = append_line (l_name l @ '' '' @ to_base4_addr ?a @ [CHR 0x0A])
                        (if ent fs then ent_disk fs else Some [])"
      by blast
    from Cons.IH [OF w(2)] obtain fs' where
      r: "flush_all_entries fs1 ls ic_final e = (fs', e)" "io_succeeds fs'"
         "ent fs' = (ent fs1 \<or> filter (\<lambda>l. l_ent_or_ext l = ENTRY) ls \<noteq> [])"
         "ent_disk fs' =
            (if filter (\<lambda>l. l_ent_or_ext l = ENTRY) ls = [] then ent_disk fs1
             else foldl (\<lambda>d s. append_line s d) (if ent fs1 then ent_disk fs1 else Some [])
                    (map (entry_line ic_final) (filter (\<lambda>l. l_ent_or_ext l = ENTRY) ls)))"
      by blast
    show ?thesis
      using True w r by (simp add: entry_line_def)
  qed
qed

text \<open>
  C7 (as amended). With every file operation succeeding and \<^verbatim>\<open><base>.ent\<close> not yet
  opened, \<^verbatim>\<open>flush_all_entries\<close> leaves the error flag as it was and writes to
  \<^verbatim>\<open><base>.ent\<close> exactly one line per symbol whose linkage is entry, whatever its
  kind (data, instruction or unknown), in symbol-table order; the address is
  \<open>100 + IC_final + offset\<close> for kind data and \<open>100 + offset\<close> for every other kind.
  With no entry symbol the file is not touched.
\<close>

theorem flush_all_entries_lines:
  assumes "io_succeeds fs" and "\<not> ent fs"
  shows "snd (flush_all_entries fs labels ic_final e) = e \<and>
         ent_disk (fst (flush_all_entries fs labels ic_final e)) =
           (if filter (\<lambda>l. l_ent_or_ext l = ENTRY) labels = [] then ent_disk fs
            else Some (map (entry_line ic_final) (filter (\<lambda>l. l_ent_or_ext l = ENTRY) labels)))"
  using flush_all_entries_gen [OF assms(1), of labels ic_final e] assms(2)
  by (auto simp: foldl_append_line)

theorem flush_all_entries_lines_witness:
  "io_succeeds no_files \<and> \<not> ent no_files \<and>
   ent_disk (fst (flush_all_entries no_files
     [\<lparr>l_name = ''A'', l_address = 2, l_data_or_ins = DATA, l_ent_or_ext = ENTRY\<rparr>,
      \<lparr>l_name = ''B'', l_address = 0, l_data_or_ins = INS, l_ent_or_ext = REGULAR\<rparr>,
      \<lparr>l_name = ''C'', l_address = 1, l_data_or_ins = INS, l_ent_or_ext = ENTRY\<rparr>] 3 False))
     = Some [''A bccb\<newline>'', ''C bcbb\<newline>'']"
proof -
  let ?ls = "[\<lparr>l_name = ''A'', l_address = 2, l_data_or_ins = DATA, l_ent_or_ext = ENTRY\<rparr>,
      \<lparr>l_name = ''B'', l_address = 0, l_data_or_ins = INS, l_ent_or_ext = REGULAR\<rparr>,
      \<lparr>l_name = ''C'', l_address = 1, l_data_or_ins = INS, l_ent_or_ext = ENTRY\<rparr>]"
  have h1: "io_succeeds no_files" and h2: "\<not> ent no_files"
    by (simp_all add: no_files_def io_succeeds_def)
  have e: "map (entry_line 3) (filter (\<lambda>l. l_ent_or_ext l = ENTRY) ?ls)
             = [''A bccb\<newline>'', ''C bcbb\<newline>'']"
    by code_simp
  have n: "filter (\<lambda>l. l_ent_or_ext l = ENTRY) ?ls \<noteq> []"
    by simp
  from flush_all_entries_lines [OF h1 h2, of ?ls 3 False] e n h1 h2
  show ?thesis by simp
qed

text \<open>
  The claim as stated fails: a symbol still of kind unknown (an undefined
  \<^verbatim>\<open>.entry K\<close> declared on line 1) is written to \<^verbatim>\<open><base>.ent\<close>, although no
  symbol of the table is both entry and of a known kind.
\<close>

theorem flush_all_entries_unknown_counterexample:
  "ent_disk (fst (flush_all_entries no_files
     [\<lparr>l_name = ''K'', l_address = 1, l_data_or_ins = UNKNOWN_LABEL_TYPE,
       l_ent_or_ext = ENTRY\<rparr>] 0 False)) = Some [''K bcbb\<newline>''] \<and>
   filter (\<lambda>l. l_ent_or_ext l = ENTRY \<and> l_data_or_ins l \<noteq> UNKNOWN_LABEL_TYPE)
     [\<lparr>l_name = ''K'', l_address = 1, l_data_or_ins = UNKNOWN_LABEL_TYPE,
       l_ent_or_ext = ENTRY\<rparr>] = []"
  by (simp add: no_files_def write_entry_def io_call_def append_line_def to_base4_addr_def
      ORG_ADDRESS_def QUAD_DIGITS_def numeral_nat)

subsection \<open>Resolving the pending references\<close>

lemma patched_external_bits: "(((w::int) AND - 1024) OR 1) AND 1023 = 1"
proof -
  have "((w AND - 1024) OR 1) AND 1023 = ((w AND - 1024) AND 1023) OR (1 AND 1023)"
    by (simp only: bit.conj_disj_distrib2)
  also have "(w AND - 1024) AND 1023 = w AND (- 1024 AND 1023)"
    by (simp only: and.assoc)
  also have "- (1024::int) AND 1023 = 0" by simp
  finally show ?thesis by simp
qed

lemma find_label_name: "find_label labels n = Some lab \<Longrightarrow> l_name lab = n"
  by (auto simp: find_label_def find_Some_iff)

lemma io_call_cases:
  "io_call fs = (ok, fs') \<Longrightarrow>
     ob_disk fs' = ob_disk fs \<and> ent_disk fs' = ent_disk fs \<and> ext_disk fs' = ext_disk fs \<and>
     ob fs' = ob fs \<and> ent fs' = ent fs \<and> ext fs' = ext fs \<and> stderr2 fs' = stderr2 fs \<and>
     (io_succeeds fs \<longrightarrow> ok \<and> io_succeeds fs')"
  by (cases "io fs") (auto simp: io_call_def io_succeeds_def)

lemma write_external_cases:
  assumes "write_external fs n a = (rc, fs')"
  shows "ob_disk fs' = ob_disk fs \<and> ent_disk fs' = ent_disk fs \<and> ob fs' = ob fs \<and> ent fs' = ent fs
         \<and> (rc = 0 \<longrightarrow> ext fs' \<and> ext_disk fs' = append_line (n @ '' '' @ to_base4_addr a @ [CHR 0x0A])
                               (if ext fs then ext_disk fs else Some []))
         \<and> (io_succeeds fs \<longrightarrow> rc = 0 \<and> io_succeeds fs')"
proof -
  obtain ok1 f1 where c1: "io_call fs = (ok1, f1)" by (cases "io_call fs")
  obtain ok2 f2 where c2: "io_call f1 = (ok2, f2)" by (cases "io_call f1")
  obtain ok3 f3 where c3: "io_call (f1\<lparr>ext := True, ext_disk := Some []\<rparr>) = (ok3, f3)"
    by (cases "io_call (f1\<lparr>ext := True, ext_disk := Some []\<rparr>)")
  note i1 = io_call_cases [OF c1] and i2 = io_call_cases [OF c2] and i3 = io_call_cases [OF c3]
  show ?thesis
    using assms c1 c2 c3 i1 i2 i3
    by (auto simp: write_external_def Let_def split: if_splits)
qed

lemma patch_frame:
  assumes "patch_word_with_label ins idx lab ic fs e = (rc, ins', fs', e')"
  shows "length ins' = length ins \<and> ob_disk fs' = ob_disk fs \<and> ent_disk fs' = ent_disk fs
         \<and> ob fs' = ob fs \<and> ent fs' = ent fs \<and> (e \<longrightarrow> e')
         \<and> (\<forall>i. i \<noteq> unat idx \<longrightarrow> ins' ! i = ins ! i)
         \<and> (io_succeeds fs \<longrightarrow> rc = 0 \<and> io_succeeds fs')
         \<and> (rc = 0 \<or> rc = 1)
         \<and> (l_ent_or_ext lab \<noteq> EXTERNAL \<longrightarrow> rc = 0 \<and> fs' = fs)"
proof -
  obtain r f where w: "write_external fs (l_name lab) (ORG_ADDRESS + uint idx) = (r, f)"
    by (cases "write_external fs (l_name lab) (ORG_ADDRESS + uint idx)")
  note c = write_external_cases [OF w]
  show ?thesis
    using assms w c
    by (auto simp: patch_word_with_label_def Let_def split: if_splits)
qed

lemma patch_external:
  assumes "patch_word_with_label ins idx lab ic fs e = (0, ins', fs', e')" and "ins \<noteq> []"
    and "l_ent_or_ext lab = EXTERNAL"
  shows "ext fs' \<and> e' = e \<and>
         ext_disk fs' = append_line
           (l_name lab @ '' '' @ to_base4_addr (ORG_ADDRESS + uint idx) @ [CHR 0x0A])
           (if ext fs then ext_disk fs else Some []) \<and>
         (unat idx < length ins \<longrightarrow> (ins' ! unat idx) AND 1023 = 1)"
proof -
  obtain r f where w: "write_external fs (l_name lab) (ORG_ADDRESS + uint idx) = (r, f)"
    by (cases "write_external fs (l_name lab) (ORG_ADDRESS + uint idx)")
  note c = write_external_cases [OF w]
  have m: "push_bit 2 ADDR_VALUE_MASK OR ARE_MASK = (1023::int)"
    by (simp add: ADDR_VALUE_MASK_def ARE_MASK_def)
  show ?thesis
    using assms w c
    by (auto simp: patch_word_with_label_def Let_def m patched_external_bits split: if_splits)
qed

lemma resolve_step:
  assumes "resolve_pending (pen # pens) labels ic ins fs e = (rc, ins', fs', e')"
  shows "(find_label labels (label_p_name pen) = None \<and>
            resolve_pending pens labels ic ins
              (fs\<lparr>stderr2 := stderr2 fs @ [''Error: undefined label '' @ label_p_name pen]\<rparr>) True
              = (rc, ins', fs', e'))
         \<or> (\<exists>lab r i1 f1 e1. find_label labels (label_p_name pen) = Some lab \<and>
               patch_word_with_label ins (ic_index pen) lab ic fs e = (r, i1, f1, e1) \<and>
               (if r \<noteq> 0 then (rc, ins', fs', e') = (r, i1, f1, e1)
                else resolve_pending pens labels ic i1 f1 e1 = (rc, ins', fs', e')))"
  using assms by (auto split: option.splits prod.splits if_splits)

lemma resolve_frame:
  "resolve_pending pends labels ic ins fs e = (rc, ins', fs', e') \<Longrightarrow>
     length ins' = length ins \<and> ob_disk fs' = ob_disk fs \<and> ent_disk fs' = ent_disk fs
     \<and> ob fs' = ob fs \<and> ent fs' = ent fs \<and> (e \<longrightarrow> e')
     \<and> (\<forall>i. i \<notin> set (map (\<lambda>p. unat (ic_index p)) pends) \<longrightarrow> ins' ! i = ins ! i)
     \<and> (io_succeeds fs \<longrightarrow> rc = 0 \<and> io_succeeds fs')
     \<and> (rc = 0 \<or> rc = 1)"
proof (induction pends arbitrary: ins fs e)
  case Nil
  then show ?case by simp
next
  case (Cons pen pens)
  from resolve_step [OF Cons.prems] show ?case
  proof (elim disjE conjE exE)
    assume "resolve_pending pens labels ic ins
              (fs\<lparr>stderr2 := stderr2 fs @ [''Error: undefined label '' @ label_p_name pen]\<rparr>) True
              = (rc, ins', fs', e')"
    from Cons.IH [OF this] show ?thesis by simp
  next
    fix lab r i1 f1 e1
    assume p: "patch_word_with_label ins (ic_index pen) lab ic fs e = (r, i1, f1, e1)"
      and r: "if r \<noteq> 0 then (rc, ins', fs', e') = (r, i1, f1, e1)
              else resolve_pending pens labels ic i1 f1 e1 = (rc, ins', fs', e')"
    note c = patch_frame [OF p]
    show ?thesis
    proof (cases "r = 0")
      case False
      with r c show ?thesis by auto
    next
      case True
      with r have "resolve_pending pens labels ic i1 f1 e1 = (rc, ins', fs', e')" by simp
      from Cons.IH [OF this] c show ?thesis by auto
    qed
  qed
qed

lemma resolve_undefined:
  "resolve_pending pends labels ic ins fs e = (rc, ins', fs', e') \<Longrightarrow> rc = 0 \<Longrightarrow>
     \<exists>p\<in>set pends. find_label labels (label_p_name p) = None \<Longrightarrow> e'"
proof (induction pends arbitrary: ins fs e)
  case Nil
  then show ?case by simp
next
  case (Cons pen pens)
  from resolve_step [OF Cons.prems(1)] show ?case
  proof (elim disjE conjE exE)
    assume "resolve_pending pens labels ic ins
              (fs\<lparr>stderr2 := stderr2 fs @ [''Error: undefined label '' @ label_p_name pen]\<rparr>) True
              = (rc, ins', fs', e')"
    from resolve_frame [OF this] show ?thesis by simp
  next
    fix lab r i1 f1 e1
    assume f: "find_label labels (label_p_name pen) = Some lab"
      and p: "patch_word_with_label ins (ic_index pen) lab ic fs e = (r, i1, f1, e1)"
      and r: "if r \<noteq> 0 then (rc, ins', fs', e') = (r, i1, f1, e1)
              else resolve_pending pens labels ic i1 f1 e1 = (rc, ins', fs', e')"
    from r Cons.prems(2) have z: "r = 0" by (auto split: if_splits)
    with r have rest: "resolve_pending pens labels ic i1 f1 e1 = (rc, ins', fs', e')" by simp
    from Cons.prems(3) f have "\<exists>p\<in>set pens. find_label labels (label_p_name p) = None" by auto
    from Cons.IH [OF rest Cons.prems(2) this] show ?thesis .
  qed
qed

lemma resolve_ext_content:
  "resolve_pending pends labels ic ins fs e = (rc, ins', fs', e') \<Longrightarrow> rc = 0 \<Longrightarrow> ins \<noteq> [] \<Longrightarrow>
     ext fs' = (ext fs \<or> filter (is_external_ref labels) pends \<noteq> []) \<and>
     ext_disk fs' =
       (if filter (is_external_ref labels) pends = [] then ext_disk fs
        else foldl (\<lambda>d s. append_line s d) (if ext fs then ext_disk fs else Some [])
               (map external_line (filter (is_external_ref labels) pends)))"
proof (induction pends arbitrary: ins fs e)
  case Nil
  then show ?case by simp
next
  case (Cons pen pens)
  from resolve_step [OF Cons.prems(1)] show ?case
  proof (elim disjE conjE exE)
    assume n: "find_label labels (label_p_name pen) = None"
      and "resolve_pending pens labels ic ins
              (fs\<lparr>stderr2 := stderr2 fs @ [''Error: undefined label '' @ label_p_name pen]\<rparr>) True
              = (rc, ins', fs', e')"
    from Cons.IH [OF this(2) Cons.prems(2,3)] n show ?thesis
      by (simp add: is_external_ref_def)
  next
    fix lab r i1 f1 e1
    assume f: "find_label labels (label_p_name pen) = Some lab"
      and p: "patch_word_with_label ins (ic_index pen) lab ic fs e = (r, i1, f1, e1)"
      and r: "if r \<noteq> 0 then (rc, ins', fs', e') = (r, i1, f1, e1)
              else resolve_pending pens labels ic i1 f1 e1 = (rc, ins', fs', e')"
    from r Cons.prems(2) have z: "r = 0" by (auto split: if_splits)
    with r have rest: "resolve_pending pens labels ic i1 f1 e1 = (rc, ins', fs', e')" by simp
    note c = patch_frame [OF p]
    from c Cons.prems(3) have ne: "i1 \<noteq> []" by auto
    note ih = Cons.IH [OF rest Cons.prems(2) ne]
    show ?thesis
    proof (cases "l_ent_or_ext lab = EXTERNAL")
      case False
      with c f ih show ?thesis by (simp add: is_external_ref_def)
    next
      case True
      from p z have p0: "patch_word_with_label ins (ic_index pen) lab ic fs e = (0, i1, f1, e1)"
        by simp
      note x = patch_external [OF p0 Cons.prems(3) True]
      from f True have isx: "is_external_ref labels pen" by (simp add: is_external_ref_def)
      from f have nm: "l_name lab = label_p_name pen" by (rule find_label_name)
      show ?thesis using ih x isx nm by (simp add: external_line_def)
    qed
  qed
qed

lemma resolve_words:
  "resolve_pending pends labels ic ins fs e = (rc, ins', fs', e') \<Longrightarrow> rc = 0 \<Longrightarrow> ins \<noteq> [] \<Longrightarrow>
     distinct (map ic_index pends) \<Longrightarrow> p \<in> set pends \<Longrightarrow> is_external_ref labels p \<Longrightarrow>
     unat (ic_index p) < length ins \<Longrightarrow> (ins' ! unat (ic_index p)) AND 1023 = 1"
proof (induction pends arbitrary: ins fs e)
  case Nil
  then show ?case by simp
next
  case (Cons pen pens)
  from resolve_step [OF Cons.prems(1)] show ?case
  proof (elim disjE conjE exE)
    assume n: "find_label labels (label_p_name pen) = None"
      and rest: "resolve_pending pens labels ic ins
              (fs\<lparr>stderr2 := stderr2 fs @ [''Error: undefined label '' @ label_p_name pen]\<rparr>) True
              = (rc, ins', fs', e')"
    from n Cons.prems(5,6) have "p \<in> set pens" by (auto simp: is_external_ref_def)
    from Cons.IH [OF rest Cons.prems(2,3) _ this Cons.prems(6,7)] Cons.prems(4)
    show ?thesis by simp
  next
    fix lab r i1 f1 e1
    assume f: "find_label labels (label_p_name pen) = Some lab"
      and p: "patch_word_with_label ins (ic_index pen) lab ic fs e = (r, i1, f1, e1)"
      and r: "if r \<noteq> 0 then (rc, ins', fs', e') = (r, i1, f1, e1)
              else resolve_pending pens labels ic i1 f1 e1 = (rc, ins', fs', e')"
    from r Cons.prems(2) have z: "r = 0" by (auto split: if_splits)
    with r have rest: "resolve_pending pens labels ic i1 f1 e1 = (rc, ins', fs', e')" by simp
    note c = patch_frame [OF p]
    from c Cons.prems(3) have ne: "i1 \<noteq> []" by auto
    from c have len: "length i1 = length ins" by simp
    show ?thesis
    proof (cases "p \<in> set pens")
      case True
      from Cons.IH [OF rest Cons.prems(2) ne _ True Cons.prems(6)] Cons.prems(4,7) len
      show ?thesis by simp
    next
      case False
      with Cons.prems(5) have pp: "p = pen" by simp
      with Cons.prems(6) f have x: "l_ent_or_ext lab = EXTERNAL"
        by (simp add: is_external_ref_def)
      from p z have p0: "patch_word_with_label ins (ic_index pen) lab ic fs e = (0, i1, f1, e1)"
        by simp
      from patch_external [OF p0 Cons.prems(3) x] Cons.prems(7) pp
      have w: "(i1 ! unat (ic_index pen)) AND 1023 = 1" by simp
      from Cons.prems(4) have "ic_index pen \<notin> set (map ic_index pens)" by simp
      then have "unat (ic_index pen) \<notin> set (map (\<lambda>q. unat (ic_index q)) pens)"
        by (auto simp: word_unat_eq_iff)
      with resolve_frame [OF rest] have "ins' ! unat (ic_index pen) = i1 ! unat (ic_index pen)"
        by blast
      with w pp show ?thesis by simp
    qed
  qed
qed

text \<open>
  C6. With every file operation succeeding, \<^verbatim>\<open><base>.ext\<close> not yet opened and
  every pending reference pointing at a word of its own inside the instruction
  image, the resolution loop of \<^verbatim>\<open>second_pass\<close> returns 0; it leaves in
  \<^verbatim>\<open><base>.ext\<close> one line \<^verbatim>\<open><name> <addr>\<close> per reference whose name resolves to
  an external symbol, in the order of the pending list, \<^verbatim>\<open><addr>\<close> being the four
  base-4 digits of \<open>100 + ic_index\<close>; the file is opened only if there is such a
  reference (otherwise it is left as it was); and each such reference's word ends
  with its low ten bits equal to 1: value 0 in bits 9..2 and ARE = 01.
\<close>

theorem resolve_pending_external:
  assumes "io_succeeds fs" and "\<not> ext fs" and "ins \<noteq> []"
    and "distinct (map ic_index pends)"
    and "\<forall>p\<in>set pends. unat (ic_index p) < length ins"
  shows "\<exists>ins' fs' e'.
           resolve_pending pends labels ic ins fs e = (0, ins', fs', e') \<and>
           ext fs' = (filter (is_external_ref labels) pends \<noteq> []) \<and>
           ext_disk fs' =
             (if filter (is_external_ref labels) pends = [] then ext_disk fs
              else Some (map external_line (filter (is_external_ref labels) pends))) \<and>
           (\<forall>p\<in>set pends. is_external_ref labels p \<longrightarrow>
                (ins' ! unat (ic_index p)) AND 1023 = 1)"
proof -
  obtain rc ins' fs' e' where r: "resolve_pending pends labels ic ins fs e = (rc, ins', fs', e')"
    by (cases "resolve_pending pends labels ic ins fs e") auto
  from resolve_frame [OF r] assms(1) have z: "rc = 0" by simp
  from resolve_ext_content [OF r z assms(3)] assms(2)
  have c: "ext fs' = (filter (is_external_ref labels) pends \<noteq> [])"
    "ext_disk fs' =
       (if filter (is_external_ref labels) pends = [] then ext_disk fs
        else Some (map external_line (filter (is_external_ref labels) pends)))"
    by (simp_all add: foldl_append_line)
  have w: "\<forall>p\<in>set pends. is_external_ref labels p \<longrightarrow> (ins' ! unat (ic_index p)) AND 1023 = 1"
    using resolve_words [OF r z assms(3,4)] assms(5) by blast
  from r z c w show ?thesis by blast
qed

theorem resolve_pending_external_witness:
  "io_succeeds no_files \<and> \<not> ext no_files \<and>
   resolve_pending
     [\<lparr>label_p_name = ''X'', ic_index = 1, line_number_use = 2\<rparr>,
      \<lparr>label_p_name = ''L'', ic_index = 3, line_number_use = 3\<rparr>,
      \<lparr>label_p_name = ''X'', ic_index = 5, line_number_use = 4\<rparr>]
     [\<lparr>l_name = ''X'', l_address = 0, l_data_or_ins = INS, l_ent_or_ext = EXTERNAL\<rparr>,
      \<lparr>l_name = ''L'', l_address = 2, l_data_or_ins = INS, l_ent_or_ext = REGULAR\<rparr>]
     6 [576, 0, 576, 0, 576, 0] no_files False
   = (0, [576, 1, 576, 410, 576, 1],
      no_files\<lparr>ext := True, ext_disk := Some [''X bcbb\<newline>'', ''X bccb\<newline>'']\<rparr>, False)"
proof -
  let ?pends = "[\<lparr>label_p_name = ''X'', ic_index = 1, line_number_use = 2\<rparr>,
      \<lparr>label_p_name = ''L'', ic_index = 3, line_number_use = 3\<rparr>,
      \<lparr>label_p_name = ''X'', ic_index = 5, line_number_use = 4\<rparr>]"
  let ?labels = "[\<lparr>l_name = ''X'', l_address = 0, l_data_or_ins = INS, l_ent_or_ext = EXTERNAL\<rparr>,
      \<lparr>l_name = ''L'', l_address = 2, l_data_or_ins = INS, l_ent_or_ext = REGULAR\<rparr>]"
  let ?ins = "[576, 0, 576, 0, 576, 0] :: int list"
  have h1: "io_succeeds no_files" and h2: "\<not> ext no_files"
    by (simp_all add: no_files_def io_succeeds_def)
  have h3: "?ins \<noteq> []" by simp
  have h4: "distinct (map ic_index ?pends)" by simp
  have h5: "\<forall>p\<in>set ?pends. unat (ic_index p) < length ?ins" by simp
  have run: "resolve_pending ?pends ?labels 6 ?ins no_files False
     = (0, [576, 1, 576, 410, 576, 1],
      no_files\<lparr>ext := True, ext_disk := Some [''X bcbb\<newline>'', ''X bccb\<newline>'']\<rparr>, False)"
    by code_simp
  from resolve_pending_external [OF h1 h2 h3 h4 h5, of ?labels 6 False] run h1 h2
  show ?thesis by simp
qed

subsection \<open>The output policy of second_pass\<close>

lemma write_entry_cases:
  assumes "write_entry fs n a = (rc, fs')"
  shows "ob_disk fs' = ob_disk fs \<and> ext_disk fs' = ext_disk fs \<and> ob fs' = ob fs \<and> ext fs' = ext fs
         \<and> (rc = 0 \<longrightarrow> ent fs' \<and> ent_disk fs' = append_line (n @ '' '' @ to_base4_addr a @ [CHR 0x0A])
                               (if ent fs then ent_disk fs else Some []))"
proof -
  obtain ok1 f1 where c1: "io_call fs = (ok1, f1)" by (cases "io_call fs")
  obtain ok2 f2 where c2: "io_call f1 = (ok2, f2)" by (cases "io_call f1")
  obtain ok3 f3 where c3: "io_call (f1\<lparr>ent := True, ent_disk := Some []\<rparr>) = (ok3, f3)"
    by (cases "io_call (f1\<lparr>ent := True, ent_disk := Some []\<rparr>)")
  note i1 = io_call_cases [OF c1] and i2 = io_call_cases [OF c2] and i3 = io_call_cases [OF c3]
  show ?thesis
    using assms c1 c2 c3 i1 i2 i3
    by (auto simp: write_entry_def Let_def split: if_splits)
qed

lemma flush_frame:
  "flush_all_entries fs labels ic e = (fs', e') \<Longrightarrow>
     ob_disk fs' = ob_disk fs \<and> ext_disk fs' = ext_disk fs \<and> ob fs' = ob fs \<and> ext fs' = ext fs
     \<and> (e \<longrightarrow> e')
     \<and> (\<not> e' \<longrightarrow>
          ent fs' = (ent fs \<or> filter (\<lambda>l. l_ent_or_ext l = ENTRY) labels \<noteq> []) \<and>
          ent_disk fs' =
            (if filter (\<lambda>l. l_ent_or_ext l = ENTRY) labels = [] then ent_disk fs
             else foldl (\<lambda>d s. append_line s d) (if ent fs then ent_disk fs else Some [])
                    (map (entry_line ic) (filter (\<lambda>l. l_ent_or_ext l = ENTRY) labels))))"
proof (induction labels arbitrary: fs e)
  case Nil
  then show ?case by simp
next
  case (Cons l ls)
  show ?case
  proof (cases "l_ent_or_ext l = ENTRY")
    case False
    with Cons.prems have "flush_all_entries fs ls ic e = (fs', e')" by simp
    from Cons.IH [OF this] False show ?thesis by simp
  next
    case True
    let ?a = "if l_data_or_ins l = DATA then ORG_ADDRESS + ic + uint (l_address l)
              else ORG_ADDRESS + uint (l_address l)"
    obtain r f1 where w: "write_entry fs (l_name l) ?a = (r, f1)"
      by (cases "write_entry fs (l_name l) ?a")
    note c = write_entry_cases [OF w]
    from Cons.prems True w
    have rest: "flush_all_entries f1 ls ic (if r \<noteq> 0 then True else e) = (fs', e')"
      by (simp add: Let_def)
    note ih = Cons.IH [OF rest]
    show ?thesis
    proof (cases "r = 0")
      case False
      with ih c show ?thesis by auto
    next
      case z: True
      with ih c True show ?thesis by (simp add: entry_line_def)
    qed
  qed
qed

lemma write_word_frame:
  "ent_disk (write_word_to_ob fs a w) = ent_disk fs \<and> ext_disk (write_word_to_ob fs a w) = ext_disk fs
   \<and> ent (write_word_to_ob fs a w) = ent fs \<and> ext (write_word_to_ob fs a w) = ext fs
   \<and> ob (write_word_to_ob fs a w) = ob fs
   \<and> (ob_disk fs \<noteq> None \<longrightarrow> ob_disk (write_word_to_ob fs a w) \<noteq> None)"
proof -
  obtain ok f1 where c: "io_call fs = (ok, f1)" by (cases "io_call fs")
  from io_call_cases [OF c] c show ?thesis
    by (auto simp: write_word_to_ob_def append_line_def)
qed

lemma emit_words_frame:
  "ent_disk (emit_words fs a n ws) = ent_disk fs \<and> ext_disk (emit_words fs a n ws) = ext_disk fs
   \<and> ent (emit_words fs a n ws) = ent fs \<and> ext (emit_words fs a n ws) = ext fs
   \<and> ob (emit_words fs a n ws) = ob fs
   \<and> (ob_disk fs \<noteq> None \<longrightarrow> ob_disk (emit_words fs a n ws) \<noteq> None)"
proof -
  have "\<And>fs. ent_disk (foldl (\<lambda>f i. write_word_to_ob f (a + int i) (ws ! i)) fs is) = ent_disk fs
        \<and> ext_disk (foldl (\<lambda>f i. write_word_to_ob f (a + int i) (ws ! i)) fs is) = ext_disk fs
        \<and> ent (foldl (\<lambda>f i. write_word_to_ob f (a + int i) (ws ! i)) fs is) = ent fs
        \<and> ext (foldl (\<lambda>f i. write_word_to_ob f (a + int i) (ws ! i)) fs is) = ext fs
        \<and> ob (foldl (\<lambda>f i. write_word_to_ob f (a + int i) (ws ! i)) fs is) = ob fs
        \<and> (ob_disk fs \<noteq> None \<longrightarrow>
             ob_disk (foldl (\<lambda>f i. write_word_to_ob f (a + int i) (ws ! i)) fs is) \<noteq> None)"
    for "is" :: "nat list"
  proof (induction "is")
    case Nil
    show ?case by simp
  next
    case (Cons i "is")
    from Cons [of "write_word_to_ob fs (a + int i) (ws ! i)"]
      write_word_frame [of fs "a + int i" "ws ! i"]
    show ?case by simp
  qed
  then show ?thesis unfolding emit_words_def by blast
qed

lemma open_outputs_cases:
  assumes "open_outputs fs = (rc, fs')"
  shows "(rc = 0 \<or> rc = 1) \<and> \<not> ent fs' \<and> \<not> ext fs' \<and> ent_disk fs' = ent_disk fs
         \<and> ext_disk fs' = ext_disk fs \<and> (rc = 0 \<longrightarrow> ob fs' \<and> ob_disk fs' = Some [])"
proof -
  obtain ok f1 where c: "io_call (fs\<lparr>ent := False, ext := False\<rparr>) = (ok, f1)"
    by (cases "io_call (fs\<lparr>ent := False, ext := False\<rparr>)")
  from io_call_cases [OF c] c assms show ?thesis
    by (auto simp: open_outputs_def Let_def split: if_splits)
qed

text \<open>
  C1. \<^verbatim>\<open>second_pass\<close> returns 0 or \<^verbatim>\<open>FATAL_ERROR\<close>. When it returns 0 and a
  non-fatal error was recorded, in Pass 1 (\<^verbatim>\<open>*p_error\<close> non-zero on entry) or in
  this pass (\<^verbatim>\<open>had_error\<close>, which an undefined label sets), none of the three output
  files exists afterwards, all handles are closed and \<^verbatim>\<open>*p_error\<close> is 1. When it
  returns 0 and no error was recorded, \<^verbatim>\<open>*p_error\<close> stays 0, all handles are
  closed, \<^verbatim>\<open><base>.ob\<close> exists, and \<^verbatim>\<open><base>.ent\<close> and \<^verbatim>\<open><base>.ext\<close> hold the
  lines written for the entry symbols and the external references. On a fatal I/O
  error the three files are removed as well and \<^verbatim>\<open>*p_error\<close> is left as passed in.
\<close>

theorem second_pass_outputs:
  assumes "second_pass ins ic ds dc labels pends p_error fs = (rc, p_error', ins', fs', had_error)"
  shows "(rc = 0 \<or> rc = FATAL_ERROR) \<and>
         (rc = FATAL_ERROR \<longrightarrow>
            ob_disk fs' = None \<and> ent_disk fs' = None \<and> ext_disk fs' = None \<and> p_error' = p_error) \<and>
         (rc = 0 \<and> (had_error \<or> p_error \<noteq> 0) \<longrightarrow>
            ob_disk fs' = None \<and> ent_disk fs' = None \<and> ext_disk fs' = None \<and> p_error' = 1 \<and>
            \<not> ob fs' \<and> \<not> ent fs' \<and> \<not> ext fs') \<and>
         (rc = 0 \<and> \<not> had_error \<and> p_error = 0 \<longrightarrow>
            p_error' = 0 \<and> \<not> ob fs' \<and> \<not> ent fs' \<and> \<not> ext fs' \<and> ob_disk fs' \<noteq> None \<and>
            (filter (\<lambda>l. l_ent_or_ext l = ENTRY) labels \<noteq> [] \<longrightarrow>
               ent_disk fs' = Some (map (entry_line ic) (filter (\<lambda>l. l_ent_or_ext l = ENTRY) labels))) \<and>
            (ins \<noteq> [] \<and> filter (is_external_ref labels) pends \<noteq> [] \<longrightarrow>
               ext_disk fs' = Some (map external_line (filter (is_external_ref labels) pends)))) \<and>
         (rc = 0 \<and> (\<exists>p\<in>set pends. find_label labels (label_p_name p) = None) \<longrightarrow> had_error)"
proof -
  obtain rc0 fs1 where o: "open_outputs fs = (rc0, fs1)" by (cases "open_outputs fs")
  note oc = open_outputs_cases [OF o]
  show ?thesis
  proof (cases "rc0 = 0")
    case False
    with assms o show ?thesis
      by (auto simp: second_pass_def remove_outputs_def FATAL_ERROR_def)
  next
    case z0: True
    obtain ok fs2 where h: "io_call fs1 = (ok, fs2)" by (cases "io_call fs1")
    note hc = io_call_cases [OF h]
    show ?thesis
    proof (cases ok)
      case False
      with assms o z0 h show ?thesis
        by (auto simp: second_pass_def remove_outputs_def close_outputs_def FATAL_ERROR_def)
    next
      case okh: True
      define fs3 where "fs3 = fs2\<lparr>ob_disk := append_line
                                ('' '' @ to_base4_addr ic @ '' '' @ to_base4_addr dc
                                   @ [CHR 0x0A]) (ob_disk fs2)\<rparr>"
      obtain r i1 fs4 he where
        rp: "resolve_pending pends labels ic ins fs3 False = (r, i1, fs4, he)"
        by (cases "resolve_pending pends labels ic ins fs3 False") auto
      note rf = resolve_frame [OF rp]
      have f3: "ob_disk fs3 \<noteq> None" "\<not> ent fs3" "\<not> ext fs3" "ob fs3"
        using oc hc z0 by (simp_all add: fs3_def append_line_def)
      show ?thesis
      proof (cases "r = 0")
        case False
        with assms o z0 h okh rp show ?thesis
          by (auto simp: second_pass_def Let_def fs3_def remove_outputs_def close_outputs_def
              FATAL_ERROR_def)
      next
        case zr: True
        define fs5 where "fs5 = emit_words fs4 ORG_ADDRESS ic i1"
        define fs6 where "fs6 = emit_words fs5 (ORG_ADDRESS + ic) dc ds"
        obtain fs7 he2 where fl: "flush_all_entries fs6 labels ic he = (fs7, he2)"
          by (cases "flush_all_entries fs6 labels ic he")
        note ff = flush_frame [OF fl]
        note e5 = emit_words_frame [of fs4 ORG_ADDRESS ic i1, folded fs5_def]
        note e6 = emit_words_frame [of fs5 "ORG_ADDRESS + ic" dc ds, folded fs6_def]
        have res: "(rc, p_error', ins', fs', had_error) =
            (if he2 \<or> p_error \<noteq> 0 then (0, 1, i1, remove_outputs (close_outputs fs7), he2)
             else (0, p_error, i1, close_outputs fs7, he2))"
          using assms o z0 h okh rp zr fl
          by (simp add: second_pass_def Let_def fs3_def fs5_def fs6_def)
        have ob7: "ob_disk fs7 \<noteq> None"
          using ff e6 e5 rf f3 by simp
        have und: "(\<exists>p\<in>set pends. find_label labels (label_p_name p) = None) \<longrightarrow> he2"
          using resolve_undefined [OF rp zr] ff by blast
        have entc: "\<not> he2 \<longrightarrow> filter (\<lambda>l. l_ent_or_ext l = ENTRY) labels \<noteq> [] \<longrightarrow>
               ent_disk fs7 = Some (map (entry_line ic) (filter (\<lambda>l. l_ent_or_ext l = ENTRY) labels))"
          using ff e6 e5 rf f3 by (simp add: foldl_append_line)
        have extc: "ins \<noteq> [] \<longrightarrow> filter (is_external_ref labels) pends \<noteq> [] \<longrightarrow>
               ext_disk fs7 = Some (map external_line (filter (is_external_ref labels) pends))"
        proof (intro impI)
          assume ne: "ins \<noteq> []" and x: "filter (is_external_ref labels) pends \<noteq> []"
          from resolve_ext_content [OF rp zr ne] x f3
          have "ext_disk fs4 = Some (map external_line (filter (is_external_ref labels) pends))"
            by (simp add: foldl_append_line)
          with ff e6 e5 show "ext_disk fs7 = Some (map external_line (filter (is_external_ref labels) pends))"
            by simp
        qed
        show ?thesis
          using res ob7 und entc extc
          by (auto simp: remove_outputs_def close_outputs_def FATAL_ERROR_def split: if_splits)
      qed
    qed
  qed
qed


theorem second_pass_outputs_witness:
  "second_pass [576, 0] 2 [5] 1
     [\<lparr>l_name = ''X'', l_address = 0, l_data_or_ins = INS, l_ent_or_ext = EXTERNAL\<rparr>,
      \<lparr>l_name = ''D'', l_address = 0, l_data_or_ins = DATA, l_ent_or_ext = ENTRY\<rparr>]
     [\<lparr>label_p_name = ''X'', ic_index = 1, line_number_use = 2\<rparr>] 0 no_files
   = (0, 0, [576, 1],
      no_files\<lparr>ob_disk := Some ['' aaac aaab\<newline>'',
                                  ''bcba'' @ [CHR 0x09] @ ''cbaaa\<newline>'',
                                  ''bcbb'' @ [CHR 0x09] @ ''aaaab\<newline>'',
                                  ''bcbc'' @ [CHR 0x09] @ ''aaabb\<newline>''],
               ent_disk := Some [''D bcbc\<newline>''],
               ext_disk := Some [''X bcbb\<newline>'']\<rparr>, False) \<and>
   second_pass [576, 0] 2 [5] 1
     [\<lparr>l_name = ''D'', l_address = 0, l_data_or_ins = DATA, l_ent_or_ext = ENTRY\<rparr>]
     [\<lparr>label_p_name = ''X'', ic_index = 1, line_number_use = 2\<rparr>] 0 no_files
   = (0, 1, [576, 0], no_files\<lparr>stderr2 := [''Error: undefined label X'']\<rparr>, True)"
proof -
  have run1: "second_pass [576, 0] 2 [5] 1
     [\<lparr>l_name = ''X'', l_address = 0, l_data_or_ins = INS, l_ent_or_ext = EXTERNAL\<rparr>,
      \<lparr>l_name = ''D'', l_address = 0, l_data_or_ins = DATA, l_ent_or_ext = ENTRY\<rparr>]
     [\<lparr>label_p_name = ''X'', ic_index = 1, line_number_use = 2\<rparr>] 0 no_files
   = (0, 0, [576, 1],
      no_files\<lparr>ob_disk := Some ['' aaac aaab\<newline>'',
                                  ''bcba'' @ [CHR 0x09] @ ''cbaaa\<newline>'',
                                  ''bcbb'' @ [CHR 0x09] @ ''aaaab\<newline>'',
                                  ''bcbc'' @ [CHR 0x09] @ ''aaabb\<newline>''],
               ent_disk := Some [''D bcbc\<newline>''],
               ext_disk := Some [''X bcbb\<newline>'']\<rparr>, False)"
    by code_simp
  have run2: "second_pass [576, 0] 2 [5] 1
     [\<lparr>l_name = ''D'', l_address = 0, l_data_or_ins = DATA, l_ent_or_ext = ENTRY\<rparr>]
     [\<lparr>label_p_name = ''X'', ic_index = 1, line_number_use = 2\<rparr>] 0 no_files
   = (0, 1, [576, 0], no_files\<lparr>stderr2 := [''Error: undefined label X'']\<rparr>, True)"
    by code_simp
  from second_pass_outputs [OF run1] second_pass_outputs [OF run2] run1 run2
  show ?thesis by simp
qed

section \<open>First pass (first_pass_utils.c, data_handling.c, instruction_handling.c, first_pass.c)\<close>

subsection \<open>C strings and the character classes of ctype.h\<close>

text \<open>
  A C string is modelled by the list of its characters before the terminating
  NUL; \<open>deref s\<close> is \<^verbatim>\<open>*s\<close>, the first character or NUL at the end of the
  string. The classes are those of the C locale.
\<close>

definition deref :: "string \<Rightarrow> char" where
  "deref s = (case s of [] \<Rightarrow> CHR 0x00 | c # _ \<Rightarrow> c)"

definition isspace :: "char \<Rightarrow> bool" where
  "isspace c = (c = CHR '' '' \<or> c = CHR 0x09 \<or> c = CHR 0x0A \<or> c = CHR 0x0B
                \<or> c = CHR 0x0C \<or> c = CHR 0x0D)"

definition isalpha :: "char \<Rightarrow> bool" where
  "isalpha c = (let n = (of_char c :: nat) in (65 \<le> n \<and> n \<le> 90) \<or> (97 \<le> n \<and> n \<le> 122))"

definition isdigit :: "char \<Rightarrow> bool" where
  "isdigit c = (let n = (of_char c :: nat) in 48 \<le> n \<and> n \<le> 57)"

definition delete_white :: "string \<Rightarrow> string" where
  "delete_white str = dropWhile isspace str"

definition copy_first_word :: "string \<Rightarrow> nat \<Rightarrow> string" where
  "copy_first_word sentence max_len = take (max_len - 1) (takeWhile (\<lambda>c. \<not> isspace c) sentence)"

definition there_is_colon :: "string \<Rightarrow> bool" where
  "there_is_colon line_p = list_ex (\<lambda>c. c = CHR '':'') (takeWhile (\<lambda>c. \<not> isspace c) line_p)"

text \<open>
  \<^verbatim>\<open>strtok\<close> keeps the rest of the string it cuts in a static pointer of the C
  library. The model passes that pointer explicitly: \<open>strtok delims sv\<close> is the
  call \<^verbatim>\<open>strtok(NULL, delims)\<close> with saved pointer \<open>sv\<close>, and the first call
  \<^verbatim>\<open>strtok(line_p, delims)\<close> is \<open>strtok delims line_p\<close>. It returns the token
  (\<open>None\<close> for \<^verbatim>\<open>NULL\<close>) and the new saved pointer.
\<close>

definition strtok :: "string \<Rightarrow> string \<Rightarrow> string option \<times> string" where
  "strtok delims sv =
     (let s1 = dropWhile (\<lambda>c. c \<in> set delims) sv
      in if s1 = [] then (None, [])
         else (Some (takeWhile (\<lambda>c. c \<notin> set delims) s1),
               drop 1 (dropWhile (\<lambda>c. c \<notin> set delims) s1)))"

definition delims_ws :: string where
  "delims_ws = [CHR '' '', CHR 0x09, CHR 0x0A]"

definition delims_comma_ws :: string where
  "delims_comma_ws = [CHR '','', CHR '' '', CHR 0x09, CHR 0x0A]"

text \<open>
  \<^verbatim>\<open>strtol(s, &ptr, 10)\<close>: the value and the rest of the string at \<^verbatim>\<open>ptr\<close>. With no
  digit to convert the value is 0 and \<^verbatim>\<open>ptr\<close> is \<^verbatim>\<open>s\<close> itself. The limits are those
  of \<^verbatim>\<open>limits.h\<close> on an LP64 platform (32-bit \<^verbatim>\<open>int\<close>, 64-bit \<^verbatim>\<open>long\<close>); a
  conversion of \<^verbatim>\<open>long\<close> to \<^verbatim>\<open>int\<close> and an \<^verbatim>\<open>int\<close> product keep the low 32 bits.
\<close>

definition INT_MAX :: int where
  "INT_MAX = 2147483647"

definition INT_MIN :: int where
  "INT_MIN = - 2147483648"

definition LONG_MAX :: int where
  "LONG_MAX = 9223372036854775807"

definition LONG_MIN :: int where
  "LONG_MIN = - 9223372036854775808"

definition to_int32 :: "int \<Rightarrow> int" where
  "to_int32 x = (x + 2147483648) mod 4294967296 - 2147483648"

definition digits_value :: "string \<Rightarrow> int" where
  "digits_value ds = foldl (\<lambda>a c. 10 * a + (of_char c - 48)) 0 ds"

definition strtol :: "string \<Rightarrow> int \<times> string" where
  "strtol s =
     (let s1 = dropWhile isspace s;
          neg = (deref s1 = CHR ''-'');
          s2 = (if deref s1 = CHR ''-'' \<or> deref s1 = CHR ''+'' then tl s1 else s1);
          ds = takeWhile isdigit s2
      in if ds = [] then (0, s)
         else (max LONG_MIN (min LONG_MAX ((if neg then - 1 else 1) * digits_value ds)),
               dropWhile isdigit s2))"

definition atoi :: "string \<Rightarrow> int" where
  "atoi s = to_int32 (fst (strtol s))"

subsection \<open>The state of the first pass\<close>

text \<open>
  The globals \<^verbatim>\<open>error\<close>, \<^verbatim>\<open>dc\<close>, \<^verbatim>\<open>ic\<close>, \<^verbatim>\<open>line_count\<close>, \<^verbatim>\<open>was_reg\<close>, the four
  tables that \<^verbatim>\<open>first_pass\<close> owns, and its locals \<^verbatim>\<open>label_flag\<close> and \<^verbatim>\<open>label\<close>,
  which keep their values from one line to the next. \<open>stderr1\<close> collects the calls
  of \<^verbatim>\<open>report_error_pass\<close>: line number and message (the file name is the same in
  all of them). Each array has as many cells as its counter says (\<^verbatim>\<open>realloc\<close> to
  \<^verbatim>\<open>dc\<close>, \<^verbatim>\<open>ic\<close>, \<^verbatim>\<open>*lc\<close>, \<^verbatim>\<open>*pend_count\<close> cells, then a write to the last one), so
  appending to the list is the write; the two counts \<^verbatim>\<open>*lc\<close> and \<^verbatim>\<open>*pend_count\<close>
  are the lengths of their lists.
\<close>

record pass1 =
  error :: bool
  dc :: int
  ic :: int
  line_count :: int
  was_reg :: bool
  dataset :: "int list"
  ins_set :: "int list"
  label_set :: "Label list"
  pending_refs :: "Pending list"
  label_flag :: bool
  label :: string
  stderr1 :: "(int \<times> string) list"

definition report_error_pass :: "pass1 \<Rightarrow> int \<Rightarrow> string \<Rightarrow> pass1" where
  "report_error_pass st line_num msg = st\<lparr>stderr1 := stderr1 st @ [(line_num, msg)]\<rparr>"

definition input_error :: "pass1 \<Rightarrow> string \<Rightarrow> pass1" where
  \<comment> \<open>\<^verbatim>\<open>error = TRUE; report_error_pass(am_file_name, line_count, msg);\<close>\<close>
  "input_error st msg = report_error_pass (st\<lparr>error := True\<rparr>) (line_count st) msg"

definition MEM_AVAIL_WORDS :: int where
  "MEM_AVAIL_WORDS = 156"

definition WORD_LEN :: nat where
  "WORD_LEN = 30"

definition CMD_LEN :: nat where
  "CMD_LEN = 6"

definition add_data :: "pass1 \<Rightarrow> int \<Rightarrow> int \<times> pass1" where
  "add_data st word =
     (if dc st + ic st = MEM_AVAIL_WORDS
      then (FATAL_ERROR, input_error st ''There are no free cells in memory'')
      else (0, st\<lparr>dc := dc st + 1, dataset := dataset st @ [word]\<rparr>))"

definition add_ins :: "pass1 \<Rightarrow> int \<Rightarrow> int \<times> pass1" where
  "add_ins st word =
     (if dc st + ic st = MEM_AVAIL_WORDS
      then (FATAL_ERROR, input_error st ''There are no free cells in memory'')
      else (0, st\<lparr>ic := ic st + 1, ins_set := ins_set st @ [word]\<rparr>))"

definition add_pending_refs :: "pass1 \<Rightarrow> int \<Rightarrow> int \<Rightarrow> string \<Rightarrow> int \<times> pass1" where
  "add_pending_refs st ic_now line_num label_name =
     (0, st\<lparr>pending_refs := pending_refs st @
              [\<lparr>label_p_name = label_name, ic_index = word_of_int (ic_now - 1),
                line_number_use = line_num\<rparr>]\<rparr>)"

definition is_label_name :: "string \<Rightarrow> Label list \<Rightarrow> bool" where
  "is_label_name lab labels = list_ex (\<lambda>l. l_name l = lab) labels"

text \<open>
  The loop of \<^verbatim>\<open>add_label\<close> over the table: the first slot whose kind is unknown
  gets the kind and the address; \<open>None\<close> when the table has no such slot.
\<close>

fun finalize_unknown :: "kind \<Rightarrow> int \<Rightarrow> int \<Rightarrow> Label list \<Rightarrow> Label list option" where
  "finalize_unknown data_or_ins dc_now ic_now [] = None"
| "finalize_unknown data_or_ins dc_now ic_now (l # ls) =
     (if l_data_or_ins l = UNKNOWN_LABEL_TYPE
      then Some (l\<lparr>l_data_or_ins := data_or_ins,
                   l_address := (if data_or_ins = DATA then word_of_int dc_now
                                 else if data_or_ins = INS then word_of_int ic_now
                                 else l_address l)\<rparr> # ls)
      else map_option (\<lambda>ls'. l # ls') (finalize_unknown data_or_ins dc_now ic_now ls))"

definition add_label :: "pass1 \<Rightarrow> string \<Rightarrow> kind \<Rightarrow> linkage \<Rightarrow> int \<times> pass1" where
  "add_label st name data_or_ins ent_or_ext =
     (case (if is_label_name name (label_set st)
            then finalize_unknown data_or_ins (dc st) (ic st) (label_set st) else None) of
        Some labels' \<Rightarrow> (0, st\<lparr>label_set := labels'\<rparr>)
      | None \<Rightarrow>
          (0, st\<lparr>label_set := label_set st @
                  [\<lparr>l_name = name,
                    l_address = (if ent_or_ext = EXTERNAL then 0
                                 else if data_or_ins = UNKNOWN_LABEL_TYPE
                                      then word_of_int (line_count st)
                                 else if data_or_ins = DATA then word_of_int (dc st)
                                 else word_of_int (ic st)),
                    l_data_or_ins = data_or_ins,
                    l_ent_or_ext = ent_or_ext\<rparr>]\<rparr>))"

definition is_reg_name :: "string \<Rightarrow> bool" where
  "is_reg_name lab = (lab \<in> set [''r0'', ''r1'', ''r2'', ''r3'', ''r4'', ''r5'', ''r6'', ''r7''])"

definition is_reserved_word :: "string \<Rightarrow> bool" where
  "is_reserved_word w =
     (w \<in> set [''mov'', ''cmp'', ''add'', ''sub'', ''not'', ''clr'', ''lea'',
               ''inc'', ''dec'', ''jmp'', ''bne'', ''red'', ''prn'', ''jsr'',
               ''rts'', ''stop'', ''mcro'', ''mcroend'',
               ''data'', ''string'', ''mat'', ''extern'', ''entry''])"

subsection \<open>The macro table, as the first pass sees it\<close>

text \<open>
  \<^verbatim>\<open>MacroTable\<close> is an array of pointers to \<^verbatim>\<open>Macro\<close>; \<^verbatim>\<open>mcro_exec\<close> can store a
  null pointer in it, written \<open>None\<close>. The fields \<^verbatim>\<open>name\<close> and \<^verbatim>\<open>lines\<close> of the
  struct are \<open>m_name\<close> and \<open>m_lines\<close>; \<^verbatim>\<open>line_count\<close> is the length of \<open>m_lines\<close>.
  \<^verbatim>\<open>find_macro\<close> dereferences every entry up to the first match: its result is
  \<open>None\<close> when it reads through a null pointer (the program crashes), otherwise
  \<open>Some\<close> of what it returns.
\<close>

record Macro =
  m_name :: string
  m_lines :: "string list"

type_synonym MacroTable = "Macro option list"

fun find_macro :: "MacroTable \<Rightarrow> string \<Rightarrow> Macro option option" where
  "find_macro [] nm = Some None"
| "find_macro (None # ms) nm = None"
| "find_macro (Some m # ms) nm = (if m_name m = nm then Some (Some m) else find_macro ms nm)"

definition is_valid_label :: "string \<Rightarrow> MacroTable \<Rightarrow> pass1 \<Rightarrow> (bool \<times> pass1) option" where
  "is_valid_label lab state st =
     (if \<not> isalpha (deref lab)
      then Some (False, input_error st ''Invalid label name - first character must be a letter'')
      else if \<not> list_all (\<lambda>c. isdigit c \<or> isalpha c) (tl lab)
      then Some (False, input_error st
             ''Invalid label name - A valid label name contains only numbers or letters'')
      else if (case find (\<lambda>l. l_name l = lab) (label_set st) of
                 None \<Rightarrow> False
               | Some l \<Rightarrow> l_data_or_ins l \<noteq> UNKNOWN_LABEL_TYPE)
      then Some (False, input_error st ''A label with the same name already exists'')
      else if is_reg_name lab
      then Some (False, input_error st ''The label name is invalid - it is a register name'')
      else if is_reserved_word lab
      then Some (False, input_error st ''The label name is invalid - it is a reserved word'')
      else (case find_macro state lab of
              None \<Rightarrow> None
            | Some (Some m) \<Rightarrow>
                Some (False, input_error st ''The label name is invalid - it is a macro name'')
            | Some None \<Rightarrow> Some (True, st)))"

subsection \<open>Numbers, matrix definitions and commas (data_handling.c)\<close>

definition is_valid_num :: "string \<Rightarrow> kind \<Rightarrow> pass1 \<Rightarrow> int \<times> pass1" where
  "is_valid_num token num_type st =
     (case strtol token of
        (num, ptr) \<Rightarrow>
          if ptr \<noteq> []
          then (INT_MIN, input_error st
                  ''The parameter is invalid - expecting an integer to be received'')
          else if num_type = DATA \<and> (num > 511 \<or> num < - 512)
          then (INT_MIN, input_error st
                  ''The number is invalid because it requires more than the legal number of bits'')
          else if num_type = INS \<and> (num > 127 \<or> num < - 128)
          then (INT_MIN, input_error st
                  ''The number is invalid because it requires more than the legal number of bits'')
          else (to_int32 num, st))"

text \<open>
  \<^verbatim>\<open>check_mat_def\<close> returns its code and the values left in \<^verbatim>\<open>*row\<close> and \<^verbatim>\<open>*col\<close>
  (both 0 on entry, as its two callers initialise them). It reports but does not
  set \<^verbatim>\<open>error\<close>; its callers do.
\<close>

definition check_mat_def :: "string \<Rightarrow> kind \<Rightarrow> pass1 \<Rightarrow> int \<times> int \<times> int \<times> pass1" where
  "check_mat_def mat_def type st =
     (if deref mat_def \<noteq> CHR ''[''
      then (ERROR_OCCURRED, 0, 0, report_error_pass st (line_count st)
              ''Missing opening bracket or another character was received'')
      else if type = INS \<and> deref (tl mat_def) \<noteq> CHR ''r''
      then (ERROR_OCCURRED, 0, 0, report_error_pass st (line_count st)
              ''Using an array expects to receive only register names as parameters, inside []'')
      else
        (let m = (if type = INS then tl (tl mat_def) else tl mat_def)
         in case strtol m of
              (row, ptr1) \<Rightarrow>
                if ptr1 = m
                then (ERROR_OCCURRED, row, 0, report_error_pass st (line_count st)
                        ''A number is missing or a different character was received'')
                else if deref ptr1 \<noteq> CHR '']''
                then (ERROR_OCCURRED, row, 0, report_error_pass st (line_count st)
                        ''Missing closing bracket or another character was received'')
                else if deref ptr1 = CHR 0x00
                then (ERROR_OCCURRED, row, 0, report_error_pass st (line_count st)
                        ''Column size definition is missing or there is an extra white space'')
                else if deref (tl ptr1) \<noteq> CHR ''[''
                then (ERROR_OCCURRED, row, 0, report_error_pass st (line_count st)
                        ''Missing opening bracket or another character was received'')
                else if type = INS \<and> deref (tl (tl ptr1)) \<noteq> CHR ''r''
                then (ERROR_OCCURRED, row, 0, report_error_pass st (line_count st)
                        ''Using an array expects to receive only register names as parameters, inside []'')
                else
                  (let p = (if type = INS then tl (tl (tl ptr1)) else tl (tl ptr1))
                   in case strtol p of
                        (col, ptr2) \<Rightarrow>
                          if ptr2 = p
                          then (ERROR_OCCURRED, row, col, report_error_pass st (line_count st)
                                  ''A number is missing or a different character was received'')
                          else if deref ptr2 \<noteq> CHR '']''
                          then (ERROR_OCCURRED, row, col, report_error_pass st (line_count st)
                                  ''Missing closing bracket or another character was received'')
                          else if deref (tl ptr2) \<noteq> CHR 0x00
                          then (ERROR_OCCURRED, row, col, report_error_pass st (line_count st)
                                  ''An extra character appears after a matrix definition'')
                          else if row > INT_MAX \<or> row < 0
                          then (ERROR_OCCURRED, row, col, report_error_pass st (line_count st)
                                  ''Invalid row size (the required size must be positive and not exceed the size of an int)'')
                          else if col > INT_MAX \<or> col < 0
                          then (ERROR_OCCURRED, row, col, report_error_pass st (line_count st)
                                  ''Invalid column size (the required size must be positive and not exceed the size of an int)'')
                          else (0, row, col, st))))"

fun commas_loop :: "string \<Rightarrow> nat \<Rightarrow> bool \<Rightarrow> bool \<Rightarrow> pass1 \<Rightarrow> bool \<times> pass1" where
  "commas_loop [] i expect_comma was_space st =
     (if \<not> expect_comma then (False, input_error st ''There is a comma after all parameters'')
      else (True, st))"
| "commas_loop (c # cs) i expect_comma was_space st =
     (if c = CHR '',''
      then (if \<not> expect_comma
            then (False, input_error st
                    (if i = 0 then ''There is a comma before parameters''
                     else ''There is more than one comma between parameters''))
            else commas_loop cs (i + 1) False was_space st)
      else if isspace c then commas_loop cs (i + 1) expect_comma True st
      else if \<not> expect_comma then commas_loop cs (i + 1) True False st
      else if expect_comma \<and> was_space
      then (False, input_error st ''Missing comma between parameters'')
      else commas_loop cs (i + 1) expect_comma was_space st)"

definition is_valid_commas :: "string \<Rightarrow> pass1 \<Rightarrow> bool \<times> pass1" where
  "is_valid_commas rest st = (if rest = [] then (True, st) else commas_loop rest 0 False False st)"

subsection \<open>The directives .data, .string and .mat (data_handling.c)\<close>

lemma strtok_shorter: "strtok delims sv = (Some token, sv') \<Longrightarrow> length sv' < length sv"
proof -
  assume a: "strtok delims sv = (Some token, sv')"
  define s1 where "s1 = dropWhile (\<lambda>c. c \<in> set delims) sv"
  define ys where "ys = dropWhile (\<lambda>c. c \<notin> set delims) s1"
  from a have ne: "s1 \<noteq> []" and sv': "sv' = drop 1 ys"
    by (simp_all add: strtok_def Let_def s1_def ys_def split: if_splits)
  have le: "length ys \<le> length s1"
    unfolding ys_def by (rule length_dropWhile_le)
  have "length (drop 1 ys) < length s1"
  proof (cases ys)
    case Nil
    with ne show ?thesis by simp
  next
    case (Cons y ys')
    with le show ?thesis by simp
  qed
  also have "length s1 \<le> length sv"
    unfolding s1_def by (rule length_dropWhile_le)
  finally show ?thesis using sv' by simp
qed

function data_loop :: "string \<Rightarrow> pass1 \<Rightarrow> int \<times> pass1" where
  "data_loop sv st =
     (case strtok delims_comma_ws sv of
        (None, sv') \<Rightarrow> (0, st)
      | (Some token, sv') \<Rightarrow>
          (case is_valid_num token DATA st of
             (num, st1) \<Rightarrow>
               if num = INT_MIN then (0, st1)
               else (case add_data st1 num of
                       (rc, st2) \<Rightarrow>
                         if rc = FATAL_ERROR then (FATAL_ERROR, st2) else data_loop sv' st2)))"
  by pat_completeness auto
termination
  by (relation "measure (\<lambda>(sv, st). length sv)") (simp_all add: strtok_shorter [OF sym])

declare data_loop.simps [simp del]

definition data_cmd :: "string \<Rightarrow> string \<Rightarrow> pass1 \<Rightarrow> int \<times> pass1" where
  "data_cmd rest sv st =
     (case is_valid_commas rest st of
        (ok, st1) \<Rightarrow> if \<not> ok then (0, st1) else data_loop sv st1)"

text \<open>
  The characters of a string between the quotes; \<open>Some rc\<close> when \<^verbatim>\<open>string_cmd\<close>
  returns \<open>rc\<close> from inside the loop.
\<close>

fun string_chars :: "string \<Rightarrow> pass1 \<Rightarrow> int option \<times> pass1" where
  "string_chars [] st = (None, st)"
| "string_chars (c # cs) st =
     (if 31 < (of_char c :: int) \<and> (of_char c :: int) < 127
      then (case add_data st (of_char c) of
              (rc, st1) \<Rightarrow>
                if rc = FATAL_ERROR then (Some FATAL_ERROR, st1) else string_chars cs st1)
      else (Some 0, input_error st ''Invalid string - invisible character''))"

definition string_cmd :: "string \<Rightarrow> pass1 \<Rightarrow> int \<times> pass1" where
  "string_cmd rest st =
     (if deref rest \<noteq> CHR 0x22
      then (0, input_error st ''Invalid string - missing opening quotes'')
      else
        (let r = rev (dropWhile isspace (rev rest));
             j = length r - 1
         in case string_chars (drop 1 (take j r)) st of
              (Some rc, st1) \<Rightarrow> (rc, st1)
            | (None, st1) \<Rightarrow>
                if r ! j \<noteq> CHR 0x22
                then (0, input_error st1 ''Invalid string - missing closing quotes'')
                else (case add_data st1 0 of
                        (rc, st2) \<Rightarrow> if rc = FATAL_ERROR then (FATAL_ERROR, st2) else (0, st2))))"

function mat_fill :: "int \<Rightarrow> pass1 \<Rightarrow> int \<times> pass1" where
  "mat_fill mat_size st =
     (if 0 < mat_size
      then (case add_data st 0 of
              (rc, st1) \<Rightarrow>
                if rc = FATAL_ERROR then (FATAL_ERROR, st1) else mat_fill (mat_size - 1) st1)
      else (0, st))"
  by pat_completeness auto
termination
  by (relation "measure (\<lambda>(mat_size, st). nat mat_size)") auto

declare mat_fill.simps [simp del]

function mat_loop :: "string \<Rightarrow> int \<Rightarrow> pass1 \<Rightarrow> int \<times> pass1" where
  "mat_loop sv mat_size st =
     (case strtok delims_comma_ws sv of
        (Some token, sv') \<Rightarrow>
          if 0 < mat_size
          then (case is_valid_num token DATA st of
                  (num, st1) \<Rightarrow>
                    if num = INT_MIN then (0, st1)
                    else (case add_data st1 num of
                            (rc, st2) \<Rightarrow>
                              if rc = FATAL_ERROR then (FATAL_ERROR, st2)
                              else mat_loop sv' (mat_size - 1) st2))
          else (0, input_error st
                  ''There are unnecessary parameter(s), overflow from the defined matrix'')
      | (None, sv') \<Rightarrow> if 0 < mat_size then mat_fill mat_size st else (0, st))"
  by pat_completeness auto
termination
  by (relation "measure (\<lambda>(sv, mat_size, st). length sv)") (simp_all add: strtok_shorter [OF sym])

declare mat_loop.simps [simp del]

definition mat_cmd :: "string \<Rightarrow> string \<Rightarrow> pass1 \<Rightarrow> int \<times> pass1" where
  "mat_cmd rest sv st =
     (let mat_def = copy_first_word rest (WORD_LEN + 1)
      in case check_mat_def mat_def DATA st of
           (rc, row, col, st1) \<Rightarrow>
             if rc = ERROR_OCCURRED then (0, st1\<lparr>error := True\<rparr>)
             else
               (let mat_size = to_int32 (to_int32 row * to_int32 col)
                in if mat_size = 0
                   then (0, input_error st1 ''A matrix of size zero is invalid'')
                   else (case is_valid_commas (delete_white (drop (length mat_def) rest)) st1 of
                           (ok, st2) \<Rightarrow>
                             if \<not> ok then (0, st2)
                             else mat_loop (snd (strtok delims_ws sv)) mat_size st2)))"

subsection \<open>Instructions (instruction_handling.c)\<close>

definition IMMEDIATE :: int where
  "IMMEDIATE = 0"

definition DIRECT :: int where
  "DIRECT = 1"

definition MATRIX_ACCESS :: int where
  "MATRIX_ACCESS = 2"

definition DIRECT_REGISTER :: int where
  "DIRECT_REGISTER = 3"

definition SOURCE :: int where
  "SOURCE = 1"

definition DESTINATION :: int where
  "DESTINATION = 2"

definition ins_opcode :: "string list" where
  "ins_opcode = [''mov'', ''cmp'', ''add'', ''sub'', ''lea'', ''clr'', ''not'', ''inc'', ''dec'',
                 ''jmp'', ''bne'', ''jsr'', ''red'', ''prn'', ''rts'', ''stop'']"

definition MOV :: int where "MOV = 0"
definition CMP :: int where "CMP = 1"
definition ADD :: int where "ADD = 2"
definition SUB :: int where "SUB = 3"
definition LEA :: int where "LEA = 4"
definition PRN :: int where "PRN = 13"
definition RTS :: int where "RTS = 14"

text \<open>
  The word at \<^verbatim>\<open>ic - 1\<close> that a destination register is OR-ed into, and the title
  word written at \<^verbatim>\<open>ic_title\<close>, are inside \<^verbatim>\<open>ins_set\<close>: the array has \<^verbatim>\<open>ic\<close> cells
  and the callers have appended the title word before (lemma \<open>images_ok\<close> below
  keeps the two in step).
\<close>

definition addressing_mode :: "string \<Rightarrow> int" where
  \<comment> \<open>the value of \<^verbatim>\<open>argument_adrr\<close> that \<^verbatim>\<open>parse_encode_arguments\<close> works out first\<close>
  "addressing_mode argument =
     (if deref argument = CHR ''#'' then IMMEDIATE
      else if is_reg_name argument then DIRECT_REGISTER
      else if list_ex (\<lambda>c. c = CHR ''['' \<or> c = CHR '']'') argument then MATRIX_ACCESS
      else DIRECT)"

text \<open>The four cases of the \<^verbatim>\<open>switch\<close> of \<^verbatim>\<open>parse_encode_arguments\<close>.\<close>

definition encode_immediate :: "string \<Rightarrow> pass1 \<Rightarrow> int \<times> pass1" where
  "encode_immediate argument st =
     (case is_valid_num (tl argument) INS st of
        (num, st1) \<Rightarrow>
          if num = INT_MIN then (ERROR_OCCURRED, st1)
          else (case add_ins st1 (push_bit 2 num) of
                  (rc, st2) \<Rightarrow>
                    if rc = FATAL_ERROR then (FATAL_ERROR, st2) else (IMMEDIATE, st2)))"

definition encode_direct :: "string \<Rightarrow> pass1 \<Rightarrow> int \<times> pass1" where
  "encode_direct argument st =
     (case add_ins st 0 of
        (rc, st1) \<Rightarrow>
          if rc = FATAL_ERROR then (FATAL_ERROR, st1)
          else (case add_pending_refs st1 (ic st1) (line_count st1) argument of
                  (rc2, st2) \<Rightarrow>
                    if rc2 = FATAL_ERROR then (FATAL_ERROR, st2) else (DIRECT, st2)))"

definition encode_matrix :: "string \<Rightarrow> pass1 \<Rightarrow> int \<times> pass1" where
  "encode_matrix argument st =
     (let i = min WORD_LEN (length (takeWhile (\<lambda>c. c \<noteq> CHR ''['' \<and> c \<noteq> CHR '']'') argument))
      in if i = 0 then (ERROR_OCCURRED, input_error st ''Matrix name is missing'')
         else if deref (drop i argument) \<noteq> CHR ''['' \<and> deref (drop i argument) \<noteq> CHR '']''
         then (ERROR_OCCURRED, input_error st ''Invalid matrix name - too long'')
         else
           (let name_mat = take i argument
            in case add_ins st 0 of
                 (rc, st1) \<Rightarrow>
                   if rc = FATAL_ERROR then (FATAL_ERROR, st1)
                   else
                     (case add_pending_refs st1 (ic st1) (line_count st1) name_mat of
                        (rc2, st2) \<Rightarrow>
                          if rc2 = FATAL_ERROR then (FATAL_ERROR, st2)
                          else
                            (case check_mat_def (drop (length name_mat) argument) INS st2 of
                               (rc3, row, col, st3) \<Rightarrow>
                                 if rc3 = ERROR_OCCURRED
                                 then (ERROR_OCCURRED, st3\<lparr>error := True\<rparr>)
                                 else if row < 0 \<or> row > 7 \<or> col < 0 \<or> col > 7
                                 then (ERROR_OCCURRED,
                                       input_error st3 ''A register with this name does not exist'')
                                 else
                                   (case add_ins st3 (push_bit 6 row OR push_bit 2 col) of
                                      (rc4, st4) \<Rightarrow>
                                        if rc4 = FATAL_ERROR then (FATAL_ERROR, st4)
                                        else (MATRIX_ACCESS, st4))))))"

definition encode_register :: "string \<Rightarrow> int \<Rightarrow> pass1 \<Rightarrow> int \<times> pass1" where
  "encode_register argument src_or_dst st =
     (let num = atoi (tl argument)
      in if src_or_dst = SOURCE
         then (case add_ins (st\<lparr>was_reg := True\<rparr>) (push_bit 6 num) of
                 (rc, st1) \<Rightarrow>
                   if rc = FATAL_ERROR then (FATAL_ERROR, st1) else (DIRECT_REGISTER, st1))
         else if src_or_dst = DESTINATION
         then (if was_reg st
               then (DIRECT_REGISTER,
                     st\<lparr>ins_set := (ins_set st)[nat (ic st - 1) :=
                           (ins_set st ! nat (ic st - 1)) OR push_bit 2 num]\<rparr>)
               else (case add_ins st (push_bit 2 num) of
                       (rc, st1) \<Rightarrow>
                         if rc = FATAL_ERROR then (FATAL_ERROR, st1) else (DIRECT_REGISTER, st1)))
         else (DIRECT_REGISTER, st))"

definition parse_encode_arguments ::
  "string \<Rightarrow> int \<Rightarrow> int list \<Rightarrow> pass1 \<Rightarrow> int \<times> pass1" where
  "parse_encode_arguments argument src_or_dst addr_modes st =
     (let argument_adrr = addressing_mode argument
      in if argument_adrr \<notin> set addr_modes
         then (ERROR_OCCURRED,
               input_error st
                 (if src_or_dst = DESTINATION
                  then ''The destination parameter type does not match the command''
                  else ''The source parameter type does not match the command''))
         else if argument_adrr = IMMEDIATE then encode_immediate argument st
         else if argument_adrr = DIRECT then encode_direct argument st
         else if argument_adrr = MATRIX_ACCESS then encode_matrix argument st
         else encode_register argument src_or_dst st)"

definition title_word :: "int \<Rightarrow> int \<Rightarrow> int \<Rightarrow> int" where
  \<comment> \<open>\<^verbatim>\<open>(opcode<<OPCODE_SHIFT)|(src_addr<<SRC_SHIFT)|(dst_addr<<DST_SHIFT)\<close>\<close>
  "title_word opcode src_addr dst_addr =
     push_bit 6 opcode OR push_bit 4 src_addr OR push_bit 2 dst_addr"

text \<open>
  \<^verbatim>\<open>handle_two_prms\<close> is called for the opcodes \<^verbatim>\<open>mov\<close>, \<^verbatim>\<open>add\<close>, \<^verbatim>\<open>sub\<close>, \<^verbatim>\<open>cmp\<close>
  and \<^verbatim>\<open>lea\<close> only, so its test \<^verbatim>\<open>else if (opcode == LEA)\<close> is the last case.
\<close>

definition handle_two_prms :: "string \<Rightarrow> int \<Rightarrow> pass1 \<Rightarrow> int \<times> pass1" where
  "handle_two_prms sv opcode st =
     (case add_ins st 0 of
        (rc, st1) \<Rightarrow>
          if rc = FATAL_ERROR then (FATAL_ERROR, st1)
          else
            (let ic_title = ic st1 - 1
             in case strtok delims_comma_ws sv of
                  (None, sv1) \<Rightarrow> (0, input_error st1 ''Missing parameters'')
                | (Some token, sv1) \<Rightarrow>
                    (case (if opcode = MOV \<or> opcode = CMP \<or> opcode = ADD \<or> opcode = SUB
                           then parse_encode_arguments token SOURCE
                                  [IMMEDIATE, DIRECT, MATRIX_ACCESS, DIRECT_REGISTER] st1
                           else parse_encode_arguments token SOURCE [DIRECT, MATRIX_ACCESS] st1) of
                       (ans, st2) \<Rightarrow>
                         if ans = FATAL_ERROR then (FATAL_ERROR, st2)
                         else if ans = ERROR_OCCURRED then (0, st2)
                         else
                           (case strtok delims_comma_ws sv1 of
                              (None, sv2) \<Rightarrow> (0, input_error st2 ''Missing parameter'')
                            | (Some token2, sv2) \<Rightarrow>
                                (case (if opcode \<noteq> CMP
                                       then parse_encode_arguments token2 DESTINATION
                                              [DIRECT, MATRIX_ACCESS, DIRECT_REGISTER] st2
                                       else parse_encode_arguments token2 DESTINATION
                                              [IMMEDIATE, DIRECT, MATRIX_ACCESS, DIRECT_REGISTER]
                                              st2) of
                                   (ans2, st3) \<Rightarrow>
                                     if ans2 = FATAL_ERROR then (FATAL_ERROR, st3)
                                     else if ans2 = ERROR_OCCURRED then (0, st3)
                                     else
                                       (let st4 = st3\<lparr>was_reg := False\<rparr>
                                        in case strtok delims_comma_ws sv2 of
                                             (Some token3, sv3) \<Rightarrow>
                                               (0, input_error st4
                                                     ''There are unnecessary parameter(s)'')
                                           | (None, sv3) \<Rightarrow>
                                               (0, st4\<lparr>ins_set := (ins_set st4)[nat ic_title :=
                                                         title_word opcode ans ans2]\<rparr>)))))))"

definition handle_one_prm :: "string \<Rightarrow> int \<Rightarrow> pass1 \<Rightarrow> int \<times> pass1" where
  "handle_one_prm sv opcode st =
     (case add_ins st 0 of
        (rc, st1) \<Rightarrow>
          if rc = FATAL_ERROR then (FATAL_ERROR, st1)
          else
            (let ic_title = ic st1 - 1
             in case strtok delims_comma_ws sv of
                  (None, sv1) \<Rightarrow> (0, input_error st1 ''Missing parameter'')
                | (Some token, sv1) \<Rightarrow>
                    (case (if opcode \<noteq> PRN
                           then parse_encode_arguments token DESTINATION
                                  [DIRECT, MATRIX_ACCESS, DIRECT_REGISTER] st1
                           else parse_encode_arguments token DESTINATION
                                  [IMMEDIATE, DIRECT, MATRIX_ACCESS, DIRECT_REGISTER] st1) of
                       (ans, st2) \<Rightarrow>
                         if ans = FATAL_ERROR then (FATAL_ERROR, st2)
                         else if ans = ERROR_OCCURRED then (0, st2)
                         else
                           (case strtok delims_comma_ws sv1 of
                              (Some token2, sv2) \<Rightarrow>
                                (0, input_error st2 ''There are unnecessary parameter(s)'')
                            | (None, sv2) \<Rightarrow>
                                (0, st2\<lparr>ins_set := (ins_set st2)[nat ic_title :=
                                          title_word opcode 0 ans]\<rparr>)))))"

definition handle_no_prm :: "string \<Rightarrow> int \<Rightarrow> pass1 \<Rightarrow> int \<times> pass1" where
  "handle_no_prm sv opcode st =
     (case add_ins st (push_bit 6 opcode) of
        (rc, st1) \<Rightarrow>
          if rc = FATAL_ERROR then (FATAL_ERROR, st1)
          else
            (case strtok delims_ws sv of
               (Some token, sv1) \<Rightarrow>
                 (0, (report_error_pass st1 (line_count st1)
                        (if deref token = CHR '',''
                         then '' There is an extra comma after the command name''
                         else ''There are unnecessary parameter(s)''))\<lparr>error := True\<rparr>)
             | (None, sv1) \<Rightarrow> (0, st1)))"

subsection \<open>One source line (the body of the loop of first_pass)\<close>

text \<open>
  What the body of the loop does with the state: go on with the next line, return
  \<^verbatim>\<open>FATAL_ERROR\<close> (after \<^verbatim>\<open>first_pass_cleanup\<close>), or crash in \<^verbatim>\<open>find_macro\<close> on a
  null entry of the macro table.
\<close>

datatype step = Continue pass1 | Fatal pass1 | Crash

text \<open>
  The loop of the \<^verbatim>\<open>.entry\<close> branch over the table. It stops at a slot of the
  declared name that is external (\<open>1\<close>: an error) or still unknown (\<open>2\<close>: nothing
  to do), and marks every other slot of that name as entry on its way; \<open>0\<close> when
  it reaches the end of the table.
\<close>

fun entry_loop :: "string \<Rightarrow> Label list \<Rightarrow> Label list \<times> nat" where
  "entry_loop first_word [] = ([], 0)"
| "entry_loop first_word (l # ls) =
     (if l_name l = first_word
      then (if l_ent_or_ext l = EXTERNAL then (l # ls, 1)
            else if l_data_or_ins l = UNKNOWN_LABEL_TYPE then (l # ls, 2)
            else (case entry_loop first_word ls of
                    (ls', r) \<Rightarrow> (l\<lparr>l_ent_or_ext := ENTRY\<rparr> # ls', r)))
      else (case entry_loop first_word ls of (ls', r) \<Rightarrow> (l # ls', r)))"

definition after_label_name :: "string \<Rightarrow> string \<Rightarrow> pass1 \<Rightarrow> pass1" where
  \<comment> \<open>\<^verbatim>\<open>line_p += strlen(first_word); line_p = delete_white(line_p); if (*line_p != '\0') ...\<close>\<close>
  "after_label_name line_p first_word st =
     (if delete_white (drop (length first_word) line_p) \<noteq> []
      then input_error st ''Additional character(s) received after label name''
      else st)"

definition entry_directive :: "string \<Rightarrow> pass1 \<Rightarrow> step" where
  "entry_directive line_p st =
     (let first_word = copy_first_word line_p (WORD_LEN + 2)
      in if first_word = []
         then Continue (input_error st ''Missing label name after declaration'')
         else if is_label_name first_word (label_set st)
         then (case entry_loop first_word (label_set st) of
                 (labels', r) \<Rightarrow>
                   if r = 1
                   then Continue (input_error (st\<lparr>label_set := labels'\<rparr>)
                                    ''A label with this name is defined as external'')
                   else if r = 2 then Continue (st\<lparr>label_set := labels'\<rparr>)
                   else Continue (after_label_name line_p first_word (st\<lparr>label_set := labels'\<rparr>)))
         else (case add_label st first_word UNKNOWN_LABEL_TYPE ENTRY of
                 (rc, st1) \<Rightarrow>
                   if rc = FATAL_ERROR then Fatal st1
                   else Continue (after_label_name line_p first_word st1)))"

definition extern_directive :: "string \<Rightarrow> pass1 \<Rightarrow> step" where
  "extern_directive line_p st =
     (let first_word = copy_first_word line_p (WORD_LEN + 2)
      in if first_word = []
         then Continue (input_error st ''Missing label name after declaration'')
         else if is_label_name first_word (label_set st)
         then Continue (input_error st ''A label with this name is defined as internal'')
         else (case add_label st first_word INS EXTERNAL of
                 (rc, st1) \<Rightarrow>
                   if rc = FATAL_ERROR then Fatal st1
                   else Continue (after_label_name line_p first_word st1)))"

datatype handler = Two_prms | One_prm | No_prm

definition ins_commands :: "(string \<times> handler) list" where
  "ins_commands =
     [(''mov'', Two_prms), (''add'', Two_prms), (''sub'', Two_prms), (''cmp'', Two_prms),
      (''lea'', Two_prms),
      (''clr'', One_prm), (''not'', One_prm), (''inc'', One_prm), (''dec'', One_prm),
      (''jmp'', One_prm), (''bne'', One_prm), (''jsr'', One_prm), (''red'', One_prm),
      (''prn'', One_prm),
      (''rts'', No_prm), (''stop'', No_prm)]"

fun opcode_of :: "string \<Rightarrow> string list \<Rightarrow> int" where
  \<comment> \<open>\<^verbatim>\<open>k = 0; while (strcmp(ins_opcode[k], first)) k++;\<close> for a name of the table\<close>
  "opcode_of nm [] = 0"
| "opcode_of nm (x # xs) = (if x = nm then 0 else 1 + opcode_of nm xs)"

definition of_rc :: "int \<times> pass1 \<Rightarrow> step" where
  "of_rc r = (if fst r = FATAL_ERROR then Fatal (snd r) else Continue (snd r))"

text \<open>
  The label of the line, if any, enters the table; then the command is found and
  run. \<open>line_p\<close> starts at the command name (after the period for a directive).
\<close>

definition define_and_run :: "string \<Rightarrow> kind \<Rightarrow> pass1 \<Rightarrow> step" where
  "define_and_run line_p data_or_ins st0 =
     (let st = (if label_flag st0
                then (snd (if is_label_name (label st0) (label_set st0)
                           then add_label st0 (label st0) data_or_ins ENTRY
                           else add_label st0 (label st0) data_or_ins REGULAR))\<lparr>label_flag := False\<rparr>
                else st0);
          first = copy_first_word line_p (CMD_LEN + 1);
          rest = delete_white (drop (length first) line_p);
          sv = snd (strtok delims_ws line_p)
      in if data_or_ins = DATA
         then (if rest = [] then Continue (input_error st ''Missing parameters'')
               else if first = ''data'' then of_rc (data_cmd rest sv st)
               else if first = ''string'' then of_rc (string_cmd rest st)
               else if first = ''mat'' then of_rc (mat_cmd rest sv st)
               else Continue (input_error st ''Invalid command name''))
         else (case map_of ins_commands first of
                 None \<Rightarrow> Continue (input_error st ''Invalid command name'')
               | Some h \<Rightarrow>
                   (let opcode = opcode_of first ins_opcode
                    in case (if opcode < RTS then is_valid_commas rest st else (True, st)) of
                         (ok, st1) \<Rightarrow>
                           if \<not> ok then Continue st1
                           else (case h of
                                   Two_prms \<Rightarrow> of_rc (handle_two_prms sv opcode st1)
                                 | One_prm \<Rightarrow> of_rc (handle_one_prm sv opcode st1)
                                 | No_prm \<Rightarrow> of_rc (handle_no_prm sv opcode st1)))))"

text \<open>
  The line from the point where a leading label, if any, has been cut off.
  \<open>first_word\<close> and \<open>len_label\<close> are the locals of that name: the first word read
  at the start of the line (without its colon if it was a label) and its length
  with the colon.
\<close>

definition after_label :: "string \<Rightarrow> string \<Rightarrow> nat \<Rightarrow> pass1 \<Rightarrow> step" where
  "after_label line_p first_word len_label st =
     (if line_p = [] then Continue (input_error st ''No content after label'')
      else if deref line_p = CHR ''.''
      then (let line_p1 = tl line_p
            in if line_p1 = [] then Continue (input_error st ''No command and parameters'')
               else
                 (let fw = copy_first_word line_p1 (WORD_LEN + 2)
                  in if fw = ''entry''
                     then entry_directive (delete_white (drop (length fw) line_p1))
                            (st\<lparr>label_flag := False\<rparr>)
                     else if fw = ''extern''
                     then extern_directive (delete_white (drop (length fw) line_p1))
                            (st\<lparr>label_flag := False\<rparr>)
                     else if isspace (deref line_p1)
                     then Continue (input_error st ''There is a blank character after the period'')
                     else define_and_run line_p1 DATA st))
      else if deref (drop len_label first_word) = CHR '':'' \<or> there_is_colon line_p
      then Continue (input_error st ''Invalid label length'')
      else define_and_run line_p INS st)"

definition first_pass_line :: "MacroTable \<Rightarrow> string \<Rightarrow> pass1 \<Rightarrow> step" where
  "first_pass_line state line st =
     (if deref line = CHR '';'' then Continue st
      else
        (let line_p = delete_white line
         in if deref line_p = CHR '';''
            then Continue (input_error st
                   ''A comment line begin with a semicolon, not a blank character'')
            else if line_p = [] then Continue st
            else
              (let first_word = copy_first_word line_p (WORD_LEN + 2);
                   len_label = length first_word
               in if len_label \<ge> 1 \<and> last first_word = CHR '':''
                  then (case is_valid_label (butlast first_word) state
                               (st\<lparr>label := butlast first_word\<rparr>) of
                          None \<Rightarrow> Crash
                        | Some (ok, st1) \<Rightarrow>
                            if ok
                            then after_label (delete_white (drop len_label line_p))
                                   (butlast first_word) len_label (st1\<lparr>label_flag := True\<rparr>)
                            else Continue st1)
                  else after_label line_p first_word len_label st)))"

subsection \<open>Reading the file\<close>

text \<open>
  \<^verbatim>\<open>fgets(line, n, f)\<close> on the rest of the file: the line read, newline included,
  and what is left. The file holds no NUL byte.
\<close>

definition fgets :: "nat \<Rightarrow> string \<Rightarrow> string \<times> string" where
  "fgets n content =
     (let pre = take (n - 1) content;
          line = (if CHR 0x0A \<in> set pre
                  then takeWhile (\<lambda>c. c \<noteq> CHR 0x0A) pre @ [CHR 0x0A] else pre)
      in (line, drop (length line) content))"

definition VALID_LINE :: nat where
  "VALID_LINE = 80"

text \<open>
  A line is too long when \<^verbatim>\<open>line[80]\<close> is neither NUL nor a newline, that is when
  \<^verbatim>\<open>fgets\<close> filled the 81 cells without reaching the end of the line (a shorter
  read leaves in \<^verbatim>\<open>line[80]\<close> the NUL or newline of an earlier iteration); the rest
  of that line is skipped up to its newline.
\<close>

lemma fgets_shorter:
  assumes "(line, rest) = fgets n content" and "content \<noteq> []" and "2 \<le> n"
  shows "length rest < length content"
proof -
  from assms(2) obtain c cs where c: "content = c # cs" by (cases content) auto
  from assms(1) have r: "rest = drop (length line) content"
    by (simp add: fgets_def Let_def)
  from assms(3) obtain k where n: "n = Suc (Suc k)"
    by (metis Suc_le_D numeral_2_eq_2 Suc_le_mono)
  from assms(1) c n have "line \<noteq> []"
    by (auto simp: fgets_def Let_def split: if_splits)
  then obtain x xs where "line = x # xs" by (cases line) auto
  with r c show ?thesis by simp
qed

lemma skip_line_shorter:
  "length y < n \<Longrightarrow> length (dropWhile P y) - Suc 0 < n"
  using length_dropWhile_le [of P y] by arith

function read_lines :: "MacroTable \<Rightarrow> string \<Rightarrow> pass1 \<Rightarrow> step" where
  "read_lines state content st =
     (if content = [] then Continue st
      else
        (case fgets (VALID_LINE + 2) content of
           (line, rest) \<Rightarrow>
             (let st1 = st\<lparr>line_count := line_count st + 1\<rparr>
              in if length line = VALID_LINE + 1 \<and> last line \<noteq> CHR 0x0A
                 then read_lines state (drop 1 (dropWhile (\<lambda>c. c \<noteq> CHR 0x0A) rest))
                        (input_error st1 ''Invalid line length: over 80 characters'')
                 else (case first_pass_line state line st1 of
                         Continue st2 \<Rightarrow> read_lines state rest st2
                       | Fatal st2 \<Rightarrow> Fatal st2
                       | Crash \<Rightarrow> Crash))))"
  by pat_completeness auto
termination
proof (relation "measure (\<lambda>(state, content, st). length content)", goal_cases)
  case 1
  show ?case by simp
next
  case 2
  then show ?case by (auto dest!: fgets_shorter intro: skip_line_shorter)
next
  case 3
  then show ?case by (auto dest!: fgets_shorter)
qed

declare read_lines.simps [simp del]

subsection \<open>first_pass\<close>

fun report_unknown :: "Label list \<Rightarrow> pass1 \<Rightarrow> pass1" where
  "report_unknown [] st = st"
| "report_unknown (l # ls) st =
     report_unknown ls
       (if l_data_or_ins l = UNKNOWN_LABEL_TYPE
        then report_error_pass (st\<lparr>error := True\<rparr>) (uint (l_address l))
               ''A label was declared internal and was not defined in this file''
        else st)"

definition initial_pass1 :: "bool \<Rightarrow> pass1" where
  "initial_pass1 error0 =
     \<lparr>error = error0, dc = 0, ic = 0, line_count = 0, was_reg = False,
      dataset = [], ins_set = [], label_set = [], pending_refs = [],
      label_flag = False, label = [], stderr1 = []\<rparr>"

text \<open>
  The scan of \<^verbatim>\<open><base>.am\<close> up to the call of \<^verbatim>\<open>second_pass\<close>: the loop over the
  lines, then the report of the symbols still unknown. \<open>error0\<close> is the value of
  the global \<^verbatim>\<open>error\<close> on entry, which \<^verbatim>\<open>first_pass\<close> does not reset (\<^verbatim>\<open>main\<close>
  calls it only after \<^verbatim>\<open>mcro_exec\<close> has returned 0, which leaves \<^verbatim>\<open>FALSE\<close>).
\<close>

definition first_pass_scan :: "MacroTable \<Rightarrow> string \<Rightarrow> bool \<Rightarrow> step" where
  "first_pass_scan state content error0 =
     (case read_lines state content (initial_pass1 error0) of
        Continue st \<Rightarrow> Continue (report_unknown (label_set st) st)
      | Fatal st \<Rightarrow> Fatal st
      | Crash \<Rightarrow> Crash)"

definition FILENAME_MAX :: nat where
  \<comment> \<open>the value of \<^verbatim>\<open>stdio.h\<close> on Linux\<close>
  "FILENAME_MAX = 4096"

text \<open>
  \<^verbatim>\<open>first_pass\<close>: \<open>am\<close> is the content of \<^verbatim>\<open><name_of_file>.am\<close>, \<open>None\<close> when the
  file cannot be opened. The result is the return code, the state of the first
  pass when it ended, and the output files; \<open>None\<close> when the program crashes.
\<close>

definition first_pass ::
  "string \<Rightarrow> MacroTable \<Rightarrow> string option \<Rightarrow> bool \<Rightarrow> outputs \<Rightarrow> (int \<times> pass1 \<times> outputs) option" where
  "first_pass name_of_file state am error0 fs =
     (if length name_of_file \<ge> FILENAME_MAX then Some (0, initial_pass1 error0, fs)
      else
        (case am of
           None \<Rightarrow> Some (FATAL_ERROR, initial_pass1 error0, fs)
         | Some content \<Rightarrow>
             (case first_pass_scan state content error0 of
                Crash \<Rightarrow> None
              | Fatal st \<Rightarrow> Some (FATAL_ERROR, st, fs)
              | Continue st \<Rightarrow>
                  (case second_pass (ins_set st) (ic st) (dataset st) (dc st) (label_set st)
                          (pending_refs st) (if error st then 1 else 0) fs of
                     (rc, p_error, ins_set', fs', had_error) \<Rightarrow>
                       Some (if rc \<noteq> 0 then FATAL_ERROR else 0,
                             st\<lparr>ins_set := ins_set'\<rparr>, fs')))))"

section \<open>Properties of the first pass\<close>

subsection \<open>The capacity of the memory\<close>

definition images_ok :: "pass1 \<Rightarrow> bool" where
  "images_ok st =
     (0 \<le> ic st \<and> 0 \<le> dc st \<and> int (length (ins_set st)) = ic st \<and>
      int (length (dataset st)) = dc st \<and> ic st + dc st \<le> MEM_AVAIL_WORDS)"

lemma images_ok_upd [simp]:
  "images_ok (st\<lparr>error := e\<rparr>) = images_ok st"
  "images_ok (st\<lparr>stderr1 := s\<rparr>) = images_ok st"
  "images_ok (st\<lparr>was_reg := w\<rparr>) = images_ok st"
  "images_ok (st\<lparr>label_flag := f\<rparr>) = images_ok st"
  "images_ok (st\<lparr>label := l\<rparr>) = images_ok st"
  "images_ok (st\<lparr>label_set := ls\<rparr>) = images_ok st"
  "images_ok (st\<lparr>pending_refs := ps\<rparr>) = images_ok st"
  "images_ok (st\<lparr>line_count := n\<rparr>) = images_ok st"
  "length xs = length (ins_set st) \<Longrightarrow> images_ok (st\<lparr>ins_set := xs\<rparr>) = images_ok st"
  by (simp_all add: images_ok_def)

lemma report_fields [simp]:
  "ic (report_error_pass st n msg) = ic st" "dc (report_error_pass st n msg) = dc st"
  "ins_set (report_error_pass st n msg) = ins_set st"
  "dataset (report_error_pass st n msg) = dataset st"
  "label_set (report_error_pass st n msg) = label_set st"
  "pending_refs (report_error_pass st n msg) = pending_refs st"
  "line_count (report_error_pass st n msg) = line_count st"
  "was_reg (report_error_pass st n msg) = was_reg st"
  "label_flag (report_error_pass st n msg) = label_flag st"
  "label (report_error_pass st n msg) = label st"
  "error (report_error_pass st n msg) = error st"
  "stderr1 (report_error_pass st n msg) = stderr1 st @ [(n, msg)]"
  by (simp_all add: report_error_pass_def)

lemma input_error_fields [simp]:
  "ic (input_error st msg) = ic st" "dc (input_error st msg) = dc st"
  "ins_set (input_error st msg) = ins_set st"
  "dataset (input_error st msg) = dataset st"
  "label_set (input_error st msg) = label_set st"
  "pending_refs (input_error st msg) = pending_refs st"
  "line_count (input_error st msg) = line_count st"
  "was_reg (input_error st msg) = was_reg st"
  "label_flag (input_error st msg) = label_flag st"
  "label (input_error st msg) = label st"
  "error (input_error st msg) = True"
  "stderr1 (input_error st msg) = stderr1 st @ [(line_count st, msg)]"
  by (simp_all add: input_error_def report_error_pass_def)

lemma images_ok_report [simp]:
  "images_ok (report_error_pass st n msg) = images_ok st"
  "images_ok (input_error st msg) = images_ok st"
  by (simp_all add: report_error_pass_def input_error_def)

lemma add_data_ok: "images_ok st \<Longrightarrow> add_data st w = (rc, st') \<Longrightarrow> images_ok st'"
  by (auto simp: add_data_def images_ok_def split: if_splits)

lemma add_ins_ok: "images_ok st \<Longrightarrow> add_ins st w = (rc, st') \<Longrightarrow> images_ok st'"
  by (auto simp: add_ins_def images_ok_def split: if_splits)

lemma add_pending_refs_ok:
  "images_ok st \<Longrightarrow> add_pending_refs st i n nm = (rc, st') \<Longrightarrow> images_ok st'"
  by (auto simp: add_pending_refs_def)

lemma add_label_ok: "images_ok st \<Longrightarrow> add_label st nm k l = (rc, st') \<Longrightarrow> images_ok st'"
  by (auto simp: add_label_def split: option.splits if_splits)

lemma is_valid_num_ok: "images_ok st \<Longrightarrow> is_valid_num t k st = (n, st') \<Longrightarrow> images_ok st'"
  by (auto simp: is_valid_num_def split: prod.splits if_splits)

lemma check_mat_def_ok:
  "images_ok st \<Longrightarrow> check_mat_def m k st = (rc, r, c, st') \<Longrightarrow> images_ok st'"
  by (auto simp: check_mat_def_def Let_def split: prod.splits if_splits)

lemma commas_loop_ok:
  "images_ok st \<Longrightarrow> commas_loop s i e w st = (b, st') \<Longrightarrow> images_ok st'"
  by (induction s i e w st rule: commas_loop.induct) (auto split: if_splits)

lemma is_valid_commas_ok:
  "images_ok st \<Longrightarrow> is_valid_commas s st = (b, st') \<Longrightarrow> images_ok st'"
  by (auto simp: is_valid_commas_def commas_loop_ok split: if_splits)

lemma is_valid_label_ok:
  "images_ok st \<Longrightarrow> is_valid_label l m st = Some (b, st') \<Longrightarrow> images_ok st'"
  by (auto simp: is_valid_label_def split: if_splits option.splits)

lemma data_loop_ok: "images_ok st \<Longrightarrow> data_loop sv st = (rc, st') \<Longrightarrow> images_ok st'"
proof (induction sv st rule: data_loop.induct)
  case (1 sv st)
  show ?case
  proof (cases "strtok delims_comma_ws sv")
    case (Pair tok sv')
    show ?thesis
    proof (cases tok)
      case None
      with 1 Pair show ?thesis by (simp add: data_loop.simps [of sv])
    next
      case (Some token)
      obtain num st1 where n: "is_valid_num token DATA st = (num, st1)"
        by (cases "is_valid_num token DATA st")
      obtain r st2 where a: "add_data st1 num = (r, st2)" by (cases "add_data st1 num")
      from is_valid_num_ok [OF "1.prems"(1) n] have o1: "images_ok st1" .
      from add_data_ok [OF o1 a] have o2: "images_ok st2" .
      show ?thesis
      proof (cases "num = INT_MIN \<or> r = FATAL_ERROR")
        case True
        with "1.prems" Pair Some n a o1 o2 show ?thesis
          by (auto simp: data_loop.simps [of sv] split: if_splits)
      next
        case False
        with "1.prems" Pair Some n a have "data_loop sv' st2 = (rc, st')"
          by (simp add: data_loop.simps [of sv])
        from "1.IH" [OF Pair [symmetric] Some n [symmetric] _ a [symmetric] _ o2 this] False
        show ?thesis by simp
      qed
    qed
  qed
qed

lemma data_cmd_ok: "images_ok st \<Longrightarrow> data_cmd rest sv st = (rc, st') \<Longrightarrow> images_ok st'"
  by (auto simp: data_cmd_def split: prod.splits if_splits
      dest: is_valid_commas_ok data_loop_ok)

lemma string_chars_ok:
  "images_ok st \<Longrightarrow> string_chars cs st = (r, st') \<Longrightarrow> images_ok st'"
proof (induction cs arbitrary: st)
  case Nil
  then show ?case by simp
next
  case (Cons c cs)
  obtain r1 st1 where a: "add_data st (of_char c) = (r1, st1)"
    by (cases "add_data st (of_char c)")
  from add_data_ok [OF Cons.prems(1) a] have "images_ok st1" .
  with Cons a show ?case by (auto split: if_splits)
qed

lemma string_cmd_ok: "images_ok st \<Longrightarrow> string_cmd rest st = (rc, st') \<Longrightarrow> images_ok st'"
  by (auto simp: string_cmd_def Let_def split: prod.splits if_splits option.splits
      dest: string_chars_ok add_data_ok)

lemma mat_fill_ok: "images_ok st \<Longrightarrow> mat_fill n st = (rc, st') \<Longrightarrow> images_ok st'"
proof (induction n st rule: mat_fill.induct)
  case (1 mat_size st)
  obtain r st1 where a: "add_data st 0 = (r, st1)" by (cases "add_data st 0")
  from add_data_ok [OF "1.prems"(1) a] have o1: "images_ok st1" .
  show ?case
  proof (cases "0 < mat_size \<and> r \<noteq> FATAL_ERROR")
    case True
    with "1.prems" a have "mat_fill (mat_size - 1) st1 = (rc, st')"
      by (simp add: mat_fill.simps [of mat_size])
    from "1.IH" [OF _ a [symmetric] _ o1 this] True show ?thesis by simp
  next
    case False
    with "1.prems" a o1 show ?thesis
      by (auto simp: mat_fill.simps [of mat_size] split: if_splits)
  qed
qed

lemma mat_loop_ok: "images_ok st \<Longrightarrow> mat_loop sv n st = (rc, st') \<Longrightarrow> images_ok st'"
proof (induction sv n st rule: mat_loop.induct)
  case (1 sv mat_size st)
  show ?case
  proof (cases "strtok delims_comma_ws sv")
    case (Pair tok sv')
    show ?thesis
    proof (cases tok)
      case None
      with 1 Pair show ?thesis
        by (auto simp: mat_loop.simps [of sv] split: if_splits dest: mat_fill_ok)
    next
      case (Some token)
      obtain num st1 where n: "is_valid_num token DATA st = (num, st1)"
        by (cases "is_valid_num token DATA st")
      obtain r st2 where a: "add_data st1 num = (r, st2)" by (cases "add_data st1 num")
      from is_valid_num_ok [OF "1.prems"(1) n] have o1: "images_ok st1" .
      from add_data_ok [OF o1 a] have o2: "images_ok st2" .
      show ?thesis
      proof (cases "0 < mat_size \<and> num \<noteq> INT_MIN \<and> r \<noteq> FATAL_ERROR")
        case False
        with "1.prems" Pair Some n a o1 o2 show ?thesis
          by (auto simp: mat_loop.simps [of sv] split: if_splits)
      next
        case True
        with "1.prems" Pair Some n a have "mat_loop sv' (mat_size - 1) st2 = (rc, st')"
          by (simp add: mat_loop.simps [of sv])
        from "1.IH" [OF Pair [symmetric] Some _ n [symmetric] _ a [symmetric] _ o2 this] True
        show ?thesis by simp
      qed
    qed
  qed
qed

lemma mat_cmd_ok: "images_ok st \<Longrightarrow> mat_cmd rest sv st = (rc, st') \<Longrightarrow> images_ok st'"
  by (clarsimp simp: mat_cmd_def Let_def split: prod.splits if_splits;
      blast dest: check_mat_def_ok is_valid_commas_ok mat_loop_ok)

lemmas emit_ok = add_ins_ok add_data_ok add_pending_refs_ok is_valid_num_ok check_mat_def_ok

lemma encode_immediate_ok:
  "images_ok st \<Longrightarrow> encode_immediate a st = (rc, st') \<Longrightarrow> images_ok st'"
  by (clarsimp simp: encode_immediate_def split: prod.splits if_splits; blast dest: emit_ok)

lemma encode_direct_ok:
  "images_ok st \<Longrightarrow> encode_direct a st = (rc, st') \<Longrightarrow> images_ok st'"
  by (clarsimp simp: encode_direct_def split: prod.splits if_splits; blast dest: emit_ok)

lemma encode_register_ok:
  "images_ok st \<Longrightarrow> encode_register a sd st = (rc, st') \<Longrightarrow> images_ok st'"
  by (clarsimp simp: encode_register_def Let_def split: prod.splits if_splits;
      (blast dest: emit_ok images_ok_upd(3) [THEN iffD2])?)

lemma encode_matrix_ok:
  assumes "images_ok st" and "encode_matrix a st = (rc, st')"
  shows "images_ok st'"
proof -
  define i where "i = min WORD_LEN (length (takeWhile (\<lambda>c. c \<noteq> CHR ''['' \<and> c \<noteq> CHR '']'') a))"
  obtain r1 s1 where a1: "add_ins st 0 = (r1, s1)" by (cases "add_ins st 0")
  obtain r2 s2 where a2: "add_pending_refs s1 (ic s1) (line_count s1) (take i a) = (r2, s2)"
    by (cases "add_pending_refs s1 (ic s1) (line_count s1) (take i a)")
  obtain r3 row col s3 where a3: "check_mat_def (drop (min (length a) i) a) INS s2 = (r3, row, col, s3)"
    by (cases "check_mat_def (drop (min (length a) i) a) INS s2")
  obtain r4 s4 where a4: "add_ins s3 (push_bit 6 row OR push_bit 2 col) = (r4, s4)"
    by (cases "add_ins s3 (push_bit 6 row OR push_bit 2 col)")
  from add_ins_ok [OF assms(1) a1] have o1: "images_ok s1" .
  from add_pending_refs_ok [OF o1 a2] have o2: "images_ok s2" .
  from check_mat_def_ok [OF o2 a3] have o3: "images_ok s3" .
  from add_ins_ok [OF o3 a4] have o4: "images_ok s4" .
  from assms(2) have "st' \<in> {input_error st ''Matrix name is missing'',
      input_error st ''Invalid matrix name - too long'', s1, s2, s3\<lparr>error := True\<rparr>,
      input_error s3 ''A register with this name does not exist'', s4}"
    unfolding encode_matrix_def Let_def i_def [symmetric]
    by (simp add: a1 a2 a3 a4 split: if_splits)
  with assms(1) o1 o2 o3 o4 show ?thesis by auto
qed

lemma parse_encode_arguments_ok:
  "images_ok st \<Longrightarrow> parse_encode_arguments a sd modes st = (rc, st') \<Longrightarrow> images_ok st'"
  by (auto simp: parse_encode_arguments_def Let_def split: if_splits
      dest: encode_immediate_ok encode_direct_ok encode_matrix_ok encode_register_ok)

lemma handle_no_prm_ok:
  "images_ok st \<Longrightarrow> handle_no_prm sv opc st = (rc, st') \<Longrightarrow> images_ok st'"
  by (clarsimp simp: handle_no_prm_def Let_def split: prod.splits if_splits option.splits;
      blast dest: add_ins_ok)

lemma handle_one_prm_ok:
  assumes "images_ok st" and "handle_one_prm sv opc st = (rc, st')"
  shows "images_ok st'"
proof -
  obtain r1 s1 where a1: "add_ins st 0 = (r1, s1)" by (cases "add_ins st 0")
  from add_ins_ok [OF assms(1) a1] have o1: "images_ok s1" .
  obtain t1 v1 where k1: "strtok delims_comma_ws sv = (t1, v1)"
    by (cases "strtok delims_comma_ws sv")
  show ?thesis
  proof (cases "r1 = FATAL_ERROR \<or> t1 = None")
    case True
    with assms(2) a1 k1 o1 show ?thesis
      by (auto simp: handle_one_prm_def Let_def split: if_splits)
  next
    case False
    then obtain token where t: "t1 = Some token" and nf: "r1 \<noteq> FATAL_ERROR" by auto
    define modes where "modes = (if opc \<noteq> PRN then [DIRECT, MATRIX_ACCESS, DIRECT_REGISTER]
                                  else [IMMEDIATE, DIRECT, MATRIX_ACCESS, DIRECT_REGISTER])"
    obtain ans s2 where p: "parse_encode_arguments token DESTINATION modes s1 = (ans, s2)"
      by (cases "parse_encode_arguments token DESTINATION modes s1")
    from parse_encode_arguments_ok [OF o1 p] have o2: "images_ok s2" .
    from assms(2) a1 k1 t nf p
    have "st' \<in> {s2, input_error s2 ''There are unnecessary parameter(s)'',
                 s2\<lparr>ins_set := (ins_set s2)[nat (ic s1 - 1) := title_word opc 0 ans]\<rparr>}"
      by (auto simp: handle_one_prm_def Let_def modes_def split: if_splits option.splits prod.splits)
    with o2 show ?thesis by auto
  qed
qed

lemma handle_two_prms_ok:
  assumes "images_ok st" and "handle_two_prms sv opc st = (rc, st')"
  shows "images_ok st'"
proof -
  obtain r1 s1 where a1: "add_ins st 0 = (r1, s1)" by (cases "add_ins st 0")
  from add_ins_ok [OF assms(1) a1] have o1: "images_ok s1" .
  obtain t1 v1 where k1: "strtok delims_comma_ws sv = (t1, v1)"
    by (cases "strtok delims_comma_ws sv")
  show ?thesis
  proof (cases "r1 = FATAL_ERROR \<or> t1 = None")
    case True
    with assms(2) a1 k1 o1 show ?thesis
      by (auto simp: handle_two_prms_def Let_def split: if_splits)
  next
    case False
    then obtain token where t: "t1 = Some token" and nf: "r1 \<noteq> FATAL_ERROR" by auto
    define modes where "modes = (if opc = MOV \<or> opc = CMP \<or> opc = ADD \<or> opc = SUB
                                  then [IMMEDIATE, DIRECT, MATRIX_ACCESS, DIRECT_REGISTER]
                                  else [DIRECT, MATRIX_ACCESS])"
    obtain ans s2 where p: "parse_encode_arguments token SOURCE modes s1 = (ans, s2)"
      by (cases "parse_encode_arguments token SOURCE modes s1")
    from parse_encode_arguments_ok [OF o1 p] have o2: "images_ok s2" .
    obtain t2 v2 where k2: "strtok delims_comma_ws v1 = (t2, v2)"
      by (cases "strtok delims_comma_ws v1")
    show ?thesis
    proof (cases "ans = FATAL_ERROR \<or> ans = ERROR_OCCURRED \<or> t2 = None")
      case True
      with assms(2) a1 k1 t nf p k2 o2 show ?thesis
        by (auto simp: handle_two_prms_def Let_def modes_def split: if_splits)
    next
      case False
      then obtain token2 where t2: "t2 = Some token2" and na: "ans \<noteq> FATAL_ERROR"
        "ans \<noteq> ERROR_OCCURRED" by auto
      define modes2 where "modes2 = (if opc \<noteq> CMP then [DIRECT, MATRIX_ACCESS, DIRECT_REGISTER]
                                  else [IMMEDIATE, DIRECT, MATRIX_ACCESS, DIRECT_REGISTER])"
      obtain ans2 s3 where p2: "parse_encode_arguments token2 DESTINATION modes2 s2 = (ans2, s3)"
        by (cases "parse_encode_arguments token2 DESTINATION modes2 s2")
      from parse_encode_arguments_ok [OF o2 p2] have o3: "images_ok s3" .
      from assms(2) a1 k1 t nf p k2 t2 na p2
      have "st' \<in> {s3, input_error (s3\<lparr>was_reg := False\<rparr>) ''There are unnecessary parameter(s)'',
                 s3\<lparr>was_reg := False, ins_set := (ins_set s3)[nat (ic s1 - 1) := title_word opc ans ans2]\<rparr>}"
        by (auto simp: handle_two_prms_def Let_def modes_def modes2_def
            split: if_splits option.splits prod.splits)
      with o3 show ?thesis by auto
    qed
  qed
qed

definition step_ok :: "step \<Rightarrow> bool" where
  "step_ok s = (case s of Continue st \<Rightarrow> images_ok st | Fatal st \<Rightarrow> images_ok st | Crash \<Rightarrow> True)"

lemma step_ok_simps [simp]:
  "step_ok (Continue st) = images_ok st" "step_ok (Fatal st) = images_ok st" "step_ok Crash"
  by (simp_all add: step_ok_def)

lemma of_rc_ok: "images_ok (snd r) \<Longrightarrow> step_ok (of_rc r)"
  by (simp add: of_rc_def)

lemma after_label_name_ok [simp]: "images_ok (after_label_name l w st) = images_ok st"
  by (simp add: after_label_name_def)

lemma entry_directive_ok:
  assumes "images_ok st" shows "step_ok (entry_directive l st)"
proof -
  define w where "w = copy_first_word l (WORD_LEN + 2)"
  obtain ls r where e: "entry_loop w (label_set st) = (ls, r)"
    by (cases "entry_loop w (label_set st)")
  obtain rc s1 where a: "add_label st w UNKNOWN_LABEL_TYPE ENTRY = (rc, s1)"
    by (cases "add_label st w UNKNOWN_LABEL_TYPE ENTRY")
  from add_label_ok [OF assms a] have "images_ok s1" .
  with assms show ?thesis
    unfolding entry_directive_def Let_def w_def [symmetric]
    by (simp add: e a)
qed

lemma extern_directive_ok:
  assumes "images_ok st" shows "step_ok (extern_directive l st)"
proof -
  define w where "w = copy_first_word l (WORD_LEN + 2)"
  obtain rc s1 where a: "add_label st w INS EXTERNAL = (rc, s1)"
    by (cases "add_label st w INS EXTERNAL")
  from add_label_ok [OF assms a] have "images_ok s1" .
  with assms show ?thesis
    unfolding extern_directive_def Let_def w_def [symmetric]
    by (simp add: a)
qed

lemma snd_ok:
  "images_ok st \<Longrightarrow> images_ok (snd (add_label st nm k l))"
  "images_ok st \<Longrightarrow> images_ok (snd (data_cmd rest sv st))"
  "images_ok st \<Longrightarrow> images_ok (snd (string_cmd rest st))"
  "images_ok st \<Longrightarrow> images_ok (snd (mat_cmd rest sv st))"
  "images_ok st \<Longrightarrow> images_ok (snd (handle_two_prms sv opc st))"
  "images_ok st \<Longrightarrow> images_ok (snd (handle_one_prm sv opc st))"
  "images_ok st \<Longrightarrow> images_ok (snd (handle_no_prm sv opc st))"
  "images_ok st \<Longrightarrow> images_ok (snd (is_valid_commas rest st))"
proof -
  show "images_ok st \<Longrightarrow> images_ok (snd (add_label st nm k l))"
    by (cases "add_label st nm k l") (simp add: add_label_ok)
  show "images_ok st \<Longrightarrow> images_ok (snd (data_cmd rest sv st))"
    by (cases "data_cmd rest sv st") (simp add: data_cmd_ok)
  show "images_ok st \<Longrightarrow> images_ok (snd (string_cmd rest st))"
    by (cases "string_cmd rest st") (simp add: string_cmd_ok)
  show "images_ok st \<Longrightarrow> images_ok (snd (mat_cmd rest sv st))"
    by (cases "mat_cmd rest sv st") (simp add: mat_cmd_ok)
  show "images_ok st \<Longrightarrow> images_ok (snd (handle_two_prms sv opc st))"
    by (cases "handle_two_prms sv opc st") (simp add: handle_two_prms_ok)
  show "images_ok st \<Longrightarrow> images_ok (snd (handle_one_prm sv opc st))"
    by (cases "handle_one_prm sv opc st") (simp add: handle_one_prm_ok)
  show "images_ok st \<Longrightarrow> images_ok (snd (handle_no_prm sv opc st))"
    by (cases "handle_no_prm sv opc st") (simp add: handle_no_prm_ok)
  show "images_ok st \<Longrightarrow> images_ok (snd (is_valid_commas rest st))"
    by (cases "is_valid_commas rest st") (simp add: is_valid_commas_ok)
qed

lemma define_and_run_ok:
  assumes "images_ok st" shows "step_ok (define_and_run l k st)"
proof -
  define s1 where "s1 = (if label_flag st
                then (snd (if is_label_name (label st) (label_set st)
                           then add_label st (label st) k ENTRY
                           else add_label st (label st) k REGULAR))\<lparr>label_flag := False\<rparr>
                else st)"
  have o1: "images_ok s1" using assms by (simp add: s1_def snd_ok)
  define rest where "rest = delete_white (drop (length (copy_first_word l (CMD_LEN + 1))) l)"
  obtain okc s2 where c: "is_valid_commas rest s1 = (okc, s2)" by (cases "is_valid_commas rest s1")
  from is_valid_commas_ok [OF o1 c] have o2: "images_ok s2" .
  show ?thesis
  proof (cases "k = DATA")
    case True
    then show ?thesis
      unfolding define_and_run_def Let_def s1_def [symmetric] rest_def [symmetric]
      using o1 by (simp add: of_rc_ok snd_ok)
  next
    case False
    show ?thesis
    proof (cases "map_of ins_commands (copy_first_word l (CMD_LEN + 1))")
      case None
      with False show ?thesis
        unfolding define_and_run_def Let_def s1_def [symmetric] rest_def [symmetric]
        using o1 by simp
    next
      case (Some h)
      with False show ?thesis
        unfolding define_and_run_def Let_def s1_def [symmetric] rest_def [symmetric]
        using o1 o2 by (cases h) (simp_all add: c of_rc_ok snd_ok)
    qed
  qed
qed

lemma after_label_ok: "images_ok st \<Longrightarrow> step_ok (after_label l w n st)"
  by (auto simp: after_label_def Let_def entry_directive_ok extern_directive_ok define_and_run_ok)

lemma first_pass_line_ok: "images_ok st \<Longrightarrow> step_ok (first_pass_line m l st)"
  by (auto simp: first_pass_line_def Let_def after_label_ok split: option.splits
      dest!: is_valid_label_ok [rotated])

lemma read_lines_ok: "images_ok st \<Longrightarrow> step_ok (read_lines m content st)"
proof (induction m content st rule: read_lines.induct)
  case (1 state content st)
  show ?case
  proof (cases "content = []")
    case True
    with 1 show ?thesis by (subst read_lines.simps) simp
  next
    case False
    obtain line rest where f: "fgets (VALID_LINE + 2) content = (line, rest)"
      by (cases "fgets (VALID_LINE + 2) content")
    define st1 where "st1 = st\<lparr>line_count := line_count st + 1\<rparr>"
    have o1: "images_ok st1" using "1.prems" by (simp add: st1_def)
    show ?thesis
    proof (cases "length line = VALID_LINE + 1 \<and> last line \<noteq> CHR 0x0A")
      case True
      from "1.IH"(1) [OF False f [symmetric] st1_def True] o1
      have "step_ok (read_lines state (drop 1 (dropWhile (\<lambda>c. c \<noteq> CHR 0x0A) rest))
                        (input_error st1 ''Invalid line length: over 80 characters''))"
        by simp
      with False f True show ?thesis
        by (auto simp: read_lines.simps [of state content] st1_def Let_def)
    next
      case nl: False
      from first_pass_line_ok [OF o1] have l: "step_ok (first_pass_line state line st1)" .
      show ?thesis
      proof (cases "first_pass_line state line st1")
        case (Continue st2)
        with l have "images_ok st2" by simp
        from "1.IH"(2) [OF False f [symmetric] st1_def nl Continue this]
        show ?thesis using False f nl Continue
          by (auto simp: read_lines.simps [of state content] st1_def Let_def)
      next
        case (Fatal st2)
        with l False f nl show ?thesis
          by (auto simp: read_lines.simps [of state content] st1_def Let_def)
      next
        case Crash
        with False f nl show ?thesis
          by (auto simp: read_lines.simps [of state content] st1_def Let_def)
      qed
    qed
  qed
qed

lemma report_unknown_ok: "images_ok st \<Longrightarrow> images_ok (report_unknown ls st)"
  by (induction ls arbitrary: st) simp_all

lemma first_pass_scan_ok: "step_ok (first_pass_scan m content e)"
proof -
  have "images_ok (initial_pass1 e)"
    by (simp add: initial_pass1_def images_ok_def MEM_AVAIL_WORDS_def)
  from read_lines_ok [OF this, of m content] show ?thesis
    by (auto simp: first_pass_scan_def report_unknown_ok split: step.splits)
qed

definition full_memory :: pass1 where
  "full_memory = (initial_pass1 False)\<lparr>dc := 150, ic := 6, dataset := replicate 150 0,
                    ins_set := replicate 6 0, line_count := 9\<rparr>"

text \<open>
  C2. An emit (\<^verbatim>\<open>add_data\<close>, \<^verbatim>\<open>add_ins\<close>) keeps the invariant that both counters
  are the lengths of their images and \<open>IC + DC \<le> 156\<close>. When \<open>IC + DC = 156\<close> the emit
  is refused: it returns \<^verbatim>\<open>FATAL_ERROR\<close>, appends no word, leaves both counters as
  they were, sets \<^verbatim>\<open>error\<close> and reports that there are no free cells in memory at
  the current line. Otherwise it appends the word and adds one to its counter.
  Every line of the first pass, the loop over the file and the whole scan keep the
  invariant, whether they go on or end with a fatal error.
\<close>

theorem capacity_invariant:
  "(images_ok st \<longrightarrow> images_ok (snd (add_data st w)) \<and> images_ok (snd (add_ins st w))) \<and>
   (dc st + ic st = MEM_AVAIL_WORDS \<longrightarrow>
      add_data st w = (FATAL_ERROR, st\<lparr>error := True,
         stderr1 := stderr1 st @ [(line_count st, ''There are no free cells in memory'')]\<rparr>) \<and>
      add_ins st w = (FATAL_ERROR, st\<lparr>error := True,
         stderr1 := stderr1 st @ [(line_count st, ''There are no free cells in memory'')]\<rparr>)) \<and>
   (dc st + ic st \<noteq> MEM_AVAIL_WORDS \<longrightarrow>
      add_data st w = (0, st\<lparr>dc := dc st + 1, dataset := dataset st @ [w]\<rparr>) \<and>
      add_ins st w = (0, st\<lparr>ic := ic st + 1, ins_set := ins_set st @ [w]\<rparr>)) \<and>
   (images_ok st \<longrightarrow> step_ok (first_pass_line state line st) \<and> step_ok (read_lines state content st)) \<and>
   step_ok (first_pass_scan state content error0)"
proof -
  have a: "images_ok st \<longrightarrow> images_ok (snd (add_data st w)) \<and> images_ok (snd (add_ins st w))"
  proof
    assume o: "images_ok st"
    have "images_ok (snd (add_data st w))"
      using o by (cases "add_data st w") (simp add: add_data_ok)
    moreover have "images_ok (snd (add_ins st w))"
      using o by (cases "add_ins st w") (simp add: add_ins_ok)
    ultimately show "images_ok (snd (add_data st w)) \<and> images_ok (snd (add_ins st w))" ..
  qed
  have b: "dc st + ic st = MEM_AVAIL_WORDS \<longrightarrow>
      add_data st w = (FATAL_ERROR, st\<lparr>error := True,
         stderr1 := stderr1 st @ [(line_count st, ''There are no free cells in memory'')]\<rparr>) \<and>
      add_ins st w = (FATAL_ERROR, st\<lparr>error := True,
         stderr1 := stderr1 st @ [(line_count st, ''There are no free cells in memory'')]\<rparr>)"
    by (simp add: add_data_def add_ins_def input_error_def report_error_pass_def)
  have c: "dc st + ic st \<noteq> MEM_AVAIL_WORDS \<longrightarrow>
      add_data st w = (0, st\<lparr>dc := dc st + 1, dataset := dataset st @ [w]\<rparr>) \<and>
      add_ins st w = (0, st\<lparr>ic := ic st + 1, ins_set := ins_set st @ [w]\<rparr>)"
    by (simp add: add_data_def add_ins_def)
  have d: "images_ok st \<longrightarrow>
      step_ok (first_pass_line state line st) \<and> step_ok (read_lines state content st)"
    by (simp add: first_pass_line_ok read_lines_ok)
  have e: "step_ok (first_pass_scan state content error0)"
    by (rule first_pass_scan_ok)
  show ?thesis
    by (rule conjI [OF a conjI [OF b conjI [OF c conjI [OF d e]]]])
qed

theorem capacity_invariant_witness:
  "images_ok full_memory \<and> dc full_memory + ic full_memory = MEM_AVAIL_WORDS \<and>
   add_data full_memory 7 = (FATAL_ERROR, full_memory\<lparr>error := True,
      stderr1 := [(9, ''There are no free cells in memory'')]\<rparr>) \<and>
   add_ins full_memory 7 = (FATAL_ERROR, full_memory\<lparr>error := True,
      stderr1 := [(9, ''There are no free cells in memory'')]\<rparr>) \<and>
   dc (initial_pass1 False) + ic (initial_pass1 False) \<noteq> MEM_AVAIL_WORDS \<and>
   images_ok (snd (add_data (initial_pass1 False) 7)) \<and>
   dataset (snd (add_data (initial_pass1 False) 7)) = [7] \<and>
   dc (snd (add_data (initial_pass1 False) 7)) = 1"
proof -
  have f: "images_ok full_memory" "dc full_memory + ic full_memory = MEM_AVAIL_WORDS"
    "stderr1 full_memory = []" "line_count full_memory = 9"
    by (simp_all add: full_memory_def images_ok_def initial_pass1_def MEM_AVAIL_WORDS_def)
  have i: "images_ok (initial_pass1 False)"
    "dc (initial_pass1 False) + ic (initial_pass1 False) \<noteq> MEM_AVAIL_WORDS"
    by (simp_all add: images_ok_def initial_pass1_def MEM_AVAIL_WORDS_def)
  note t1 = capacity_invariant [of full_memory 7 "[]" "[]" "[]" False]
  note t2 = capacity_invariant [of "initial_pass1 False" 7 "[]" "[]" "[]" False]
  from t1 f(2) have x: "add_data full_memory 7 = (FATAL_ERROR, full_memory\<lparr>error := True,
         stderr1 := stderr1 full_memory @ [(line_count full_memory, ''There are no free cells in memory'')]\<rparr>)"
      "add_ins full_memory 7 = (FATAL_ERROR, full_memory\<lparr>error := True,
         stderr1 := stderr1 full_memory @ [(line_count full_memory, ''There are no free cells in memory'')]\<rparr>)"
    by blast+
  from t2 i have y: "images_ok (snd (add_data (initial_pass1 False) 7))"
    "add_data (initial_pass1 False) 7 = (0, (initial_pass1 False)\<lparr>dc := dc (initial_pass1 False) + 1,
        dataset := dataset (initial_pass1 False) @ [7]\<rparr>)"
    by blast+
  have z: "dataset (snd (add_data (initial_pass1 False) 7)) = [7]"
    "dc (snd (add_data (initial_pass1 False) 7)) = 1"
    unfolding y(2) by (simp_all add: initial_pass1_def)
  from x f(3,4) have x': "add_data full_memory 7 = (FATAL_ERROR, full_memory\<lparr>error := True,
      stderr1 := [(9, ''There are no free cells in memory'')]\<rparr>)"
    "add_ins full_memory 7 = (FATAL_ERROR, full_memory\<lparr>error := True,
      stderr1 := [(9, ''There are no free cells in memory'')]\<rparr>)"
    by simp_all
  show ?thesis
    by (intro conjI f(1) f(2) x' i(2) y(1) z)
qed

subsection \<open>Two registers share a word\<close>

definition reg_name :: "nat \<Rightarrow> string" where
  "reg_name i = [''r0'', ''r1'', ''r2'', ''r3'', ''r4'', ''r5'', ''r6'', ''r7''] ! i"

lemma reg_name_simps:
  "reg_name 0 = ''r0''" "reg_name 1 = ''r1''" "reg_name 2 = ''r2''" "reg_name 3 = ''r3''"
  "reg_name 4 = ''r4''" "reg_name 5 = ''r5''" "reg_name 6 = ''r6''" "reg_name 7 = ''r7''"
  "reg_name (Suc 0) = ''r1''"
  by (simp_all add: reg_name_def)

lemma reg_name_cases:
  "i < 8 \<Longrightarrow> i = 0 \<or> i = 1 \<or> i = 2 \<or> i = 3 \<or> i = 4 \<or> i = 5 \<or> i = 6 \<or> i = (7::nat)"
  by arith

lemma reg_name_is_reg: "i < 8 \<Longrightarrow> is_reg_name (reg_name i)"
  by (drule reg_name_cases) (elim disjE; simp add: reg_name_simps is_reg_name_def)

lemma atoi_digits:
  "atoi ''0'' = 0" "atoi ''1'' = 1" "atoi ''2'' = 2" "atoi ''3'' = 3"
  "atoi ''4'' = 4" "atoi ''5'' = 5" "atoi ''6'' = 6" "atoi ''7'' = 7"
  by code_simp+

lemma atoi_reg_name: "i < 8 \<Longrightarrow> atoi (tl (reg_name i)) = int i"
  by (drule reg_name_cases) (elim disjE; simp add: reg_name_simps atoi_digits)

lemma deref_reg_name: "i < 8 \<Longrightarrow> deref (reg_name i) = CHR ''r''"
  by (drule reg_name_cases) (elim disjE; simp add: reg_name_simps deref_def)

lemma addressing_mode_reg: "i < 8 \<Longrightarrow> addressing_mode (reg_name i) = DIRECT_REGISTER"
  by (simp add: addressing_mode_def reg_name_is_reg deref_reg_name)

lemma add_ins_room:
  "dc st + ic st < MEM_AVAIL_WORDS \<Longrightarrow>
     add_ins st w = (0, st\<lparr>ic := ic st + 1, ins_set := ins_set st @ [w]\<rparr>)"
  by (simp add: add_ins_def)

lemma encode_register_source:
  assumes "i < 8" and "dc st + ic st < MEM_AVAIL_WORDS"
  shows "parse_encode_arguments (reg_name i) SOURCE [IMMEDIATE, DIRECT, MATRIX_ACCESS, DIRECT_REGISTER] st
         = (DIRECT_REGISTER, st\<lparr>was_reg := True, ic := ic st + 1,
               ins_set := ins_set st @ [push_bit 6 (int i)]\<rparr>)"
  using assms
  by (simp add: parse_encode_arguments_def addressing_mode_reg encode_register_def atoi_reg_name
      add_ins_room Let_def)
     (simp add: DIRECT_REGISTER_def IMMEDIATE_def DIRECT_def MATRIX_ACCESS_def FATAL_ERROR_def)

lemma encode_register_destination_shared:
  assumes "j < 8" and "was_reg st" and "DIRECT_REGISTER \<in> set modes"
  shows "parse_encode_arguments (reg_name j) DESTINATION modes st
         = (DIRECT_REGISTER, st\<lparr>ins_set := (ins_set st)[nat (ic st - 1) :=
                (ins_set st ! nat (ic st - 1)) OR push_bit 2 (int j)]\<rparr>)"
  using assms
  by (simp add: parse_encode_arguments_def addressing_mode_reg encode_register_def atoi_reg_name
      Let_def)
     (simp add: DIRECT_REGISTER_def IMMEDIATE_def DIRECT_def MATRIX_ACCESS_def SOURCE_def
        DESTINATION_def)

lemma two_registers_update:
  "((xs @ [0, a])[nat (int (length xs) + 2 - 1) :=
        (xs @ [0, a]) ! nat (int (length xs) + 2 - 1) OR b])
      [nat (int (length xs) + 1 - 1) := t] = xs @ [t, a OR b]"
proof -
  have n1: "nat (int (length xs) + 2 - 1) = Suc (length xs)" by simp
  have n0: "nat (int (length xs) + 1 - 1) = length xs" by simp
  show ?thesis unfolding n1 n0 by (simp add: nth_append list_update_append)
qed

text \<open>
C4. For a two-operand instruction that accepts a register source (\<^verbatim>\<open>mov\<close>,
  \<^verbatim>\<open>cmp\<close>, \<^verbatim>\<open>add\<close>, \<^verbatim>\<open>sub\<close>) whose two operands are the registers \<open>i\<close> and \<open>j\<close>,
  with room for two words, \<^verbatim>\<open>handle_two_prms\<close> emits exactly two words: the title
  word \<^verbatim>\<open>opcode<<6 | 3<<4 | 3<<2\<close> and one register word \<^verbatim>\<open>i<<6 | j<<2\<close>; the
  destination is OR-ed into the word of the source and no third word is added. For
  \<^verbatim>\<open>mov\<close> the title word is 60, and the whole first pass over the one-line file
  \<^verbatim>\<open>mov r3, r5\<close> ends with the instruction image \<open>[60, 212]\<close>, \<open>IC = 2\<close> and no
  error.
\<close>

theorem two_registers_share_word:
  assumes "i < 8" and "j < 8"
    and "opcode = MOV \<or> opcode = CMP \<or> opcode = ADD \<or> opcode = SUB"
    and "strtok delims_comma_ws sv = (Some (reg_name i), sv1)"
    and "strtok delims_comma_ws sv1 = (Some (reg_name j), sv2)"
    and "strtok delims_comma_ws sv2 = (None, sv3)"
    and "images_ok st" and "ic st + dc st + 2 \<le> MEM_AVAIL_WORDS"
  shows "handle_two_prms sv opcode st =
           (0, st\<lparr>ic := ic st + 2,
                  ins_set := ins_set st @
                    [title_word opcode DIRECT_REGISTER DIRECT_REGISTER,
                     push_bit 6 (int i) OR push_bit 2 (int j)],
                  was_reg := False\<rparr>) \<and>
         title_word MOV DIRECT_REGISTER DIRECT_REGISTER = 60 \<and>
         first_pass_scan [] ''mov r3, r5\<newline>'' False =
           Continue ((initial_pass1 False)\<lparr>ic := 2, ins_set := [60, 212], line_count := 1\<rparr>)"
proof -
  define st1 where "st1 = st\<lparr>ic := ic st + 1, ins_set := ins_set st @ [0]\<rparr>"
  define st2 where "st2 = st1\<lparr>was_reg := True, ic := ic st1 + 1,
               ins_set := ins_set st1 @ [push_bit 6 (int i)]\<rparr>"
  define st3 where "st3 = st2\<lparr>ins_set := (ins_set st2)[nat (ic st2 - 1) :=
                (ins_set st2 ! nat (ic st2 - 1)) OR push_bit 2 (int j)]\<rparr>"
  from assms(8) have r0: "dc st + ic st < MEM_AVAIL_WORDS" by simp
  from assms(8) have r1: "dc st1 + ic st1 < MEM_AVAIL_WORDS" by (simp add: st1_def)
  have a1: "add_ins st 0 = (0, st1)"
    unfolding st1_def by (rule add_ins_room [OF r0])
  have p1: "parse_encode_arguments (reg_name i) SOURCE
              [IMMEDIATE, DIRECT, MATRIX_ACCESS, DIRECT_REGISTER] st1 = (DIRECT_REGISTER, st2)"
    unfolding st2_def by (rule encode_register_source [OF assms(1) r1])
  have w2: "was_reg st2" by (simp add: st2_def)
  have p2: "parse_encode_arguments (reg_name j) DESTINATION modes st2 = (DIRECT_REGISTER, st3)"
    if "DIRECT_REGISTER \<in> set modes" for modes
    unfolding st3_def by (rule encode_register_destination_shared [OF assms(2) w2 that])
  have len: "ic st = int (length (ins_set st))"
    using assms(7) by (simp add: images_ok_def)
  have fin: "st3\<lparr>was_reg := False, ins_set := (ins_set st3)[nat (ic st1 - 1) := t]\<rparr>
             = st\<lparr>ic := ic st + 2,
                  ins_set := ins_set st @ [t, push_bit 6 (int i) OR push_bit 2 (int j)],
                  was_reg := False\<rparr>" for t
    using two_registers_update [of "ins_set st" "push_bit 6 (int i)" "push_bit 2 (int j)" t]
    by (simp add: st3_def st2_def st1_def len)
  have codes: "DIRECT_REGISTER \<noteq> FATAL_ERROR" "DIRECT_REGISTER \<noteq> ERROR_OCCURRED"
    "(0::int) \<noteq> FATAL_ERROR"
    by (simp_all add: DIRECT_REGISTER_def FATAL_ERROR_def ERROR_OCCURRED_def)
  have h: "handle_two_prms sv opcode st =
           (0, st\<lparr>ic := ic st + 2,
                  ins_set := ins_set st @
                    [title_word opcode DIRECT_REGISTER DIRECT_REGISTER,
                     push_bit 6 (int i) OR push_bit 2 (int j)],
                  was_reg := False\<rparr>)"
    unfolding handle_two_prms_def
    using assms(3)
    by (simp add: a1 assms(4,5,6) p1 p2 codes Let_def fin del: list_update.simps)
  have t: "title_word MOV DIRECT_REGISTER DIRECT_REGISTER = 60"
    by (simp add: title_word_def MOV_def DIRECT_REGISTER_def)
  have s: "first_pass_scan [] ''mov r3, r5\<newline>'' False =
           Continue ((initial_pass1 False)\<lparr>ic := 2, ins_set := [60, 212], line_count := 1\<rparr>)"
    by code_simp
  from h t s show ?thesis by blast
qed

theorem two_registers_share_word_witness:
  "strtok delims_comma_ws '' r3, r5\<newline>'' = (Some (reg_name 3), '' r5\<newline>'') \<and>
   strtok delims_comma_ws '' r5\<newline>'' = (Some (reg_name 5), []) \<and>
   strtok delims_comma_ws [] = (None, []) \<and>
   images_ok (initial_pass1 False) \<and>
   handle_two_prms '' r3, r5\<newline>'' MOV (initial_pass1 False) =
     (0, (initial_pass1 False)\<lparr>ic := 2, ins_set := [60, 212]\<rparr>)"
proof -
  have k1: "strtok delims_comma_ws '' r3, r5\<newline>'' = (Some (reg_name 3), '' r5\<newline>'')"
    by code_simp
  have k2: "strtok delims_comma_ws '' r5\<newline>'' = (Some (reg_name 5), [])"
    by code_simp
  have k3: "strtok delims_comma_ws [] = (None, [])"
    by code_simp
  have inv: "images_ok (initial_pass1 False)"
    by (simp add: images_ok_def initial_pass1_def MEM_AVAIL_WORDS_def)
  have room: "ic (initial_pass1 False) + dc (initial_pass1 False) + 2 \<le> MEM_AVAIL_WORDS"
    by (simp add: initial_pass1_def MEM_AVAIL_WORDS_def)
  have op: "MOV = MOV \<or> MOV = CMP \<or> MOV = ADD \<or> MOV = SUB" by simp
  have w: "push_bit 6 (int 3) OR push_bit 2 (int 5) = (212::int)" by simp
  from two_registers_share_word [OF _ _ op k1 k2 k3 inv room]
  have "handle_two_prms '' r3, r5\<newline>'' MOV (initial_pass1 False) =
     (0, (initial_pass1 False)\<lparr>ic := ic (initial_pass1 False) + 2,
            ins_set := ins_set (initial_pass1 False) @ [60, 212], was_reg := False\<rparr>)"
    by (simp add: w)
  then have "handle_two_prms '' r3, r5\<newline>'' MOV (initial_pass1 False) =
     (0, (initial_pass1 False)\<lparr>ic := 2, ins_set := [60, 212]\<rparr>)"
    by (simp add: initial_pass1_def)
  with k1 k2 k3 inv show ?thesis by blast
qed

subsection \<open>Finalizing a placeholder\<close>

text \<open>
Claim C3 (symbol-table invariant). \<^verbatim>\<open>add_label\<close> tests that the name is in the table and
  then finalizes the first slot of kind unknown, without comparing its name with the label
  being defined. With the placeholders \<^verbatim>\<open>A\<close> and \<^verbatim>\<open>B\<close> in the table, defining \<^verbatim>\<open>B\<close> at DC = 7
  turns the slot of \<^verbatim>\<open>A\<close> into a data symbol at offset 7 and leaves \<^verbatim>\<open>B\<close> unknown; the file
  \<^verbatim>\<open>.entry A / .entry B / B: .data 5\<close> ends with \<^verbatim>\<open>A\<close> defined at offset 0 and \<^verbatim>\<open>B\<close> reported
  as never defined. Names are not unique either: a label left pending by a line with no
  content (\<^verbatim>\<open>label_flag\<close> stays set) and a rejected redefinition that has already overwritten
  the \<^verbatim>\<open>label\<close> buffer make the next instruction line insert \<^verbatim>\<open>X\<close> a second time.
\<close>

theorem add_label_wrong_slot:
  "add_label ((initial_pass1 False)\<lparr>dc := 7, label_set :=
       [\<lparr>l_name = ''A'', l_address = 1, l_data_or_ins = UNKNOWN_LABEL_TYPE,
          l_ent_or_ext = ENTRY\<rparr>,
        \<lparr>l_name = ''B'', l_address = 2, l_data_or_ins = UNKNOWN_LABEL_TYPE,
          l_ent_or_ext = ENTRY\<rparr>]\<rparr>) ''B'' DATA ENTRY =
     (0, (initial_pass1 False)\<lparr>dc := 7, label_set :=
       [\<lparr>l_name = ''A'', l_address = 7, l_data_or_ins = DATA, l_ent_or_ext = ENTRY\<rparr>,
        \<lparr>l_name = ''B'', l_address = 2, l_data_or_ins = UNKNOWN_LABEL_TYPE,
          l_ent_or_ext = ENTRY\<rparr>]\<rparr>) \<and>
   first_pass_scan [] ''.entry A\<newline>.entry B\<newline>B: .data 5\<newline>'' False =
     Continue ((initial_pass1 True)\<lparr>dc := 1, line_count := 3, dataset := [5],
       label_set :=
         [\<lparr>l_name = ''A'', l_address = 0, l_data_or_ins = DATA, l_ent_or_ext = ENTRY\<rparr>,
          \<lparr>l_name = ''B'', l_address = 2, l_data_or_ins = UNKNOWN_LABEL_TYPE,
            l_ent_or_ext = ENTRY\<rparr>],
       label := ''B'',
       stderr1 := [(2, ''A label was declared internal and was not defined in this file'')]\<rparr>) \<and>
   first_pass_scan [] ''X: .data 1\<newline>Y:\<newline>X: stop\<newline>stop\<newline>'' False =
     Continue ((initial_pass1 True)\<lparr>dc := 1, ic := 1, line_count := 4, dataset := [1],
       ins_set := [960],
       label_set :=
         [\<lparr>l_name = ''X'', l_address = 0, l_data_or_ins = DATA, l_ent_or_ext = REGULAR\<rparr>,
          \<lparr>l_name = ''X'', l_address = 0, l_data_or_ins = INS, l_ent_or_ext = ENTRY\<rparr>],
       label := ''X'',
       stderr1 := [(2, ''No content after label''),
                   (3, ''A label with the same name already exists'')]\<rparr>)"
  by code_simp

subsection \<open>The line of an undefined entry\<close>

text \<open>
Claim C9 (line of an undefined \<^verbatim>\<open>.entry\<close>). The placeholder keeps \<^verbatim>\<open>(unsigned char)line_count\<close>
  in its address field, and the end of the pass reports the error at the value of that
  field. A declaration on line 256 (after 255 blank lines) is stored as 0 and reported
  at line 0; on line 3 it is stored and reported as 3.
\<close>

theorem entry_line_number_truncated:
  "first_pass_scan [] (replicate 255 (CHR 0x0A) @ ''.entry K\<newline>'') False =
     Continue ((initial_pass1 True)\<lparr>line_count := 256,
       label_set :=
         [\<lparr>l_name = ''K'', l_address = 0, l_data_or_ins = UNKNOWN_LABEL_TYPE,
            l_ent_or_ext = ENTRY\<rparr>],
       stderr1 := [(0, ''A label was declared internal and was not defined in this file'')]\<rparr>) \<and>
   first_pass_scan [] ''\<newline>\<newline>.entry K\<newline>'' False =
     Continue ((initial_pass1 True)\<lparr>line_count := 3,
       label_set :=
         [\<lparr>l_name = ''K'', l_address = 3, l_data_or_ins = UNKNOWN_LABEL_TYPE,
            l_ent_or_ext = ENTRY\<rparr>],
       stderr1 := [(3, ''A label was declared internal and was not defined in this file'')]\<rparr>)"
  by code_simp

subsection \<open>A label before .entry or .extern\<close>

lemma is_valid_label_True:
  "is_valid_label lab state st = Some (True, st') \<Longrightarrow>
     st' = st \<and> lab \<noteq> [] \<and> list_all (\<lambda>c. isdigit c \<or> isalpha c) lab"
  by (cases lab)
     (auto simp: is_valid_label_def deref_def isalpha_def Let_def
           split: if_splits option.splits)

lemma alnum_not_space:
  "isdigit c \<or> isalpha c \<Longrightarrow> \<not> isspace c"
  by (auto simp: isdigit_def isalpha_def isspace_def Let_def)

lemma takeWhile_word:
  assumes "list_all (\<lambda>c. isdigit c \<or> isalpha c) lab" and "sp \<noteq> []" and "isspace (hd sp)"
  shows "takeWhile (\<lambda>c. \<not> isspace c) (lab @ CHR '':'' # sp @ body) = lab @ [CHR '':'']"
proof -
  from assms(2) obtain c cs where sp: "sp = c # cs" by (cases sp) auto
  from assms(1) have a: "\<forall>x\<in>set lab. \<not> isspace x"
    using alnum_not_space by (fastforce simp: list_all_iff)
  have b: "\<not> isspace (CHR '':'')" by (simp add: isspace_def)
  from a have "takeWhile (\<lambda>c. \<not> isspace c) (lab @ CHR '':'' # sp @ body) =
        lab @ takeWhile (\<lambda>c. \<not> isspace c) (CHR '':'' # sp @ body)"
    by (simp add: takeWhile_append2)
  with b sp assms(3) show ?thesis by simp
qed

lemma add_label_flag:
  "label_flag (snd (add_label t nm k e)) = label_flag t"
  by (simp add: add_label_def split: option.splits)

lemma add_label_with_label:
  "add_label (t\<lparr>label := lab\<rparr>) nm k e = (0, (snd (add_label t nm k e))\<lparr>label := lab\<rparr>)"
  "fst (add_label t nm k e) = 0"
  by (simp_all add: add_label_def split: option.splits)

lemma entry_directive_with_label:
  "\<exists>s. entry_directive l (st\<lparr>label_flag := False\<rparr>) = Continue s \<and>
       entry_directive l (st\<lparr>label := lab, label_flag := False\<rparr>) = Continue (s\<lparr>label := lab\<rparr>) \<and>
       \<not> label_flag s"
proof -
  define w where "w = WORD_LEN + 2"
  define t where "t = st\<lparr>label_flag := False\<rparr>"
  have t: "st\<lparr>label := lab, label_flag := False\<rparr> = t\<lparr>label := lab\<rparr>"
    by (simp add: t_def)
  note al = add_label_with_label
  have f: "FATAL_ERROR \<noteq> 0" by (simp add: FATAL_ERROR_def)
  have tf: "\<not> label_flag t" by (simp add: t_def)
  show ?thesis
    unfolding t t_def [symmetric] entry_directive_def Let_def w_def [symmetric]
    using al(2) [of t "copy_first_word l w" UNKNOWN_LABEL_TYPE ENTRY] f tf
      add_label_flag [of t "copy_first_word l w" UNKNOWN_LABEL_TYPE ENTRY]
    by (cases "add_label t (copy_first_word l w) UNKNOWN_LABEL_TYPE ENTRY")
       (auto simp: al(1) after_label_name_def input_error_def report_error_pass_def
             split: prod.splits)
qed

lemma extern_directive_with_label:
  "\<exists>s. extern_directive l (st\<lparr>label_flag := False\<rparr>) = Continue s \<and>
       extern_directive l (st\<lparr>label := lab, label_flag := False\<rparr>) = Continue (s\<lparr>label := lab\<rparr>) \<and>
       \<not> label_flag s"
proof -
  define w where "w = WORD_LEN + 2"
  define t where "t = st\<lparr>label_flag := False\<rparr>"
  have t: "st\<lparr>label := lab, label_flag := False\<rparr> = t\<lparr>label := lab\<rparr>"
    by (simp add: t_def)
  note al = add_label_with_label
  have f: "FATAL_ERROR \<noteq> 0" by (simp add: FATAL_ERROR_def)
  have tf: "\<not> label_flag t" by (simp add: t_def)
  show ?thesis
    unfolding t t_def [symmetric] extern_directive_def Let_def w_def [symmetric]
    using al(2) [of t "copy_first_word l w" INS EXTERNAL] f tf
      add_label_flag [of t "copy_first_word l w" INS EXTERNAL]
    by (cases "add_label t (copy_first_word l w) INS EXTERNAL")
       (auto simp: al(1) after_label_name_def input_error_def report_error_pass_def
             split: prod.splits)
qed

lemma is_valid_label_with_label:
  "is_valid_label lab state st = Some (True, st') \<Longrightarrow>
     is_valid_label lab state (st\<lparr>label := x\<rparr>) = Some (True, st\<lparr>label := x\<rparr>)"
  by (auto simp: is_valid_label_def Let_def split: if_splits option.splits)

lemma first_word_directive:
  assumes "copy_first_word t (WORD_LEN + 2) = w" and "length w \<le> WORD_LEN"
  shows "copy_first_word (CHR ''.'' # t) (WORD_LEN + 2) = CHR ''.'' # w"
proof -
  define u where "u = takeWhile (\<lambda>c. \<not> isspace c) t"
  from assms(1) have w: "take 31 u = w"
    by (simp add: copy_first_word_def u_def WORD_LEN_def)
  with assms(2) have "length u \<le> 30"
    by (cases "length u \<le> 30") (auto simp: WORD_LEN_def)
  with w have "u = w" by simp
  moreover have "\<not> isspace (CHR ''.'')" by (simp add: isspace_def)
  ultimately show ?thesis using assms(2)
    by (simp add: copy_first_word_def u_def WORD_LEN_def)
qed

lemma after_label_entry:
  assumes "deref body = CHR ''.''" and "copy_first_word (tl body) (WORD_LEN + 2) = ''entry''"
  shows "after_label body fw n st =
           entry_directive (delete_white (drop 5 (tl body))) (st\<lparr>label_flag := False\<rparr>)"
proof -
  from assms(2) have "tl body \<noteq> []" by (auto simp: copy_first_word_def)
  with assms show ?thesis
    unfolding after_label_def Let_def by (auto simp: eval_nat_numeral)
qed

lemma after_label_extern:
  assumes "deref body = CHR ''.''" and "copy_first_word (tl body) (WORD_LEN + 2) = ''extern''"
  shows "after_label body fw n st =
           extern_directive (delete_white (drop 6 (tl body))) (st\<lparr>label_flag := False\<rparr>)"
proof -
  from assms(2) have "tl body \<noteq> []" by (auto simp: copy_first_word_def)
  with assms show ?thesis
    unfolding after_label_def Let_def by (auto simp: eval_nat_numeral)
qed

lemma directive_line:
  assumes "list_all isspace ws" and "deref body = CHR ''.''"
      and "copy_first_word (tl body) (WORD_LEN + 2) = w" and "w = ''entry'' \<or> w = ''extern''"
  shows "first_pass_line state (ws @ body) st = after_label body (CHR ''.'' # w) (Suc (length w)) st"
proof -
  from assms(2) obtain t where body: "body = CHR ''.'' # t"
    by (cases body) (auto simp: deref_def)
  have ns: "\<not> isspace (CHR ''.'')" by (simp add: isspace_def)
  from assms(1) have "\<forall>c\<in>set ws. isspace c" by (simp add: list_all_iff)
  then have dw: "delete_white (ws @ body) = body"
    using ns by (simp add: delete_white_def body dropWhile_append2)
  have d0: "deref (ws @ body) \<noteq> CHR '';''"
  proof (cases ws)
    case Nil then show ?thesis by (simp add: body deref_def)
  next
    case (Cons c cs)
    with assms(1) have "isspace c" by simp
    then have "c \<noteq> CHR '';''" by (auto simp: isspace_def)
    with Cons show ?thesis by (simp add: deref_def)
  qed
  from assms(4) have lw: "length w \<le> WORD_LEN" by (auto simp: WORD_LEN_def)
  from assms(3) body have "copy_first_word t (WORD_LEN + 2) = w" by simp
  from first_word_directive [OF this lw]
  have fw: "copy_first_word body (WORD_LEN + 2) = CHR ''.'' # w" by (simp add: body)
  from assms(4) have la: "last (CHR ''.'' # w) \<noteq> CHR '':''" by auto
  show ?thesis
    unfolding first_pass_line_def Let_def dw fw
    using d0 la by (simp add: body deref_def)
qed

lemma labelled_line:
  assumes "is_valid_label lab state st = Some (True, st')"
      and "length lab \<le> WORD_LEN"
      and "list_all isspace ws" and "sp \<noteq> []" and "list_all isspace sp"
      and "deref body = CHR ''.''"
  shows "first_pass_line state (ws @ lab @ CHR '':'' # sp @ body) st =
           after_label body lab (Suc (length lab)) (st\<lparr>label := lab, label_flag := True\<rparr>)"
proof -
  from is_valid_label_True [OF assms(1)]
  have lab: "lab \<noteq> []" "list_all (\<lambda>c. isdigit c \<or> isalpha c) lab" by simp_all
  from assms(6) obtain t where body: "body = CHR ''.'' # t"
    by (cases body) (auto simp: deref_def)
  from lab(1) obtain a as where las: "lab = a # as" by (cases lab) auto
  with lab(2) have a: "isdigit a \<or> isalpha a" by simp
  from a have a1: "\<not> isspace a" by (rule alnum_not_space)
  from a have a2: "a \<noteq> CHR '';''" by (auto simp: isdigit_def isalpha_def Let_def)
  have ns: "\<not> isspace (CHR ''.'')" by (simp add: isspace_def)
  from assms(3) have ws: "\<forall>c\<in>set ws. isspace c" by (simp add: list_all_iff)
  from assms(5) have sps: "\<forall>c\<in>set sp. isspace c" by (simp add: list_all_iff)
  from assms(4,5) have hsp: "isspace (hd sp)" by (cases sp) auto
  define line_p where "line_p = lab @ CHR '':'' # sp @ body"
  from ws a1 have dw: "delete_white (ws @ line_p) = line_p"
    by (simp add: delete_white_def line_p_def las dropWhile_append2)
  have d0: "deref (ws @ line_p) \<noteq> CHR '';''"
  proof (cases ws)
    case Nil with a2 show ?thesis by (simp add: line_p_def las deref_def)
  next
    case (Cons c cs)
    with assms(3) have "isspace c" by simp
    then have "c \<noteq> CHR '';''" by (auto simp: isspace_def)
    with Cons show ?thesis by (simp add: deref_def)
  qed
  have d1: "deref line_p \<noteq> CHR '';''" "line_p \<noteq> []"
    using a2 by (simp_all add: line_p_def las deref_def)
  from takeWhile_word [OF lab(2) assms(4) hsp, of body] assms(2)
  have fw: "copy_first_word line_p (WORD_LEN + 2) = lab @ [CHR '':'']"
    by (simp add: copy_first_word_def line_p_def WORD_LEN_def)
  from sps ns have dl: "delete_white (drop (length (lab @ [CHR '':''])) line_p) = body"
    by (simp add: line_p_def delete_white_def body dropWhile_append2)
  from is_valid_label_with_label [OF assms(1), of lab]
  have iv: "is_valid_label lab state (st\<lparr>label := lab\<rparr>) = Some (True, st\<lparr>label := lab\<rparr>)" .
  show ?thesis
    unfolding line_p_def [symmetric] first_pass_line_def Let_def dw fw dl
    using d0 d1 by (simp add: iv)
qed

text \<open>
Claim C10 (a label before \<^verbatim>\<open>.entry\<close> or \<^verbatim>\<open>.extern\<close>). Take a line \<^verbatim>\<open>L: .entry X\<close> or
  \<^verbatim>\<open>L: .extern X\<close>: a label \<open>lab\<close> of at most 30 characters that \<^verbatim>\<open>is_valid_label\<close> accepts,
  its colon, at least one blank, and a directive whose name is \<^verbatim>\<open>entry\<close> or \<^verbatim>\<open>extern\<close>.
  The line and the same line without the label and its colon both make the loop go on
  to the next line, and they leave the same state of the first pass (symbol table, IC,
  DC, error flag, diagnostics, images, pending references) but for the buffer \<^verbatim>\<open>label\<close>,
  which holds \<open>lab\<close> and is not read again since \<^verbatim>\<open>label_flag\<close> is cleared.
\<close>

theorem label_before_directive_discarded:
  assumes "is_valid_label lab state st = Some (True, st)"
      and "length lab \<le> WORD_LEN"
      and "list_all isspace ws" and "sp \<noteq> []" and "list_all isspace sp"
      and "deref body = CHR ''.''"
      and "copy_first_word (tl body) (WORD_LEN + 2) = ''entry'' \<or>
           copy_first_word (tl body) (WORD_LEN + 2) = ''extern''"
  shows "\<exists>s. first_pass_line state (ws @ sp @ body) st = Continue s \<and>
             first_pass_line state (ws @ lab @ CHR '':'' # sp @ body) st =
               Continue (s\<lparr>label := lab\<rparr>) \<and>
             \<not> label_flag s"
proof -
  from assms(3,5) have wsp: "list_all isspace (ws @ sp)" by simp
  note l = labelled_line [OF assms(1-6)]
  from assms(7) show ?thesis
  proof
    assume e: "copy_first_word (tl body) (WORD_LEN + 2) = ''entry''"
    from directive_line [OF wsp assms(6) e, of state st]
    have u: "first_pass_line state (ws @ sp @ body) st =
               entry_directive (delete_white (drop 5 (tl body))) (st\<lparr>label_flag := False\<rparr>)"
      by (simp add: after_label_entry [OF assms(6) e])
    from l have p: "first_pass_line state (ws @ lab @ CHR '':'' # sp @ body) st =
               entry_directive (delete_white (drop 5 (tl body)))
                 (st\<lparr>label := lab, label_flag := False\<rparr>)"
      by (simp add: after_label_entry [OF assms(6) e])
    from entry_directive_with_label [of "delete_white (drop 5 (tl body))" st lab] u p
    show ?thesis by auto
  next
    assume e: "copy_first_word (tl body) (WORD_LEN + 2) = ''extern''"
    from directive_line [OF wsp assms(6) e, of state st]
    have u: "first_pass_line state (ws @ sp @ body) st =
               extern_directive (delete_white (drop 6 (tl body))) (st\<lparr>label_flag := False\<rparr>)"
      by (simp add: after_label_extern [OF assms(6) e])
    from l have p: "first_pass_line state (ws @ lab @ CHR '':'' # sp @ body) st =
               extern_directive (delete_white (drop 6 (tl body)))
                 (st\<lparr>label := lab, label_flag := False\<rparr>)"
      by (simp add: after_label_extern [OF assms(6) e])
    from extern_directive_with_label [of "delete_white (drop 6 (tl body))" st lab] u p
    show ?thesis by auto
  qed
qed

theorem label_before_directive_discarded_witness:
  "is_valid_label ''L'' [] (initial_pass1 False) = Some (True, initial_pass1 False) \<and>
   first_pass_line [] '' .entry X\<newline>'' (initial_pass1 False) =
     Continue ((initial_pass1 False)\<lparr>label_set :=
       [\<lparr>l_name = ''X'', l_address = 0, l_data_or_ins = UNKNOWN_LABEL_TYPE,
          l_ent_or_ext = ENTRY\<rparr>]\<rparr>) \<and>
   first_pass_line [] ''L: .entry X\<newline>'' (initial_pass1 False) =
     Continue ((initial_pass1 False)\<lparr>label_set :=
       [\<lparr>l_name = ''X'', l_address = 0, l_data_or_ins = UNKNOWN_LABEL_TYPE,
          l_ent_or_ext = ENTRY\<rparr>], label := ''L''\<rparr>)"
proof -
  have h1: "is_valid_label ''L'' [] (initial_pass1 False) = Some (True, initial_pass1 False)"
    by code_simp
  have h2: "length ''L'' \<le> WORD_LEN" by (simp add: WORD_LEN_def)
  have h3: "list_all isspace []" by simp
  have h4: "'' '' \<noteq> []" by simp
  have h5: "list_all isspace '' ''" by (simp add: isspace_def)
  have h6: "deref ''.entry X\<newline>'' = CHR ''.''" by (simp add: deref_def)
  have h7: "copy_first_word (tl ''.entry X\<newline>'') (WORD_LEN + 2) = ''entry'' \<or>
            copy_first_word (tl ''.entry X\<newline>'') (WORD_LEN + 2) = ''extern''"
    by code_simp
  have u: "first_pass_line [] '' .entry X\<newline>'' (initial_pass1 False) =
     Continue ((initial_pass1 False)\<lparr>label_set :=
       [\<lparr>l_name = ''X'', l_address = 0, l_data_or_ins = UNKNOWN_LABEL_TYPE,
          l_ent_or_ext = ENTRY\<rparr>]\<rparr>)"
    by code_simp
  from label_before_directive_discarded [OF h1 h2 h3 h4 h5 h6 h7]
  obtain s where
    s: "first_pass_line [] ([] @ '' '' @ ''.entry X\<newline>'') (initial_pass1 False) = Continue s"
       "first_pass_line [] ([] @ ''L'' @ CHR '':'' # '' '' @ ''.entry X\<newline>'')
          (initial_pass1 False) = Continue (s\<lparr>label := ''L''\<rparr>)"
    by blast
  from s(1) u have "s = (initial_pass1 False)\<lparr>label_set :=
       [\<lparr>l_name = ''X'', l_address = 0, l_data_or_ins = UNKNOWN_LABEL_TYPE,
          l_ent_or_ext = ENTRY\<rparr>]\<rparr>" by simp
  with s(2) h1 u show ?thesis by simp
qed

subsection \<open>The directive .mat\<close>

text \<open>
  The tokens that the successive calls \<^verbatim>\<open>strtok(NULL, ", \t\n")\<close> return from the saved
  pointer \<open>sv\<close>, up to the first \<^verbatim>\<open>NULL\<close>.
\<close>

function tokens :: "string \<Rightarrow> string list" where
  "tokens sv =
     (case strtok delims_comma_ws sv of
        (None, sv') \<Rightarrow> []
      | (Some token, sv') \<Rightarrow> token # tokens sv')"
  by pat_completeness auto
termination
  by (relation "measure length") (simp_all add: strtok_shorter [OF sym])

declare tokens.simps [simp del]

text \<open>
  A token that \<^verbatim>\<open>is_valid_num\<close> accepts as a data word: \<^verbatim>\<open>strtol\<close> reads all of it and
  the value has 10 bits.
\<close>

definition data_token :: "string \<Rightarrow> bool" where
  "data_token t = (snd (strtol t) = [] \<and> - 512 \<le> fst (strtol t) \<and> fst (strtol t) \<le> 511)"

lemma check_mat_def_accepts:
  "check_mat_def m DATA st = (0, r, c, st') \<Longrightarrow>
     st' = st \<and> 0 \<le> r \<and> r \<le> INT_MAX \<and> 0 \<le> c \<and> c \<le> INT_MAX"
  by (auto simp: check_mat_def_def Let_def ERROR_OCCURRED_def split: prod.splits if_splits)

lemma commas_loop_accepts:
  "commas_loop s i e w st = (True, st') \<Longrightarrow> st' = st"
  by (induction s i e w st rule: commas_loop.induct) (auto split: if_splits)

lemma is_valid_commas_accepts:
  "is_valid_commas s st = (True, st') \<Longrightarrow> st' = st"
  by (auto simp: is_valid_commas_def commas_loop_accepts split: if_splits)

lemma is_valid_num_data_token:
  "data_token t \<Longrightarrow> is_valid_num t DATA st = (fst (strtol t), st) \<and> fst (strtol t) \<noteq> INT_MIN"
  by (cases "strtol t")
     (auto simp: data_token_def is_valid_num_def to_int32_def INT_MIN_def)

lemma add_data_room:
  "ic st + dc st < MEM_AVAIL_WORDS \<Longrightarrow>
     add_data st w = (0, st\<lparr>dc := dc st + 1, dataset := dataset st @ [w]\<rparr>)"
  by (simp add: add_data_def add.commute)

lemma mat_fill_zeros:
  "ic st + dc st + int n \<le> MEM_AVAIL_WORDS \<Longrightarrow>
     mat_fill (int n) st =
       (0, st\<lparr>dc := dc st + int n, dataset := dataset st @ replicate n 0\<rparr>)"
proof (induction n arbitrary: st)
  case 0
  show ?case by (simp add: mat_fill.simps [of 0])
next
  case (Suc n)
  let ?st1 = "st\<lparr>dc := dc st + 1, dataset := dataset st @ [0]\<rparr>"
  from Suc.prems have a: "add_data st 0 = (0, ?st1)"
    by (intro add_data_room) simp
  from Suc.prems have "ic ?st1 + dc ?st1 + int n \<le> MEM_AVAIL_WORDS" by simp
  from Suc.IH [OF this]
  have "mat_fill (int n) ?st1 =
          (0, st\<lparr>dc := dc st + int (Suc n), dataset := dataset st @ replicate (Suc n) 0\<rparr>)"
    by (simp add: replicate_app_Cons_same add.assoc)
  with a show ?case
    by (subst mat_fill.simps) (simp add: FATAL_ERROR_def)
qed

lemma tokens_Nil: "tokens sv = [] \<Longrightarrow> fst (strtok delims_comma_ws sv) = None"
  by (cases "strtok delims_comma_ws sv")
     (auto simp: tokens.simps [of sv] split: option.splits)

lemma tokens_Cons:
  "tokens sv = t # ts \<Longrightarrow>
     \<exists>sv'. strtok delims_comma_ws sv = (Some t, sv') \<and> tokens sv' = ts"
  by (cases "strtok delims_comma_ws sv")
     (auto simp: tokens.simps [of sv] split: option.splits)

lemma mat_loop_step:
  assumes "strtok delims_comma_ws sv = (Some t, sv')" and "data_token t"
      and "ic st + dc st < MEM_AVAIL_WORDS"
  shows "mat_loop sv (int (Suc m)) st =
           mat_loop sv' (int m) (st\<lparr>dc := dc st + 1, dataset := dataset st @ [fst (strtol t)]\<rparr>)"
proof -
  from is_valid_num_data_token [OF assms(2), of st]
  have v: "is_valid_num t DATA st = (fst (strtol t), st)" "fst (strtol t) \<noteq> INT_MIN"
    by simp_all
  from add_data_room [OF assms(3), of "fst (strtol t)"] assms(1) v show ?thesis
    by (subst mat_loop.simps) (simp add: FATAL_ERROR_def)
qed

lemma mat_loop_values:
  assumes "tokens sv = toks" and "list_all data_token toks"
      and "ic st + dc st + int n \<le> MEM_AVAIL_WORDS" and "length toks \<le> n"
  shows "mat_loop sv (int n) st =
           (0, st\<lparr>dc := dc st + int n,
                   dataset := dataset st @ map (\<lambda>t. fst (strtol t)) toks @
                              replicate (n - length toks) 0\<rparr>)"
  using assms
proof (induction toks arbitrary: sv n st)
  case Nil
  from tokens_Nil [OF Nil.prems(1)] obtain sv' where
    k: "strtok delims_comma_ws sv = (None, sv')"
    by (cases "strtok delims_comma_ws sv") auto
  from mat_fill_zeros [OF Nil.prems(3)] k show ?case
    by (subst mat_loop.simps) simp
next
  case (Cons t ts)
  from tokens_Cons [OF Cons.prems(1)] obtain sv' where
    k: "strtok delims_comma_ws sv = (Some t, sv')" and ts: "tokens sv' = ts" by blast
  from Cons.prems(4) obtain m where n: "n = Suc m" by (cases n) auto
  from Cons.prems(2) have dt: "data_token t" and dts: "list_all data_token ts" by simp_all
  from Cons.prems(3) n have r: "ic st + dc st < MEM_AVAIL_WORDS" by simp
  let ?st1 = "st\<lparr>dc := dc st + 1, dataset := dataset st @ [fst (strtol t)]\<rparr>"
  from Cons.prems(3) n have r1: "ic ?st1 + dc ?st1 + int m \<le> MEM_AVAIL_WORDS" by simp
  from Cons.prems(4) n have l: "length ts \<le> m" by simp
  from Cons.IH [OF ts dts r1 l] show ?case
    unfolding n mat_loop_step [OF k dt r] by (simp add: add.assoc)
qed

lemma mat_loop_overflow:
  assumes "tokens sv = toks" and "list_all data_token toks"
      and "ic st + dc st + int n \<le> MEM_AVAIL_WORDS" and "n < length toks"
  shows "mat_loop sv (int n) st =
           (0, input_error
                 (st\<lparr>dc := dc st + int n,
                     dataset := dataset st @ map (\<lambda>t. fst (strtol t)) (take n toks)\<rparr>)
                 ''There are unnecessary parameter(s), overflow from the defined matrix'')"
  using assms
proof (induction toks arbitrary: sv n st)
  case Nil
  then show ?case by simp
next
  case (Cons t ts)
  from tokens_Cons [OF Cons.prems(1)] obtain sv' where
    k: "strtok delims_comma_ws sv = (Some t, sv')" and ts: "tokens sv' = ts" by blast
  show ?case
  proof (cases n)
    case 0
    with k show ?thesis by (subst mat_loop.simps) simp
  next
    case (Suc m)
    from Cons.prems(2) have dt: "data_token t" and dts: "list_all data_token ts" by simp_all
    from Cons.prems(3) Suc have r: "ic st + dc st < MEM_AVAIL_WORDS" by simp
    let ?st1 = "st\<lparr>dc := dc st + 1, dataset := dataset st @ [fst (strtol t)]\<rparr>"
    from Cons.prems(3) Suc have r1: "ic ?st1 + dc ?st1 + int m \<le> MEM_AVAIL_WORDS" by simp
    from Cons.prems(4) Suc have l: "m < length ts" by simp
    from Cons.IH [OF ts dts r1 l] show ?thesis
      unfolding Suc mat_loop_step [OF k dt r] by (simp add: add.assoc input_error_def report_error_pass_def)
  qed
qed

lemma isdigit_facts:
  "isdigit c \<Longrightarrow> \<not> isspace c \<and> c \<noteq> CHR ''-'' \<and> c \<noteq> CHR ''+'' \<and> c \<noteq> CHR '']'' \<and>
     c \<noteq> CHR ''['' \<and> 0 \<le> (of_char c :: int) - 48 \<and> (of_char c :: int) - 48 \<le> 9"
proof -
  assume a: "isdigit c"
  have i: "(of_char c :: int) = int (of_char c)" by (simp add: of_nat_of_char)
  from a have n: "48 \<le> (of_char c :: nat)" "(of_char c :: nat) \<le> 57"
    by (simp_all add: isdigit_def Let_def)
  from a have "\<not> isspace c \<and> c \<noteq> CHR ''-'' \<and> c \<noteq> CHR ''+'' \<and> c \<noteq> CHR '']'' \<and> c \<noteq> CHR ''[''"
    by (auto simp: isdigit_def isspace_def Let_def)
  with n show ?thesis unfolding i by simp
qed

lemma foldl_digits_nonneg:
  "list_all isdigit ds \<Longrightarrow> 0 \<le> a \<Longrightarrow>
     0 \<le> foldl (\<lambda>a c. 10 * a + (of_char c - 48)) (a::int) ds"
proof (induction ds arbitrary: a)
  case Nil
  then show ?case by simp
next
  case (Cons d ds)
  from Cons.prems(1) have "isdigit d" by simp
  from isdigit_facts [OF this] Cons.prems(2) have "0 \<le> 10 * a + (of_char d - 48)" by simp
  with Cons show ?case by simp
qed

lemma digits_value_nonneg: "list_all isdigit ds \<Longrightarrow> 0 \<le> digits_value ds"
  unfolding digits_value_def by (rule foldl_digits_nonneg) simp_all

lemma strtol_digits:
  assumes "ds \<noteq> []" and "list_all isdigit ds" and "\<not> isdigit (deref r)"
      and "digits_value ds \<le> LONG_MAX"
  shows "strtol (ds @ r) = (digits_value ds, r)"
proof -
  from assms(1) obtain d ds' where ds: "ds = d # ds'" by (cases ds) auto
  with assms(2) have d: "isdigit d" by simp
  note df = isdigit_facts [OF d]
  from assms(2) have all: "\<forall>c\<in>set ds. isdigit c" by (simp add: list_all_iff)
  have s1: "dropWhile isspace (ds @ r) = ds @ r" using df by (simp add: ds)
  have dr: "deref (ds @ r) = d" by (simp add: ds deref_def)
  from assms(3) have r: "r = [] \<or> \<not> isdigit (hd r)"
    by (cases r) (auto simp: deref_def)
  from all r have tw: "takeWhile isdigit (ds @ r) = ds"
    by (cases r) (auto simp: takeWhile_append2)
  from all r have dw: "dropWhile isdigit (ds @ r) = r"
    by (cases r) (auto simp: dropWhile_append2)
  from digits_value_nonneg [OF assms(2)] have nn: "0 \<le> digits_value ds" .
  have "LONG_MIN \<le> 0" by (simp add: LONG_MIN_def)
  with nn assms(4) have cl: "max LONG_MIN (min LONG_MAX (digits_value ds)) = digits_value ds"
    by simp
  from df assms(1) cl show ?thesis
    by (simp add: strtol_def Let_def s1 dr tw dw)
qed

lemma check_mat_def_brackets:
  assumes "rd \<noteq> []" and "list_all isdigit rd" and "cd \<noteq> []" and "list_all isdigit cd"
      and "digits_value rd \<le> INT_MAX" and "digits_value cd \<le> INT_MAX"
  shows "check_mat_def (''['' @ rd @ '']['' @ cd @ '']'') DATA st =
           (0, digits_value rd, digits_value cd, st)"
proof -
  have im: "INT_MAX \<le> LONG_MAX" by (simp add: INT_MAX_def LONG_MAX_def)
  have nd: "\<not> isdigit (deref ('']['' @ cd @ '']''))" "\<not> isdigit (deref '']'')"
    by (simp_all add: deref_def isdigit_def)
  from strtol_digits [OF assms(1,2) nd(1)] assms(5) im
  have r: "strtol (rd @ '']['' @ cd @ '']'') = (digits_value rd, '']['' @ cd @ '']'')" by simp
  from strtol_digits [OF assms(3,4) nd(2)] assms(6) im
  have c: "strtol (cd @ '']'') = (digits_value cd, '']'')" by simp
  from assms(1) have n1: "'']['' @ cd @ '']'' \<noteq> rd @ '']['' @ cd @ '']''"
    by (auto dest: arg_cong [where f = length])
  from assms(3) have n2: "'']'' \<noteq> cd @ '']''"
    by (auto dest: arg_cong [where f = length])
  from digits_value_nonneg [OF assms(2)] digits_value_nonneg [OF assms(4)]
  have nn: "0 \<le> digits_value rd" "0 \<le> digits_value cd" .
  show ?thesis
    unfolding check_mat_def_def Let_def
    using r c n1 n2 nn assms(5,6) by (simp add: deref_def)
qed

lemma delims_ws_isspace: "c \<in> set delims_ws \<Longrightarrow> isspace c \<and> c \<in> set delims_comma_ws"
  by (auto simp: delims_ws_def delims_comma_ws_def isspace_def)

lemma mat_def_chars:
  assumes "list_all isdigit rd" and "list_all isdigit cd"
      and "c \<in> set (''['' @ rd @ '']['' @ cd @ '']'')"
  shows "\<not> isspace c \<and> c \<notin> set delims_ws"
proof -
  from assms have "isdigit c \<or> c = CHR ''['' \<or> c = CHR '']''"
    by (auto simp: list_all_iff)
  then have "\<not> isspace c"
    using isdigit_facts [of c] by (auto simp: isspace_def)
  with delims_ws_isspace [of c] show ?thesis by blast
qed

lemma tokens_skip:
  "c \<in> set delims_comma_ws \<Longrightarrow> tokens (c # t) = tokens t"
proof -
  assume "c \<in> set delims_comma_ws"
  then have "strtok delims_comma_ws (c # t) = strtok delims_comma_ws t"
    by (simp add: strtok_def)
  then show ?thesis
    by (simp add: tokens.simps [of "c # t"] tokens.simps [of t])
qed

lemma tokens_drop1:
  "tail = [] \<or> hd tail \<in> set delims_ws \<Longrightarrow> tokens (drop 1 tail) = tokens tail"
  by (cases tail) (auto simp: tokens_skip dest: delims_ws_isspace)

lemma commas_loop_state:
  "fst (commas_loop s i e w st) = fst (commas_loop s i e w st')"
  by (induction s i e w st rule: commas_loop.induct) auto

lemma is_valid_commas_state:
  "fst (is_valid_commas s st) \<Longrightarrow> is_valid_commas s st' = (True, st')"
proof -
  assume a: "fst (is_valid_commas s st)"
  then have "fst (is_valid_commas s st')"
    using commas_loop_state [of s 0 False False st st']
    by (simp add: is_valid_commas_def split: if_splits)
  then show ?thesis
    using is_valid_commas_accepts [of s st' "snd (is_valid_commas s st')"]
    by (cases "is_valid_commas s st'") auto
qed

lemma command_word:
  assumes "sp \<noteq> []" and "set sp \<subseteq> set delims_ws"
  shows "copy_first_word (''mat'' @ sp @ x) (CMD_LEN + 1) = ''mat''"
    and "strtok delims_ws (''mat'' @ sp @ x) = (Some ''mat'', tl sp @ x)"
    and "delete_white (drop 3 (''mat'' @ sp @ x)) = delete_white x"
proof -
  from assms obtain c cs where sp: "sp = c # cs" and c: "c \<in> set delims_ws"
    and cs: "set cs \<subseteq> set delims_ws"
    by (cases sp) auto
  from delims_ws_isspace [OF c] have ic: "isspace c" by simp
  have m: "\<not> isspace (CHR ''m'')" "\<not> isspace (CHR ''a'')" "\<not> isspace (CHR ''t'')"
    "CHR ''m'' \<notin> set delims_ws" "CHR ''a'' \<notin> set delims_ws" "CHR ''t'' \<notin> set delims_ws"
    by (simp_all add: isspace_def delims_ws_def)
  from ic m show "copy_first_word (''mat'' @ sp @ x) (CMD_LEN + 1) = ''mat''"
    by (simp add: copy_first_word_def sp CMD_LEN_def)
  from c m show "strtok delims_ws (''mat'' @ sp @ x) = (Some ''mat'', tl sp @ x)"
    by (simp add: strtok_def sp)
  from assms(2) have "\<forall>c\<in>set sp. isspace c" by (auto dest: delims_ws_isspace)
  then show "delete_white (drop 3 (''mat'' @ sp @ x)) = delete_white x"
    by (simp add: delete_white_def dropWhile_append)
qed

lemma definition_word:
  assumes "list_all isdigit rd" and "list_all isdigit cd"
      and "d = ''['' @ rd @ '']['' @ cd @ '']''" and "length d \<le> WORD_LEN"
      and "tail = [] \<or> hd tail \<in> set delims_ws" and "set ws \<subseteq> set delims_ws"
  shows "copy_first_word (d @ tail) (WORD_LEN + 1) = d"
    and "strtok delims_ws (ws @ d @ tail) = (Some d, drop 1 tail)"
    and "delete_white (d @ tail) = d @ tail"
proof -
  from mat_def_chars [OF assms(1,2)] assms(3)
  have ch: "\<forall>c\<in>set d. \<not> isspace c" "\<forall>c\<in>set d. c \<notin> set delims_ws" by simp_all
  from assms(3) have ne: "d \<noteq> []" by simp
  from assms(5) have t: "tail = [] \<or> isspace (hd tail)" by (auto dest: delims_ws_isspace)
  from ch(1) t have "takeWhile (\<lambda>c. \<not> isspace c) (d @ tail) = d"
    by (cases tail) (auto simp: takeWhile_append2)
  with assms(4) show "copy_first_word (d @ tail) (WORD_LEN + 1) = d"
    by (simp add: copy_first_word_def)
  from assms(6) have "\<forall>c\<in>set ws. c \<in> set delims_ws" by auto
  moreover from ne ch(2) have "hd (d @ tail) \<notin> set delims_ws" by (cases d) auto
  ultimately have s1: "dropWhile (\<lambda>c. c \<in> set delims_ws) (ws @ d @ tail) = d @ tail"
    using ne by (cases d) (auto simp: dropWhile_append)
  from ch(2) assms(5) have tk: "takeWhile (\<lambda>c. c \<notin> set delims_ws) (d @ tail) = d"
    by (cases tail) (auto simp: takeWhile_append2)
  from ch(2) assms(5) have dk: "dropWhile (\<lambda>c. c \<notin> set delims_ws) (d @ tail) = tail"
    by (cases tail) (auto simp: dropWhile_append2)
  from ne show "strtok delims_ws (ws @ d @ tail) = (Some d, drop 1 tail)"
    by (simp add: strtok_def Let_def s1 tk dk)
  from ne ch(1) show "delete_white (d @ tail) = d @ tail"
    by (cases d) (auto simp: delete_white_def)
qed

lemma to_int32_id: "- 2147483648 \<le> x \<Longrightarrow> x \<le> 2147483647 \<Longrightarrow> to_int32 x = x"
  by (simp add: to_int32_def)

lemma mat_cmd_values:
  assumes "copy_first_word rest (WORD_LEN + 1) = d"
      and "check_mat_def d DATA st = (0, rows, cols, st)"
      and "0 < rows * cols" and "0 \<le> ic st + dc st"
      and "ic st + dc st + rows * cols \<le> MEM_AVAIL_WORDS"
      and "fst (is_valid_commas (delete_white (drop (length d) rest)) st)"
      and "tokens (snd (strtok delims_ws sv)) = toks" and "list_all data_token toks"
      and "s' = st\<lparr>dc := dc st + rows * cols,
                     dataset := dataset st @
                       map (\<lambda>t. fst (strtol t)) (take (nat (rows * cols)) toks) @
                       replicate (nat (rows * cols) - length toks) 0\<rparr>"
  shows "mat_cmd rest sv st =
           (0, if int (length toks) \<le> rows * cols then s'
               else input_error s'
                      ''There are unnecessary parameter(s), overflow from the defined matrix'')"
proof -
  define n where "n = nat (rows * cols)"
  from assms(3) have n: "int n = rows * cols" by (simp add: n_def)
  from check_mat_def_accepts [OF assms(2)]
  have b: "0 \<le> rows" "rows \<le> INT_MAX" "0 \<le> cols" "cols \<le> INT_MAX" by simp_all
  from b have t1: "to_int32 rows = rows" "to_int32 cols = cols"
    by (simp_all add: to_int32_id INT_MAX_def)
  from assms(4,5) have "rows * cols \<le> 156" by (simp add: MEM_AVAIL_WORDS_def)
  with assms(3) have t2: "to_int32 (rows * cols) = rows * cols"
    by (simp add: to_int32_id)
  from is_valid_commas_state [OF assms(6), of st]
  have cm: "is_valid_commas (delete_white (drop (length d) rest)) st = (True, st)" .
  from assms(5) n have room: "ic st + dc st + int n \<le> MEM_AVAIL_WORDS" by simp
  have e: "ERROR_OCCURRED \<noteq> 0" by (simp add: ERROR_OCCURRED_def)
  from assms(3) have nz: "rows * cols \<noteq> 0" by (cases "rows * cols = 0") simp_all
  have m: "mat_cmd rest sv st = mat_loop (snd (strtok delims_ws sv)) (int n) st"
    unfolding mat_cmd_def Let_def assms(1) assms(2)
    using e nz by (simp add: t1 t2 cm n)
  show ?thesis
  proof (cases "length toks \<le> n")
    case True
    from mat_loop_values [OF assms(7,8) room True] True show ?thesis
      unfolding m assms(9) n_def [symmetric] n [symmetric] by simp
  next
    case False
    then have "n < length toks" by simp
    from mat_loop_overflow [OF assms(7,8) room this] False show ?thesis
      unfolding m assms(9) n_def [symmetric] n [symmetric] by simp
  qed
qed

text \<open>
Claim C8 (the directive \<^verbatim>\<open>.mat\<close>). The line from the command name on is \<^verbatim>\<open>mat\<close>, blanks,
  the definition \<^verbatim>\<open>[rows][cols]\<close> written with decimal digits (at most 30 characters,
  \<open>rows * cols\<close> positive), and a tail that is empty or starts with a blank and holds
  the values: the commas are accepted by \<^verbatim>\<open>is_valid_commas\<close>, every token is an integer
  of 10 bits, and the memory has room for \<open>rows * cols\<close> more words. Then the label of
  the line, if there is one and it is new, enters the table as a data symbol at the
  value of DC before the directive, DC grows by \<open>rows * cols\<close>, and the data image
  gains the first \<open>rows * cols\<close> values in order followed by zeros up to
  \<open>rows * cols\<close> words. With more than \<open>rows * cols\<close> values the same words are
  stored and the error \<^verbatim>\<open>There are unnecessary parameter(s)\<close> is reported.
  No comma stands between the definition and the first value.
\<close>

theorem mat_directive:
  assumes "rd \<noteq> []" and "list_all isdigit rd" and "cd \<noteq> []" and "list_all isdigit cd"
      and "d = ''['' @ rd @ '']['' @ cd @ '']''" and "length d \<le> WORD_LEN"
      and "rows = digits_value rd" and "cols = digits_value cd" and "0 < rows * cols"
      and "sp \<noteq> []" and "set sp \<subseteq> set delims_ws"
      and "tail = [] \<or> hd tail \<in> set delims_ws"
      and "fst (is_valid_commas (delete_white tail) st)"
      and "tokens tail = toks" and "list_all data_token toks"
      and "label_flag st \<longrightarrow> \<not> is_label_name (label st) (label_set st)"
      and "0 \<le> ic st + dc st" and "ic st + dc st + rows * cols \<le> MEM_AVAIL_WORDS"
      and "s' = st\<lparr>label_flag := False,
                     label_set :=
                       (if label_flag st
                        then label_set st @
                               [\<lparr>l_name = label st, l_address = word_of_int (dc st),
                                 l_data_or_ins = DATA, l_ent_or_ext = REGULAR\<rparr>]
                        else label_set st),
                     dc := dc st + rows * cols,
                     dataset := dataset st @
                       map (\<lambda>t. fst (strtol t)) (take (nat (rows * cols)) toks) @
                       replicate (nat (rows * cols) - length toks) 0\<rparr>"
  shows "define_and_run (''mat'' @ sp @ d @ tail) DATA st =
           Continue (if int (length toks) \<le> rows * cols then s'
                     else input_error s'
                            ''There are unnecessary parameter(s), overflow from the defined matrix'')"
proof -
  define st1 where "st1 = st\<lparr>label_flag := False,
                     label_set :=
                       (if label_flag st
                        then label_set st @
                               [\<lparr>l_name = label st, l_address = word_of_int (dc st),
                                 l_data_or_ins = DATA, l_ent_or_ext = REGULAR\<rparr>]
                        else label_set st)\<rparr>"
  define line_p where "line_p = ''mat'' @ sp @ d @ tail"
  define rest where "rest = delete_white (drop (length ''mat'') line_p)"
  define sv where "sv = snd (strtok delims_ws line_p)"
  have lab: "(if label_flag st
              then (snd (if is_label_name (label st) (label_set st)
                         then add_label st (label st) DATA ENTRY
                         else add_label st (label st) DATA REGULAR))\<lparr>label_flag := False\<rparr>
              else st) = st1"
    using assms(16) by (cases "label_flag st") (simp_all add: st1_def add_label_def)
  have icdc: "ic st1 = ic st" "dc st1 = dc st" "dataset st1 = dataset st"
    by (simp_all add: st1_def)
  note cw = command_word [OF assms(10,11), of "d @ tail"]
  from assms(11) have tls: "set (tl sp) \<subseteq> set delims_ws"
    by (cases sp) auto
  note dw = definition_word [OF assms(2,4,5,6,12) tls]
  have first: "copy_first_word line_p (CMD_LEN + 1) = ''mat''"
    unfolding line_p_def by (rule cw(1))
  have rest: "rest = d @ tail"
    unfolding rest_def line_p_def using cw(3) dw(3) by simp
  have sv: "sv = tl sp @ d @ tail"
    unfolding sv_def line_p_def cw(2) by simp
  from assms(5) have dne: "d \<noteq> []" by simp
  have a1: "copy_first_word rest (WORD_LEN + 1) = d"
    unfolding rest by (rule dw(1))
  from digits_value_nonneg [OF assms(2)] digits_value_nonneg [OF assms(4)]
  have nn: "0 \<le> rows" "0 \<le> cols" by (simp_all add: assms(7,8))
  from assms(9) nn have pos: "1 \<le> rows" "1 \<le> cols"
    by (cases "rows = 0"; cases "cols = 0"; simp)+
  from assms(17,18) have le: "rows * cols \<le> 156" by (simp add: MEM_AVAIL_WORDS_def)
  from mult_left_mono [OF pos(2) nn(1)] le have r: "rows \<le> 156" by simp
  from mult_right_mono [OF pos(1) nn(2)] le have c: "cols \<le> 156" by simp
  from r c have im: "digits_value rd \<le> INT_MAX" "digits_value cd \<le> INT_MAX"
    by (simp_all add: assms(7,8) [symmetric] INT_MAX_def)
  from check_mat_def_brackets [OF assms(1,2,3,4) im, of st1]
  have a2: "check_mat_def d DATA st1 = (0, rows, cols, st1)"
    by (simp add: assms(5,7,8))
  from is_valid_commas_state [OF assms(13), of st1]
  have a6: "fst (is_valid_commas (delete_white (drop (length d) rest)) st1)"
    by (simp add: rest)
  have a7: "tokens (snd (strtok delims_ws sv)) = toks"
    unfolding sv dw(2) using tokens_drop1 [OF assms(12)] assms(14) by simp
  have s1: "s' = st1\<lparr>dc := dc st1 + rows * cols,
                     dataset := dataset st1 @
                       map (\<lambda>t. fst (strtol t)) (take (nat (rows * cols)) toks) @
                       replicate (nat (rows * cols) - length toks) 0\<rparr>"
    by (simp add: assms(19) st1_def)
  from assms(17,18) have a4: "0 \<le> ic st1 + dc st1"
    and a5: "ic st1 + dc st1 + rows * cols \<le> MEM_AVAIL_WORDS"
    by (simp_all add: icdc)
  note m = mat_cmd_values [OF a1 a2 assms(9) a4 a5 a6 a7 assms(15) s1]
  have f: "FATAL_ERROR \<noteq> 0" by (simp add: FATAL_ERROR_def)
  from rest have r3: "delete_white (drop (Suc (Suc (Suc 0))) line_p) = d @ tail"
    by (simp add: rest_def)
  have "define_and_run line_p DATA st = of_rc (mat_cmd rest sv st1)"
    unfolding define_and_run_def Let_def lab first
    using dne by (simp add: sv_def [symmetric] rest r3)
  with m f show ?thesis
    by (simp add: line_p_def of_rc_def)
qed

theorem mat_directive_witness:
  "tokens '' 1, 2, 3\<newline>'' = [''1'', ''2'', ''3''] \<and>
   list_all data_token [''1'', ''2'', ''3''] \<and>
   fst (is_valid_commas (delete_white '' 1, 2, 3\<newline>'')
          ((initial_pass1 False)\<lparr>label_flag := True, label := ''M''\<rparr>)) \<and>
   define_and_run ''mat [2][3] 1, 2, 3\<newline>'' DATA
       ((initial_pass1 False)\<lparr>label_flag := True, label := ''M''\<rparr>) =
     Continue ((initial_pass1 False)\<lparr>label := ''M'', dc := 6, dataset := [1, 2, 3, 0, 0, 0],
       label_set := [\<lparr>l_name = ''M'', l_address = 0, l_data_or_ins = DATA,
                       l_ent_or_ext = REGULAR\<rparr>]\<rparr>) \<and>
   first_pass_scan [] ''A: .data 7, 8\<newline>M: .mat [2][3] 1, 2, 3\<newline>'' False =
     Continue ((initial_pass1 False)\<lparr>label := ''M'', dc := 8, line_count := 2,
       dataset := [7, 8, 1, 2, 3, 0, 0, 0],
       label_set := [\<lparr>l_name = ''A'', l_address = 0, l_data_or_ins = DATA,
                       l_ent_or_ext = REGULAR\<rparr>,
                     \<lparr>l_name = ''M'', l_address = 2, l_data_or_ins = DATA,
                       l_ent_or_ext = REGULAR\<rparr>]\<rparr>)"
proof -
  define st where "st = (initial_pass1 False)\<lparr>label_flag := True, label := ''M''\<rparr>"
  have h1: "''2'' \<noteq> []" "list_all isdigit ''2''" "''3'' \<noteq> []" "list_all isdigit ''3''"
    by (simp_all add: isdigit_def)
  have h5: "''[2][3]'' = ''['' @ ''2'' @ '']['' @ ''3'' @ '']''" by simp
  have h6: "length ''[2][3]'' \<le> WORD_LEN" by (simp add: WORD_LEN_def)
  have h7: "2 = digits_value ''2''" "3 = digits_value ''3''"
    by (simp_all add: digits_value_def)
  have h9: "0 < (2::int) * 3" by simp
  have h10: "'' '' \<noteq> []" "set '' '' \<subseteq> set delims_ws"
    by (simp_all add: delims_ws_def)
  have h12: "'' 1, 2, 3\<newline>'' = [] \<or> hd '' 1, 2, 3\<newline>'' \<in> set delims_ws"
    by (simp add: delims_ws_def)
  have h13: "fst (is_valid_commas (delete_white '' 1, 2, 3\<newline>'') st)"
    unfolding st_def by code_simp
  have h14: "tokens '' 1, 2, 3\<newline>'' = [''1'', ''2'', ''3'']" by code_simp
  have h15: "list_all data_token [''1'', ''2'', ''3'']" by code_simp
  have h16: "label_flag st \<longrightarrow> \<not> is_label_name (label st) (label_set st)"
    by (simp add: st_def initial_pass1_def is_label_name_def)
  have h17: "0 \<le> ic st + dc st" "ic st + dc st + 2 * 3 \<le> MEM_AVAIL_WORDS"
    by (simp_all add: st_def initial_pass1_def MEM_AVAIL_WORDS_def)
  have v: "fst (strtol ''1'') = 1" "fst (strtol ''2'') = 2" "fst (strtol ''3'') = 3"
    by code_simp+
  from mat_directive [OF h1 h5 h6 h7 h9 h10 h12 h13 h14 h15 h16 h17 refl]
  have "define_and_run (''mat'' @ '' '' @ ''[2][3]'' @ '' 1, 2, 3\<newline>'') DATA st =
     Continue (st\<lparr>label_flag := False,
       label_set := [\<lparr>l_name = ''M'', l_address = 0, l_data_or_ins = DATA,
                       l_ent_or_ext = REGULAR\<rparr>],
       dc := 6, dataset := [1, 2, 3, 0, 0, 0]\<rparr>)"
    by (simp add: v) (simp add: st_def initial_pass1_def eval_nat_numeral)
  then have d: "define_and_run ''mat [2][3] 1, 2, 3\<newline>'' DATA st =
     Continue ((initial_pass1 False)\<lparr>label := ''M'', dc := 6, dataset := [1, 2, 3, 0, 0, 0],
       label_set := [\<lparr>l_name = ''M'', l_address = 0, l_data_or_ins = DATA,
                       l_ent_or_ext = REGULAR\<rparr>]\<rparr>)"
    by (simp add: st_def initial_pass1_def)
  have f: "first_pass_scan [] ''A: .data 7, 8\<newline>M: .mat [2][3] 1, 2, 3\<newline>'' False =
     Continue ((initial_pass1 False)\<lparr>label := ''M'', dc := 8, line_count := 2,
       dataset := [7, 8, 1, 2, 3, 0, 0, 0],
       label_set := [\<lparr>l_name = ''A'', l_address = 0, l_data_or_ins = DATA,
                       l_ent_or_ext = REGULAR\<rparr>,
                     \<lparr>l_name = ''M'', l_address = 2, l_data_or_ins = DATA,
                       l_ent_or_ext = REGULAR\<rparr>]\<rparr>)"
    by code_simp
  from h13 h14 h15 d f show ?thesis unfolding st_def by blast
qed

theorem mat_comma_counterexample:
  "first_pass_scan [] ''M: .mat [2][3], 1, 2, 3\<newline>'' False =
     Continue ((initial_pass1 True)\<lparr>label := ''M'', line_count := 1,
       label_set := [\<lparr>l_name = ''M'', l_address = 0, l_data_or_ins = DATA,
                       l_ent_or_ext = REGULAR\<rparr>],
       stderr1 := [(1, ''An extra character appears after a matrix definition'')]\<rparr>) \<and>
   first_pass_scan [] ''M: .mat [2][3] , 1, 2, 3\<newline>'' False =
     Continue ((initial_pass1 True)\<lparr>label := ''M'', line_count := 1,
       label_set := [\<lparr>l_name = ''M'', l_address = 0, l_data_or_ins = DATA,
                       l_ent_or_ext = REGULAR\<rparr>],
       stderr1 := [(1, ''There is a comma before parameters'')]\<rparr>)"
  by code_simp

end
